(* ===== verification/OSS_Prelude.thy ===== *)
theory OSS_Prelude
  imports Main "HOL-Library.Monad_Syntax"
begin

text \<open>
  Shared vocabulary of the development: the bytes a C++ pointer sees, signed characters,
  NUL-terminated strings, and the generic facts on lists and options that the component
  theories use.

  A pointer into a buffer is modelled by the bytes from its position to the end of the buffer
  (\<open>mem\<close>); \<open>t + n\<close> is \<open>drop n\<close>, and reading past the last byte is the value
  \<^const>\<open>None\<close>. A \<open>std::string\<close> is a \<open>string\<close>; its \<open>c_str()\<close> is the
  string followed by the terminating NUL.
\<close>

named_theorems rule_defs \<open>definitions of grammar rules, unfolded for evaluation\<close>
named_theorems rule_safe \<open>rules that never read past the terminating NUL\<close>

type_synonym mem = "char list"

abbreviation NUL :: char where
  "NUL \<equiv> CHR 0x00"

text \<open>The value of a \<open>char\<close> in an integer comparison: \<open>char\<close> is signed on the
  platforms the build files name (gcc and clang on x86).\<close>

definition schar :: "char \<Rightarrow> int" where
  "schar c = (let n = of_char c in if n < 128 then n else n - 256)"

definition deref :: "mem \<Rightarrow> char option" where
  "deref m = (case m of [] \<Rightarrow> None | c # _ \<Rightarrow> Some c)"

definition cstr :: "string \<Rightarrow> mem" where
  "cstr s = s @ [NUL]"

text \<open>\<open>std::string(const char*)\<close>: the bytes up to the first NUL.\<close>

definition str_of :: "mem \<Rightarrow> string option" where
  "str_of m = (if NUL \<in> set m then Some (takeWhile (\<lambda>c. c \<noteq> NUL) m) else None)"

abbreviation nul_free :: "string \<Rightarrow> bool" where
  "nul_free s \<equiv> NUL \<notin> set s"

subsection \<open>Lists and strings\<close>

lemma deref_simps [simp]:
  "deref [] = None"
  "deref (c # m) = Some c"
  by (simp_all add: deref_def)

lemma nul_free_drop [simp, intro]: "nul_free s \<Longrightarrow> nul_free (drop n s)"
  by (meson in_set_dropD)

lemma nul_free_take [simp, intro]: "nul_free s \<Longrightarrow> nul_free (take n s)"
  by (meson in_set_takeD)

lemma nul_free_tl [simp, intro]: "nul_free s \<Longrightarrow> nul_free (tl s)"
  by (cases s) auto

lemma nul_free_takeWhile [simp, intro]: "nul_free s \<Longrightarrow> nul_free (takeWhile P s)"
  by (meson set_takeWhileD)

lemma drop_cstr [simp]: "n \<le> length s \<Longrightarrow> drop n (s @ NUL # rest) = drop n s @ NUL # rest"
  by simp

lemma takeWhile_nul_free: "nul_free s \<Longrightarrow> takeWhile (\<lambda>c. c \<noteq> NUL) (s @ NUL # rest) = s"
  by (induction s) auto

lemma str_of_cstr [simp]: "nul_free s \<Longrightarrow> str_of (s @ NUL # rest) = Some s"
  by (simp add: str_of_def takeWhile_nul_free)

lemma takeWhile_takeWhile_length:
  "takeWhile P (drop n s) = [] \<Longrightarrow> n < length s \<Longrightarrow> \<not> P (s ! n)"
  by (metis Cons_nth_drop_Suc list.distinct(1) takeWhile.simps(2))

lemma takeWhile_append_stop:
  "\<forall>c \<in> set a. P c \<Longrightarrow> b = [] \<or> \<not> P (hd b) \<Longrightarrow> takeWhile P (a @ b) = a"
  by (cases b) (auto simp: takeWhile_append2 takeWhile_eq_all_conv)

lemma length_takeWhile_pos: "0 < length (takeWhile P s) \<longleftrightarrow> s \<noteq> [] \<and> P (hd s)"
  by (cases s) auto

lemma take_takeWhile_take: "take (length (takeWhile P (take k s))) s = takeWhile P (take k s)"
proof (induction s arbitrary: k)
  case (Cons c s)
  then show ?case by (cases k) auto
qed simp

text \<open>Signed character values are injective and lie between -128 and 127.\<close>

lemma of_char_int_bounds: "0 \<le> (of_char c :: int)" "(of_char c :: int) < 256"
proof -
  have "(of_char c :: int) = int (of_char c)"
    by (rule of_nat_of_char [symmetric])
  moreover have "(of_char c :: nat) < 256"
    by (rule nat_of_char_less_256)
  ultimately show "0 \<le> (of_char c :: int)" "(of_char c :: int) < 256"
    by simp_all
qed

lemma schar_eq_iff: "schar c = schar d \<longleftrightarrow> c = d"
proof
  assume "schar c = schar d"
  then have "(of_char c :: int) = of_char d"
    using of_char_int_bounds [of c] of_char_int_bounds [of d]
    by (auto simp: schar_def Let_def split: if_splits)
  then show "c = d" by simp
qed simp

lemma schar_bounds: "-128 \<le> schar c" "schar c \<le> 127"
  using of_char_int_bounds [of c] by (auto simp: schar_def Let_def)

end
