(* ===== verification/ABNF_Core.thy ===== *)
theory ABNF_Core
  imports OSS_Prelude
begin

text \<open>
  The ABNF rule classes of \<^verbatim>\<open>include/OSS/ABNF\<close> and \<^verbatim>\<open>src/abnf/ABNFParser.cpp\<close>: the rule
  interface, the single character rules, literals, ordered choice, sequences and bounded
  repetition. A rule is the record of what its class offers to the templates: the \<open>parse\<close>
  method, the value \<open>isOptional()\<close> has after a call of \<open>parse\<close>, and whether its
  \<open>typeid\<close> is that of the null rule. \<open>parse\<close> returns how far the pointer moved,
  or \<^const>\<open>None\<close> when the code reads outside the buffer.

  The second half proves the contract \<open>abnf_rule\<close>: on a NUL-terminated string the rule
  neither reads nor moves past the terminator and its result depends on the string alone, so
  the pointer code refines the pure function \<open>consumed\<close>.
\<close>

section \<open>Definitions\<close>

record rule =
  parse :: "mem \<Rightarrow> nat option"
  isOptional :: bool
  isNull :: bool

text \<open>A class that declares its own \<open>parse\<close> and inherits \<open>_optional = false\<close>.\<close>

definition ABNFBaseRule :: "(mem \<Rightarrow> nat option) \<Rightarrow> rule" where
  "ABNFBaseRule p = \<lparr>parse = p, isOptional = False, isNull = False\<rparr>"

definition ABNFEvaluate :: "rule \<Rightarrow> mem \<Rightarrow> bool option" where
  "ABNFEvaluate r m = do {
     n \<leftarrow> parse r m;
     c \<leftarrow> deref (drop n m);
     Some (c = NUL)
   }"

subsection \<open>Single characters\<close>

text \<open>The common body \<open>if (test(*t)) t++; return t;\<close>.\<close>

definition char_rule :: "(char \<Rightarrow> bool) \<Rightarrow> rule" where
  "char_rule P = ABNFBaseRule (\<lambda>m. do {
     c \<leftarrow> deref m;
     Some (if P c then 1 else 0)
   })"

definition ABNFOctet :: rule where
  "ABNFOctet = char_rule (\<lambda>c. schar c \<ge> 0x00)"

definition ABNFChar :: rule where
  "ABNFChar = char_rule (\<lambda>c. schar c \<ge> 0x01 \<and> schar c \<le> 0x7F)"

definition ABNFCharComparison :: "char \<Rightarrow> rule" where
  "ABNFCharComparison literal = char_rule (\<lambda>c. c = literal)"

definition ABNFCharPrintable :: rule where
  "ABNFCharPrintable = char_rule (\<lambda>c. schar c \<ge> 0x21 \<and> schar c \<le> 0x7E)"

definition ABNFCharAlpha :: rule where
  "ABNFCharAlpha = char_rule (\<lambda>c.
     (schar c \<ge> 0x41 \<and> schar c \<le> 0x5A) \<or> (schar c \<ge> 0x61 \<and> schar c \<le> 0x7A))"

definition ABNFCharDigit :: rule where
  "ABNFCharDigit = char_rule (\<lambda>c. schar c \<ge> 0x30 \<and> schar c \<le> 0x39)"

definition ABNFCharControl :: rule where
  "ABNFCharControl = char_rule (\<lambda>c. (schar c \<ge> 0x00 \<and> schar c \<le> 0x1F) \<or> schar c = 0x7F)"

definition ABNFCharHex :: rule where
  "ABNFCharHex = char_rule (\<lambda>c.
     (schar c \<ge> 0x30 \<and> schar c \<le> 0x39) \<or> (schar c \<ge> 0x41 \<and> schar c \<le> 0x46) \<or>
     (schar c \<ge> 0x61 \<and> schar c \<le> 0x66))"

definition ABNFRange :: "int \<Rightarrow> int \<Rightarrow> rule" where
  "ABNFRange minValue maxValue = char_rule (\<lambda>c. schar c \<ge> minValue \<or> schar c \<le> maxValue)"

text \<open>The templates over characters copy their arguments into \<open>char _value[50]\<close>; the
  arguments left out are 0x00.\<close>

definition value50 :: "char list \<Rightarrow> char list" where
  "value50 cs = take 50 (cs @ replicate 50 NUL)"

fun any_of_chars :: "char list \<Rightarrow> mem \<Rightarrow> nat option" where
  "any_of_chars [] m = Some 0"
| "any_of_chars (v # vs) m = do {
     c \<leftarrow> deref m;
     if c = NUL then Some 0
     else if c = v then Some 1
     else any_of_chars vs m
   }"

definition ABNFAnyOfChars :: "char list \<Rightarrow> rule" where
  "ABNFAnyOfChars cs = ABNFBaseRule (any_of_chars (value50 cs))"

subsection \<open>String literals\<close>

text \<open>The loop over \<open>_value\<close>, given the comparison of a character with an entry; \<open>k\<close>
  is \<open>t - startT\<close>.\<close>

fun string_literal :: "(char \<Rightarrow> char \<Rightarrow> bool) \<Rightarrow> char list \<Rightarrow> nat \<Rightarrow> mem \<Rightarrow> nat option" where
  "string_literal eq [] k m = Some 0"
| "string_literal eq (v # vs) k m = do {
     c \<leftarrow> deref m;
     if c = NUL then Some 0
     else if eq c v then
       (if vs \<noteq> [] \<and> hd vs \<noteq> NUL then string_literal eq vs (k + 1) (tl m) else Some (k + 1))
     else Some 0
   }"

definition nocase_eq :: "char \<Rightarrow> char \<Rightarrow> bool" where
  "nocase_eq c v = (c = v \<or> schar c = schar v - 0x20 \<or> schar c = schar v + 0x20)"

definition ABNFStringLiteral :: "char list \<Rightarrow> rule" where
  "ABNFStringLiteral cs = ABNFBaseRule (string_literal nocase_eq (value50 cs) 0)"

definition ABNFStrictStringLiteral :: "char list \<Rightarrow> rule" where
  "ABNFStrictStringLiteral cs = ABNFBaseRule (string_literal (=) (value50 cs) 0)"

subsection \<open>Choice\<close>

definition ABNFAnyOf :: "rule \<Rightarrow> rule \<Rightarrow> rule" where
  "ABNFAnyOf r0 r1 = ABNFBaseRule (\<lambda>m. do {
     c \<leftarrow> deref m;
     if c = NUL then Some 0
     else do {
       n0 \<leftarrow> parse r0 m;
       if n0 \<noteq> 0 then Some n0
       else do {
         n1 \<leftarrow> parse r1 m;
         if n1 \<noteq> 0 then Some n1 else Some 0
       }
     }
   })"

definition ABNFLRNullRule :: rule where
  "ABNFLRNullRule = \<lparr>parse = (\<lambda>m. Some 0), isOptional = False, isNull = True\<rparr>"

text \<open>The cases \<open>0 .. n-1\<close> of the loops of the \<open>ABNFAnyOfMultiple\<close> templates.\<close>

fun any_of :: "rule list \<Rightarrow> mem \<Rightarrow> nat option" where
  "any_of [] m = Some 0"
| "any_of (r # rs) m =
     (if isNull r then Some 0
      else do {
        n \<leftarrow> parse r m;
        if n \<noteq> 0 then Some n else any_of rs m
      })"

definition ABNFAnyOfMultiple16 :: "rule list \<Rightarrow> rule" where
  "ABNFAnyOfMultiple16 rs = ABNFBaseRule (any_of (take 16 (rs @ replicate 16 ABNFLRNullRule)))"

definition ABNFAnyOfMultiple3 :: "rule \<Rightarrow> rule \<Rightarrow> rule \<Rightarrow> rule" where
  "ABNFAnyOfMultiple3 r0 r1 r2 = ABNFBaseRule (any_of [r0, r1, r2])"

definition ABNFAnyOfMultiple4 :: "rule \<Rightarrow> rule \<Rightarrow> rule \<Rightarrow> rule \<Rightarrow> rule" where
  "ABNFAnyOfMultiple4 r0 r1 r2 r3 = ABNFBaseRule (any_of [r0, r1, r2, r3])"

definition ABNFAnyOfMultiple5 :: "rule \<Rightarrow> rule \<Rightarrow> rule \<Rightarrow> rule \<Rightarrow> rule \<Rightarrow> rule" where
  "ABNFAnyOfMultiple5 r0 r1 r2 r3 r4 = ABNFBaseRule (any_of [r0, r1, r2, r3, r4])"

subsection \<open>Optional rules and sequences\<close>

definition ABNFLROptional :: "rule \<Rightarrow> rule" where
  "ABNFLROptional r = \<lparr>parse = (\<lambda>m. do {
       c \<leftarrow> deref m;
       if c = NUL then Some 0
       else do {
         n \<leftarrow> parse r m;
         Some (if n \<noteq> 0 then n else 0)
       }
     }), isOptional = True, isNull = False\<rparr>"

text \<open>The unrolled bodies of \<open>ABNFLRSequence2\<close> to \<open>ABNFLRSequence6\<close>: each rule is
  tried where the one before it stopped; a rule that does not move and is not optional makes
  the whole sequence return its start. \<open>acc\<close> is \<open>t - startIter\<close>.\<close>

fun lr_sequence :: "rule list \<Rightarrow> nat \<Rightarrow> mem \<Rightarrow> nat option" where
  "lr_sequence [] acc m = Some acc"
| "lr_sequence (r # rs) acc m = do {
     n \<leftarrow> parse r m;
     if n = 0 \<and> \<not> isOptional r then Some 0
     else lr_sequence rs (acc + n) (drop n m)
   }"

text \<open>\<open>parseTokens\<close> returns the tokens it pushed and the distance the pointer moved;
  the tokens pushed before a rule failed stay in the vector.\<close>

fun lr_tokens :: "rule list \<Rightarrow> nat \<Rightarrow> mem \<Rightarrow> (string list \<times> nat) option" where
  "lr_tokens [] acc m = Some ([], acc)"
| "lr_tokens (r # rs) acc m = do {
     n \<leftarrow> parse r m;
     if n = 0 \<and> \<not> isOptional r then Some ([], 0)
     else do {
       (ts, k) \<leftarrow> lr_tokens rs (acc + n) (drop n m);
       Some (take n m # ts, k)
     }
   }"

definition ABNFLRSequence2 :: "rule \<Rightarrow> rule \<Rightarrow> rule" where
  "ABNFLRSequence2 r0 r1 = ABNFBaseRule (lr_sequence [r0, r1] 0)"

definition ABNFLRSequence2_parseTokens :: "rule \<Rightarrow> rule \<Rightarrow> mem \<Rightarrow> (string list \<times> nat) option" where
  "ABNFLRSequence2_parseTokens r0 r1 m = lr_tokens [r0, r1] 0 m"

definition ABNFLRSequence3 :: "rule \<Rightarrow> rule \<Rightarrow> rule \<Rightarrow> rule" where
  "ABNFLRSequence3 r0 r1 r2 = ABNFBaseRule (lr_sequence [r0, r1, r2] 0)"

definition ABNFLRSequence3_parseTokens ::
    "rule \<Rightarrow> rule \<Rightarrow> rule \<Rightarrow> mem \<Rightarrow> (string list \<times> nat) option" where
  "ABNFLRSequence3_parseTokens r0 r1 r2 m = lr_tokens [r0, r1, r2] 0 m"

definition ABNFLRSequence4 :: "rule \<Rightarrow> rule \<Rightarrow> rule \<Rightarrow> rule \<Rightarrow> rule" where
  "ABNFLRSequence4 r0 r1 r2 r3 = ABNFBaseRule (lr_sequence [r0, r1, r2, r3] 0)"

definition ABNFLRSequence4_parseTokens ::
    "rule \<Rightarrow> rule \<Rightarrow> rule \<Rightarrow> rule \<Rightarrow> mem \<Rightarrow> (string list \<times> nat) option" where
  "ABNFLRSequence4_parseTokens r0 r1 r2 r3 m = lr_tokens [r0, r1, r2, r3] 0 m"

definition ABNFLRSequence5 :: "rule \<Rightarrow> rule \<Rightarrow> rule \<Rightarrow> rule \<Rightarrow> rule \<Rightarrow> rule" where
  "ABNFLRSequence5 r0 r1 r2 r3 r4 = ABNFBaseRule (lr_sequence [r0, r1, r2, r3, r4] 0)"

definition ABNFLRSequence5_parseTokens ::
    "rule \<Rightarrow> rule \<Rightarrow> rule \<Rightarrow> rule \<Rightarrow> rule \<Rightarrow> mem \<Rightarrow> (string list \<times> nat) option" where
  "ABNFLRSequence5_parseTokens r0 r1 r2 r3 r4 m = lr_tokens [r0, r1, r2, r3, r4] 0 m"

definition ABNFLRSequence6 :: "rule \<Rightarrow> rule \<Rightarrow> rule \<Rightarrow> rule \<Rightarrow> rule \<Rightarrow> rule \<Rightarrow> rule" where
  "ABNFLRSequence6 r0 r1 r2 r3 r4 r5 = ABNFBaseRule (lr_sequence [r0, r1, r2, r3, r4, r5] 0)"

definition ABNFLRSequence6_parseTokens ::
    "rule \<Rightarrow> rule \<Rightarrow> rule \<Rightarrow> rule \<Rightarrow> rule \<Rightarrow> rule \<Rightarrow> mem \<Rightarrow> (string list \<times> nat) option" where
  "ABNFLRSequence6_parseTokens r0 r1 r2 r3 r4 r5 m = lr_tokens [r0, r1, r2, r3, r4, r5] 0 m"

text \<open>\<open>ABNFLRSequence16\<close> tests each rule for the null rule; the loop that runs through
  all sixteen cases falls out to \<open>return startIter\<close>.\<close>

fun lr_sequence16 :: "rule list \<Rightarrow> nat \<Rightarrow> mem \<Rightarrow> nat option" where
  "lr_sequence16 [] acc m = Some 0"
| "lr_sequence16 (r # rs) acc m =
     (if isNull r then Some acc
      else do {
        n \<leftarrow> parse r m;
        if n = 0 \<and> \<not> isOptional r then Some 0
        else lr_sequence16 rs (acc + n) (drop n m)
      })"

fun lr_tokens16 :: "rule list \<Rightarrow> nat \<Rightarrow> mem \<Rightarrow> (string list \<times> nat) option" where
  "lr_tokens16 [] acc m = Some ([], 0)"
| "lr_tokens16 (r # rs) acc m =
     (if isNull r then Some ([], acc)
      else do {
        n \<leftarrow> parse r m;
        if n = 0 \<and> \<not> isOptional r then Some ([], 0)
        else do {
          (ts, k) \<leftarrow> lr_tokens16 rs (acc + n) (drop n m);
          Some (take n m # ts, k)
        }
      })"

definition ABNFLRSequence16 :: "rule list \<Rightarrow> rule" where
  "ABNFLRSequence16 rs =
     ABNFBaseRule (lr_sequence16 (take 16 (rs @ replicate 16 ABNFLRNullRule)) 0)"

definition ABNFLRSequence16_parseTokens :: "rule list \<Rightarrow> mem \<Rightarrow> (string list \<times> nat) option" where
  "ABNFLRSequence16_parseTokens rs m =
     lr_tokens16 (take 16 (rs @ replicate 16 ABNFLRNullRule)) 0 m"

subsection \<open>Repetition\<close>

text \<open>\<open>exit_rule\<close> compares with ten template arguments; those left out are 0x00.\<close>

definition ABNFLoopExitChars :: "char list \<Rightarrow> char \<Rightarrow> bool" where
  "ABNFLoopExitChars cs c = (c \<in> set (take 10 (cs @ replicate 10 NUL)))"

definition ABNFLoopExitIfNul :: "char \<Rightarrow> bool" where
  "ABNFLoopExitIfNul = ABNFLoopExitChars [NUL]"

text \<open>The \<open>for\<close> loop: the result is the value of \<open>i\<close> when the loop is left and
  \<open>t - startIter\<close>.\<close>

function loop_until :: "rule \<Rightarrow> (char \<Rightarrow> bool) \<Rightarrow> nat \<Rightarrow> nat \<Rightarrow> nat \<Rightarrow> mem \<Rightarrow> (nat \<times> nat) option" where
  "loop_until r exit_rule maxSize i acc m =
     (if i < maxSize then do {
        c \<leftarrow> deref m;
        if exit_rule c then Some (i, acc)
        else do {
          n \<leftarrow> parse r m;
          if n = 0 then Some (i, acc)
          else loop_until r exit_rule maxSize (i + 1) (acc + n) (drop n m)
        }
      } else Some (i, acc))"
  by pat_completeness auto
termination
  by (relation "measure (\<lambda>(r, e, maxSize, i, acc, m). maxSize - i)") auto

function loop_tokens ::
    "rule \<Rightarrow> (char \<Rightarrow> bool) \<Rightarrow> nat \<Rightarrow> nat \<Rightarrow> nat \<Rightarrow> mem \<Rightarrow> (string list \<times> nat \<times> nat) option" where
  "loop_tokens r exit_rule maxSize i acc m =
     (if i < maxSize then do {
        c \<leftarrow> deref m;
        if exit_rule c then Some ([], i, acc)
        else do {
          n \<leftarrow> parse r m;
          if n = 0 then Some ([], i, acc)
          else do {
            (ts, j, k) \<leftarrow> loop_tokens r exit_rule maxSize (i + 1) (acc + n) (drop n m);
            Some (take n m # ts, j, k)
          }
        }
      } else Some ([], i, acc))"
  by pat_completeness auto
termination
  by (relation "measure (\<lambda>(r, e, maxSize, i, acc, m). maxSize - i)") auto

declare loop_until.simps [simp del] loop_tokens.simps [simp del]

definition ABNFLoopUntil :: "rule \<Rightarrow> (char \<Rightarrow> bool) \<Rightarrow> nat \<Rightarrow> nat \<Rightarrow> rule" where
  "ABNFLoopUntil r exit_rule minSize maxSize = \<lparr>parse = (\<lambda>m. do {
       c \<leftarrow> deref m;
       if c = NUL then Some 0
       else do {
         (i, n) \<leftarrow> loop_until r exit_rule maxSize 0 0 m;
         if i < minSize then Some 0 else Some n
       }
     }), isOptional = (minSize = 0), isNull = False\<rparr>"

definition ABNFLoopUntil_parseTokens ::
    "rule \<Rightarrow> (char \<Rightarrow> bool) \<Rightarrow> nat \<Rightarrow> nat \<Rightarrow> mem \<Rightarrow> (string list \<times> nat) option" where
  "ABNFLoopUntil_parseTokens r exit_rule minSize maxSize m = do {
     (ts, i, n) \<leftarrow> loop_tokens r exit_rule maxSize 0 0 m;
     if i < minSize then Some (ts, 0) else Some (ts, n)
   }"

section \<open>The contract of a rule\<close>

text \<open>What a client may assume of a rule it runs on a C string, and the weaker contract of a
  rule that is only run where at least one character is left.\<close>

locale abnf_rule_ne =
  fixes r :: rule
  assumes contract_ne:
    "nul_free s \<Longrightarrow> s \<noteq> [] \<Longrightarrow> \<exists>n \<le> length s. \<forall>rest. parse r (s @ NUL # rest) = Some n"

locale abnf_rule =
  fixes r :: rule
  assumes contract: "nul_free s \<Longrightarrow> \<exists>n \<le> length s. \<forall>rest. parse r (s @ NUL # rest) = Some n"

text \<open>How many characters of a string a rule takes: the abstract view of \<open>parse\<close>.\<close>

definition consumed :: "rule \<Rightarrow> string \<Rightarrow> nat" where
  "consumed r s = (case parse r (cstr s) of None \<Rightarrow> 0 | Some n \<Rightarrow> n)"

lemma consumed_eqI: "parse r (s @ [NUL]) = Some n \<Longrightarrow> consumed r s = n"
  by (simp add: consumed_def cstr_def)

context abnf_rule_ne
begin

lemma parse_ne: "nul_free s \<Longrightarrow> s \<noteq> [] \<Longrightarrow> parse r (s @ NUL # rest) = Some (consumed r s)"
  using contract_ne [of s] by (auto dest: consumed_eqI)

lemma consumed_ne_le: "nul_free s \<Longrightarrow> s \<noteq> [] \<Longrightarrow> consumed r s \<le> length s"
  using contract_ne [of s] by (auto dest: consumed_eqI)

end

context abnf_rule
begin

lemma parse_cstr: "nul_free s \<Longrightarrow> parse r (s @ NUL # rest) = Some (consumed r s)"
  using contract [of s] by (auto dest: consumed_eqI)

lemma consumed_le: "nul_free s \<Longrightarrow> consumed r s \<le> length s"
  using contract [of s] by (auto dest: consumed_eqI)

lemma consumed_Nil: "consumed r [] = 0"
  using consumed_le [of "[]"] by simp

lemma evaluate_cstr:
  assumes "nul_free s"
  shows "ABNFEvaluate r (s @ NUL # rest) = Some (consumed r s = length s)"
proof -
  let ?n = "consumed r s"
  have le: "?n \<le> length s"
    by (rule consumed_le [OF assms])
  have "deref (drop ?n (s @ NUL # rest)) = Some (if ?n = length s then NUL else s ! ?n)"
    using le by (cases "drop ?n s") (auto simp: drop_eq_Nil2 hd_drop_conv_nth [symmetric])
  moreover have "?n < length s \<Longrightarrow> s ! ?n \<noteq> NUL"
    using assms by (metis nth_mem)
  ultimately show ?thesis
    using le by (auto simp: ABNFEvaluate_def parse_cstr [OF assms])
qed

end

sublocale abnf_rule \<subseteq> abnf_rule_ne
  by unfold_locales (rule contract)

subsection \<open>The classes keep the contract\<close>

text \<open>\<open>refines r f\<close>: on every NUL-free string the pointer code of \<open>r\<close> moves exactly
  \<open>f s\<close> characters and stays within the string.\<close>

definition refines :: "rule \<Rightarrow> (string \<Rightarrow> nat) \<Rightarrow> bool" where
  "refines r f = (\<forall>s. nul_free s \<longrightarrow> f s \<le> length s \<and> (\<forall>rest. parse r (s @ NUL # rest) = Some (f s)))"

lemma refinesI:
  "(\<And>s rest. nul_free s \<Longrightarrow> parse r (s @ NUL # rest) = Some (f s)) \<Longrightarrow>
   (\<And>s. nul_free s \<Longrightarrow> f s \<le> length s) \<Longrightarrow> refines r f"
  by (simp add: refines_def)

lemma refinesD: "refines r f \<Longrightarrow> nul_free s \<Longrightarrow> parse r (s @ NUL # rest) = Some (f s)"
  by (simp add: refines_def)

lemma refines_rule: "refines r f \<Longrightarrow> abnf_rule r"
  by unfold_locales (auto simp: refines_def)

lemma refines_consumed: "refines r f \<Longrightarrow> nul_free s \<Longrightarrow> consumed r s = f s"
  by (auto simp: refines_def intro: consumed_eqI)

lemma abnf_rule_refines: "abnf_rule r \<Longrightarrow> refines r (consumed r)"
  by (rule refinesI) (auto simp: abnf_rule.parse_cstr abnf_rule.consumed_le)

lemma abnf_rule_imp_ne: "abnf_rule r \<Longrightarrow> abnf_rule_ne r"
  by (simp add: abnf_rule.contract abnf_rule_ne.intro)

lemma parse_base [simp]:
  "parse (ABNFBaseRule p) = p" "\<not> isOptional (ABNFBaseRule p)" "\<not> isNull (ABNFBaseRule p)"
  by (simp_all add: ABNFBaseRule_def)

definition char_take :: "(char \<Rightarrow> bool) \<Rightarrow> string \<Rightarrow> nat" where
  "char_take P s = (if s \<noteq> [] \<and> P (hd s) then 1 else 0)"

lemma char_take_simps [simp]:
  "char_take P [] = 0" "char_take P (c # s) = (if P c then 1 else 0)"
  by (simp_all add: char_take_def)

lemma refines_char_rule: "\<not> P NUL \<Longrightarrow> refines (char_rule P) (char_take P)"
proof (rule refinesI)
  fix s rest assume "\<not> P NUL"
  then show "parse (char_rule P) (s @ NUL # rest) = Some (char_take P s)"
    by (cases s) (simp_all add: char_rule_def)
  show "char_take P s \<le> length s"
    by (cases s) simp_all
qed

lemma char_rule_ne: "abnf_rule_ne (char_rule P)"
proof
  fix s :: string assume "s \<noteq> []"
  then obtain c s' where "s = c # s'" by (cases s) auto
  then show "\<exists>n\<le>length s. \<forall>rest. parse (char_rule P) (s @ NUL # rest) = Some n"
    by (intro exI [of _ "if P c then 1 else 0"]) (simp add: char_rule_def)
qed

lemma any_of_chars_eq:
  "deref m = Some c \<Longrightarrow> any_of_chars vs m = Some (if c \<noteq> NUL \<and> c \<in> set vs then 1 else 0)"
  by (induction vs) auto

lemma set_value50: "c \<noteq> NUL \<Longrightarrow> c \<in> set (value50 cs) \<longleftrightarrow> c \<in> set (take 50 cs)"
  by (auto simp: value50_def)

lemma refines_AnyOfChars:
  "refines (ABNFAnyOfChars cs) (char_take (\<lambda>c. c \<noteq> NUL \<and> c \<in> set (take 50 cs)))"
proof (rule refinesI)
  fix s rest
  show "parse (ABNFAnyOfChars cs) (s @ NUL # rest) =
      Some (char_take (\<lambda>c. c \<noteq> NUL \<and> c \<in> set (take 50 cs)) s)"
    by (cases s) (auto simp: ABNFAnyOfChars_def any_of_chars_eq set_value50)
  show "char_take (\<lambda>c. c \<noteq> NUL \<and> c \<in> set (take 50 cs)) s \<le> length s"
    by (cases s) simp_all
qed

text \<open>The literal that \<open>_value\<close> holds, from the comparison's point of view.\<close>

fun literal_take :: "(char \<Rightarrow> char \<Rightarrow> bool) \<Rightarrow> char list \<Rightarrow> string \<Rightarrow> bool" where
  "literal_take eq [] s = True"
| "literal_take eq (v # vs) s = (s \<noteq> [] \<and> eq (hd s) v \<and> literal_take eq vs (tl s))"

lemma literal_take_length: "literal_take eq vs s \<Longrightarrow> length vs \<le> length s"
proof (induction vs arbitrary: s)
  case (Cons v vs)
  then show ?case by (cases s) auto
qed simp

lemma string_literal_cstr:
  "nul_free s \<Longrightarrow> vs \<noteq> [] \<Longrightarrow> nul_free vs \<Longrightarrow> pad = [] \<or> hd pad = NUL \<Longrightarrow>
   string_literal eq (vs @ pad) k (s @ NUL # rest) =
     Some (if literal_take eq vs s then k + length vs else 0)"
proof (induction vs arbitrary: s k)
  case Nil
  then show ?case by simp
next
  case (Cons v vs)
  show ?case
  proof (cases s)
    case Nil
    then show ?thesis by simp
  next
    case (Cons c s')
    note s = this
    show ?thesis
    proof (cases vs)
      case Nil
      then show ?thesis using Cons.prems s by auto
    next
      case (Cons w ws)
      then have IH: "string_literal eq (vs @ pad) (k + 1) (s' @ NUL # rest) =
          Some (if literal_take eq vs s' then k + 1 + length vs else 0)"
        using Cons.IH [of s' "k + 1"] Cons.prems s by auto
      show ?thesis
        using IH Cons.prems s \<open>vs = w # ws\<close> by auto
    qed
  qed
qed

lemma value50_split:
  "length cs < 50 \<Longrightarrow> \<exists>pad. value50 cs = cs @ pad \<and> (pad = [] \<or> hd pad = NUL)"
  by (rule exI [of _ "replicate (50 - length cs) NUL"]) (simp add: value50_def)

text \<open>The literals of the grammar have between one and 49 characters, none of them NUL.\<close>

lemma refines_string_literal:
  assumes "cs \<noteq> []" "length cs < 50" "nul_free cs"
  shows "refines (ABNFBaseRule (string_literal eq (value50 cs) 0))
    (\<lambda>s. if literal_take eq cs s then length cs else 0)"
proof (rule refinesI)
  fix s rest assume "nul_free s"
  from value50_split [OF assms(2)] obtain pad
    where pad: "value50 cs = cs @ pad" "pad = [] \<or> hd pad = NUL" by blast
  show "parse (ABNFBaseRule (string_literal eq (value50 cs) 0)) (s @ NUL # rest) =
      Some (if literal_take eq cs s then length cs else 0)"
    using string_literal_cstr [OF \<open>nul_free s\<close> assms(1,3) pad(2), of eq 0 rest] pad(1) by simp
next
  fix s
  show "(if literal_take eq cs s then length cs else 0) \<le> length s"
    using literal_take_length [of eq cs s] by simp
qed

lemmas refines_StringLiteral =
  refines_string_literal [where eq = nocase_eq, folded ABNFStringLiteral_def]
lemmas refines_StrictStringLiteral =
  refines_string_literal [where eq = "(=)", folded ABNFStrictStringLiteral_def]

text \<open>Ordered choice.\<close>

definition choice_take :: "rule \<Rightarrow> rule \<Rightarrow> string \<Rightarrow> nat" where
  "choice_take r0 r1 s =
     (if s = [] then 0 else if consumed r0 s \<noteq> 0 then consumed r0 s else consumed r1 s)"

lemma refines_AnyOf:
  assumes "abnf_rule_ne r0" "abnf_rule_ne r1"
  shows "refines (ABNFAnyOf r0 r1) (choice_take r0 r1)"
proof (rule refinesI)
  fix s rest assume s: "nul_free s"
  show "parse (ABNFAnyOf r0 r1) (s @ NUL # rest) = Some (choice_take r0 r1 s)"
  proof (cases s)
    case (Cons c s')
    then have "c \<noteq> NUL" using s by auto
    moreover have "s \<noteq> []" using Cons by simp
    ultimately show ?thesis
      using abnf_rule_ne.parse_ne [OF assms(1) s, of rest]
        abnf_rule_ne.parse_ne [OF assms(2) s, of rest] Cons
      by (simp add: ABNFAnyOf_def choice_take_def)
  qed (simp add: ABNFAnyOf_def choice_take_def)
next
  fix s assume "nul_free s"
  then show "choice_take r0 r1 s \<le> length s"
    using assms by (simp add: choice_take_def abnf_rule_ne.consumed_ne_le)
qed

fun choices_take :: "rule list \<Rightarrow> string \<Rightarrow> nat" where
  "choices_take [] s = 0"
| "choices_take (r # rs) s =
     (if isNull r then 0
      else if consumed r s \<noteq> 0 then consumed r s else choices_take rs s)"

lemma any_of_cstr:
  "nul_free s \<Longrightarrow> \<forall>r \<in> set rs. abnf_rule r \<Longrightarrow>
   any_of rs (s @ NUL # rest) = Some (choices_take rs s) \<and> choices_take rs s \<le> length s"
  by (induction rs) (auto simp: abnf_rule.parse_cstr abnf_rule.consumed_le)

lemma any_of_ne:
  "nul_free s \<Longrightarrow> s \<noteq> [] \<Longrightarrow> \<forall>r \<in> set rs. abnf_rule_ne r \<Longrightarrow>
   any_of rs (s @ NUL # rest) = Some (choices_take rs s) \<and> choices_take rs s \<le> length s"
  by (induction rs) (auto simp: abnf_rule_ne.parse_ne abnf_rule_ne.consumed_ne_le)

lemma refines_any_of:
  "\<forall>r \<in> set rs. abnf_rule r \<Longrightarrow> refines (ABNFBaseRule (any_of rs)) (choices_take rs)"
  by (rule refinesI) (simp_all add: any_of_cstr)

lemma any_of_rule_ne:
  "\<forall>r \<in> set rs. abnf_rule_ne r \<Longrightarrow> abnf_rule_ne (ABNFBaseRule (any_of rs))"
  by unfold_locales (auto simp: any_of_ne)

text \<open>Optional rules.\<close>

lemma refines_Optional:
  assumes "abnf_rule_ne r"
  shows "refines (ABNFLROptional r) (\<lambda>s. if s = [] then 0 else consumed r s)"
proof (rule refinesI)
  fix s rest assume s: "nul_free s"
  show "parse (ABNFLROptional r) (s @ NUL # rest) = Some (if s = [] then 0 else consumed r s)"
    using s abnf_rule_ne.parse_ne [OF assms s, of rest]
    by (cases s) (auto simp: ABNFLROptional_def)
next
  fix s assume "nul_free s"
  then show "(if s = [] then 0 else consumed r s) \<le> length s"
    using assms by (simp add: abnf_rule_ne.consumed_ne_le)
qed

lemma optional_flags [simp]:
  "isOptional (ABNFLROptional r)" "\<not> isNull (ABNFLROptional r)"
  by (simp_all add: ABNFLROptional_def)

text \<open>Sequences: \<^const>\<open>None\<close> when a mandatory rule takes nothing, else the pieces the
  rules take one after the other.\<close>

fun seq_pieces :: "rule list \<Rightarrow> string \<Rightarrow> string list option" where
  "seq_pieces [] s = Some []"
| "seq_pieces (r # rs) s =
     (let n = consumed r s in
      if n = 0 \<and> \<not> isOptional r then None
      else map_option ((#) (take n s)) (seq_pieces rs (drop n s)))"

definition seq_take :: "rule list \<Rightarrow> string \<Rightarrow> nat" where
  "seq_take rs s = (case seq_pieces rs s of None \<Rightarrow> 0 | Some ps \<Rightarrow> length (concat ps))"

lemma seq_pieces_prefix: "seq_pieces rs s = Some ps \<Longrightarrow> concat ps = take (length (concat ps)) s"
proof (induction rs arbitrary: s ps)
  case (Cons r rs)
  then obtain qs where qs: "seq_pieces rs (drop (consumed r s) s) = Some qs"
      and ps: "ps = take (consumed r s) s # qs"
    by (auto simp: Let_def split: if_splits)
  from Cons.IH [OF qs] have IH: "concat qs = take (length (concat qs)) (drop (consumed r s) s)" .
  show ?case
  proof (cases "consumed r s \<le> length s")
    case True
    then have len: "length (concat ps) = consumed r s + length (concat qs)"
      using ps by simp
    have "concat ps = take (consumed r s) s @ concat qs"
      using ps by simp
    also have "\<dots> = take (consumed r s) s @ take (length (concat qs)) (drop (consumed r s) s)"
      using IH by (rule arg_cong)
    finally show ?thesis
      using len by (simp add: take_add)
  next
    case False
    then have "concat qs = []" using IH by simp
    then show ?thesis using ps False by simp
  qed
qed simp

lemma seq_pieces_length: "seq_pieces rs s = Some ps \<Longrightarrow> length (concat ps) \<le> length s"
  by (metis seq_pieces_prefix length_take min.absorb_iff1 min.commute linear)

lemma seq_take_le: "seq_take rs s \<le> length s"
  by (auto simp: seq_take_def seq_pieces_length split: option.split)

lemma lr_sequence_cstr:
  "nul_free s \<Longrightarrow> \<forall>r \<in> set rs. abnf_rule r \<Longrightarrow>
   lr_sequence rs acc (s @ NUL # rest) =
     Some (case seq_pieces rs s of None \<Rightarrow> 0 | Some ps \<Rightarrow> acc + length (concat ps))"
proof (induction rs arbitrary: s acc)
  case (Cons r rs)
  let ?n = "consumed r s"
  have le: "?n \<le> length s" and p: "parse r (s @ NUL # rest) = Some ?n"
    using Cons.prems by (simp_all add: abnf_rule.parse_cstr abnf_rule.consumed_le)
  have "lr_sequence rs (acc + ?n) (drop ?n s @ NUL # rest) =
      Some (case seq_pieces rs (drop ?n s) of None \<Rightarrow> 0 | Some ps \<Rightarrow> acc + ?n + length (concat ps))"
    using Cons.IH [of "drop ?n s"] Cons.prems by simp
  then show ?case
    using p le by (auto simp: Let_def split: option.split)
qed simp

lemma refines_lr_sequence:
  "\<forall>r \<in> set rs. abnf_rule r \<Longrightarrow> refines (ABNFBaseRule (lr_sequence rs 0)) (seq_take rs)"
  by (rule refinesI) (auto simp: lr_sequence_cstr seq_pieces_length seq_take_def split: option.split)

lemma lr_sequence_rule_ne:
  assumes "abnf_rule_ne r" "\<forall>r' \<in> set rs. abnf_rule r'"
  shows "abnf_rule_ne (ABNFBaseRule (lr_sequence (r # rs) 0))"
proof
  fix s :: string assume s: "nul_free s" "s \<noteq> []"
  let ?n = "consumed r s"
  have le: "?n \<le> length s" and p: "\<And>rest. parse r (s @ NUL # rest) = Some ?n"
    using assms(1) s by (simp_all add: abnf_rule_ne.parse_ne abnf_rule_ne.consumed_ne_le)
  have "\<And>rest. lr_sequence (r # rs) 0 (s @ NUL # rest) = Some (seq_take (r # rs) s)"
    using p le s(1) assms(2)
    by (auto simp: lr_sequence_cstr seq_take_def Let_def split: option.split)
  then show "\<exists>n\<le>length s. \<forall>rest.
      parse (ABNFBaseRule (lr_sequence (r # rs) 0)) (s @ NUL # rest) = Some n"
    using seq_take_le by auto
qed

text \<open>The tokens of a sequence that fails are those of the rules before the failing one.\<close>

fun seq_tokens :: "rule list \<Rightarrow> string \<Rightarrow> string list" where
  "seq_tokens [] s = []"
| "seq_tokens (r # rs) s =
     (let n = consumed r s in
      if n = 0 \<and> \<not> isOptional r then [] else take n s # seq_tokens rs (drop n s))"

lemma seq_tokens_pieces: "seq_pieces rs s = Some ps \<Longrightarrow> seq_tokens rs s = ps"
  by (induction rs arbitrary: s ps) (auto simp: Let_def split: if_splits)

lemma seq_tokens_length:
  "seq_pieces rs s \<noteq> None \<longleftrightarrow> length (seq_tokens rs s) = length rs"
  by (induction rs arbitrary: s) (auto simp: Let_def)

lemma lr_tokens_cstr:
  "nul_free s \<Longrightarrow> \<forall>r \<in> set rs. abnf_rule r \<Longrightarrow>
   lr_tokens rs acc (s @ NUL # rest) = Some (seq_tokens rs s,
     case seq_pieces rs s of None \<Rightarrow> 0 | Some ps \<Rightarrow> acc + length (concat ps))"
proof (induction rs arbitrary: s acc)
  case (Cons r rs)
  let ?n = "consumed r s"
  have le: "?n \<le> length s" and p: "parse r (s @ NUL # rest) = Some ?n"
    using Cons.prems by (simp_all add: abnf_rule.parse_cstr abnf_rule.consumed_le)
  have "lr_tokens rs (acc + ?n) (drop ?n s @ NUL # rest) = Some (seq_tokens rs (drop ?n s),
      case seq_pieces rs (drop ?n s) of None \<Rightarrow> 0 | Some ps \<Rightarrow> acc + ?n + length (concat ps))"
    using Cons.IH [of "drop ?n s"] Cons.prems by simp
  then show ?case
    using p le by (auto simp: Let_def split: option.split)
qed simp

text \<open>Repetition: the pieces the greedy loop takes, at most \<open>k\<close> of them.\<close>

fun rep_pieces :: "rule \<Rightarrow> (char \<Rightarrow> bool) \<Rightarrow> nat \<Rightarrow> string \<Rightarrow> string list" where
  "rep_pieces r e 0 s = []"
| "rep_pieces r e (Suc k) s =
     (if s = [] \<or> e (hd s) \<or> consumed r s = 0 then []
      else take (consumed r s) s # rep_pieces r e k (drop (consumed r s) s))"

definition rep_take :: "rule \<Rightarrow> (char \<Rightarrow> bool) \<Rightarrow> nat \<Rightarrow> nat \<Rightarrow> string \<Rightarrow> nat" where
  "rep_take r e minSize maxSize s =
     (let ps = rep_pieces r e maxSize s in
      if length ps < minSize then 0 else length (concat ps))"

lemma rep_pieces_length:
  "abnf_rule_ne r \<Longrightarrow> nul_free s \<Longrightarrow> length (concat (rep_pieces r e k s)) \<le> length s"
proof (induction r e k s rule: rep_pieces.induct)
  case (2 r e k s)
  show ?case
  proof (cases "s = [] \<or> e (hd s) \<or> consumed r s = 0")
    case False
    then have "length (concat (rep_pieces r e k (drop (consumed r s) s))) \<le> length s - consumed r s"
      using "2.IH" "2.prems" by simp
    moreover have "consumed r s \<le> length s"
      using False "2.prems" by (simp add: abnf_rule_ne.consumed_ne_le)
    ultimately show ?thesis
      using False by simp
  qed auto
qed simp

lemma loop_until_cstr:
  assumes "abnf_rule_ne r" "e NUL"
  shows "nul_free s \<Longrightarrow> loop_until r e maxSize i acc (s @ NUL # rest) =
    Some (let ps = rep_pieces r e (maxSize - i) s in (i + length ps, acc + length (concat ps)))"
proof (induction "maxSize - i" arbitrary: i acc s)
  case 0
  then show ?case by (simp add: loop_until.simps [of r e maxSize i])
next
  case (Suc k)
  then have lt: "i < maxSize" and k: "maxSize - i = Suc k" "maxSize - (i + 1) = k" by auto
  show ?case
  proof (cases "s = [] \<or> e (hd s)")
    case True
    then show ?thesis
      using lt k assms(2) by (cases s) (auto simp: loop_until.simps [of r e maxSize i])
  next
    case False
    then obtain c s' where s: "s = c # s'" "\<not> e c" by (cases s) auto
    let ?n = "consumed r s"
    have le: "?n \<le> length s" and p: "parse r (s @ NUL # rest) = Some ?n"
      using abnf_rule_ne.parse_ne [OF assms(1) Suc.prems] abnf_rule_ne.consumed_ne_le [OF assms(1) Suc.prems]
        False by simp_all
    have d: "drop ?n (s @ NUL # rest) = drop ?n s @ NUL # rest"
      by (rule drop_cstr [OF le])
    have "deref (s @ NUL # rest) = Some c"
      using s by simp
    then have step: "loop_until r e maxSize i acc (s @ NUL # rest) =
        (if ?n = 0 then Some (i, acc)
         else loop_until r e maxSize (i + 1) (acc + ?n) (drop ?n s @ NUL # rest))"
      using lt s(2) p d by (subst loop_until.simps) simp
    have "loop_until r e maxSize (i + 1) (acc + ?n) (drop ?n s @ NUL # rest) =
        Some (let ps = rep_pieces r e k (drop ?n s)
              in (i + 1 + length ps, acc + ?n + length (concat ps)))"
      using Suc.hyps(1) [of "i + 1" "drop ?n s"] k Suc.prems by simp
    then show ?thesis
      using step False k le by (simp add: Let_def)
  qed
qed

lemma refines_LoopUntil:
  assumes "abnf_rule_ne r" "e NUL"
  shows "refines (ABNFLoopUntil r e minSize maxSize) (rep_take r e minSize maxSize)"
proof (rule refinesI)
  fix s rest assume s: "nul_free s"
  show "parse (ABNFLoopUntil r e minSize maxSize) (s @ NUL # rest) =
      Some (rep_take r e minSize maxSize s)"
  proof (cases s)
    case Nil
    then have "rep_pieces r e maxSize s = []" by (cases maxSize) auto
    then show ?thesis
      using Nil by (simp add: ABNFLoopUntil_def rep_take_def)
  next
    case (Cons c s')
    then have "c \<noteq> NUL" using s by auto
    then show ?thesis
      using Cons loop_until_cstr [where e = e and i = 0 and acc = 0, OF assms s]
      by (simp add: ABNFLoopUntil_def rep_take_def Let_def)
  qed
next
  fix s assume "nul_free s"
  then show "rep_take r e minSize maxSize s \<le> length s"
    using rep_pieces_length [OF assms(1)] by (simp add: rep_take_def Let_def)
qed

lemma loop_flags [simp]:
  "isOptional (ABNFLoopUntil r e minSize maxSize) \<longleftrightarrow> minSize = 0"
  "\<not> isNull (ABNFLoopUntil r e minSize maxSize)"
  by (simp_all add: ABNFLoopUntil_def)

lemma exit_nul [simp]: "ABNFLoopExitIfNul NUL" "length cs < 10 \<Longrightarrow> ABNFLoopExitChars cs NUL"
  by (auto simp: ABNFLoopExitIfNul_def ABNFLoopExitChars_def)

lemma template_flags [simp]:
  "\<not> isNull (ABNFCharComparison c)" "\<not> isNull (ABNFRange lo hi)" "\<not> isNull (ABNFAnyOfChars cs)"
  "\<not> isNull (ABNFStringLiteral cs)" "\<not> isNull (ABNFStrictStringLiteral cs)" "\<not> isNull (ABNFAnyOf r0 r1)"
  "\<not> isNull (ABNFAnyOfMultiple3 r0 r1 r2)" "\<not> isNull (ABNFAnyOfMultiple5 r0 r1 r2 r3 r4)" "\<not> isNull (ABNFLRSequence2 r0 r1)"
  "\<not> isNull (ABNFLRSequence3 r0 r1 r2)" "\<not> isNull (ABNFLRSequence4 r0 r1 r2 r3)" "\<not> isNull (ABNFLRSequence5 r0 r1 r2 r3 r4)"
  "\<not> isNull (ABNFLRSequence6 r0 r1 r2 r3 r4 r5)" "\<not> isNull ABNFCharAlpha" "\<not> isNull ABNFCharDigit"
  "\<not> isNull ABNFCharHex"
  "\<not> isOptional (ABNFCharComparison c)" "\<not> isOptional (ABNFRange lo hi)" "\<not> isOptional (ABNFAnyOfChars cs)"
  "\<not> isOptional (ABNFStringLiteral cs)" "\<not> isOptional (ABNFStrictStringLiteral cs)" "\<not> isOptional (ABNFAnyOf r0 r1)"
  "\<not> isOptional (ABNFAnyOfMultiple3 r0 r1 r2)" "\<not> isOptional (ABNFAnyOfMultiple5 r0 r1 r2 r3 r4)" "\<not> isOptional (ABNFLRSequence2 r0 r1)"
  "\<not> isOptional (ABNFLRSequence3 r0 r1 r2)" "\<not> isOptional (ABNFLRSequence4 r0 r1 r2 r3)" "\<not> isOptional (ABNFLRSequence5 r0 r1 r2 r3 r4)"
  "\<not> isOptional (ABNFLRSequence6 r0 r1 r2 r3 r4 r5)" "\<not> isOptional ABNFCharAlpha" "\<not> isOptional ABNFCharDigit"
  "\<not> isOptional ABNFCharHex"
  by (simp_all add: char_rule_def ABNFCharComparison_def ABNFRange_def ABNFAnyOfChars_def ABNFStringLiteral_def
      ABNFStrictStringLiteral_def ABNFAnyOf_def ABNFAnyOfMultiple3_def ABNFAnyOfMultiple5_def
      ABNFLRSequence2_def ABNFLRSequence3_def ABNFLRSequence4_def ABNFLRSequence5_def ABNFLRSequence6_def
      ABNFCharAlpha_def ABNFCharDigit_def ABNFCharHex_def)

subsection \<open>The contract for every template\<close>

lemma rule_char [rule_safe]: "\<not> P NUL \<Longrightarrow> abnf_rule (char_rule P)"
  by (rule refines_rule [OF refines_char_rule])

lemma rule_wrap [rule_safe]: "abnf_rule r \<Longrightarrow> abnf_rule (ABNFBaseRule (parse r))"
  by (simp add: abnf_rule_def)

lemma rule_wrap_ne [rule_safe]: "abnf_rule_ne r \<Longrightarrow> abnf_rule_ne (ABNFBaseRule (parse r))"
  by (simp add: abnf_rule_ne_def)

lemma schar_NUL [simp]: "schar NUL = 0"
  by (simp add: schar_def)

lemma rule_characters [rule_safe]:
  "abnf_rule ABNFChar" "abnf_rule ABNFCharPrintable" "abnf_rule ABNFCharAlpha"
  "abnf_rule ABNFCharDigit" "abnf_rule ABNFCharHex"
  by (simp_all add: ABNFChar_def ABNFCharPrintable_def ABNFCharAlpha_def ABNFCharDigit_def
      ABNFCharHex_def rule_char)

lemma rule_CharComparison [rule_safe]: "c \<noteq> NUL \<Longrightarrow> abnf_rule (ABNFCharComparison c)"
  by (simp add: ABNFCharComparison_def rule_char)

lemma rule_Range_ne [rule_safe]: "abnf_rule_ne (ABNFRange lo hi)"
  by (simp add: ABNFRange_def char_rule_ne)

lemma rule_AnyOfChars [rule_safe]: "abnf_rule (ABNFAnyOfChars cs)"
  by (rule refines_rule [OF refines_AnyOfChars])

lemma rule_literals [rule_safe]:
  "cs \<noteq> [] \<Longrightarrow> length cs < 50 \<Longrightarrow> nul_free cs \<Longrightarrow> abnf_rule (ABNFStringLiteral cs)"
  "cs \<noteq> [] \<Longrightarrow> length cs < 50 \<Longrightarrow> nul_free cs \<Longrightarrow> abnf_rule (ABNFStrictStringLiteral cs)"
  by (rule refines_rule [OF refines_StringLiteral] refines_rule [OF refines_StrictStringLiteral];
      assumption)+

lemma rule_AnyOf [rule_safe]:
  "abnf_rule_ne r0 \<Longrightarrow> abnf_rule_ne r1 \<Longrightarrow> abnf_rule (ABNFAnyOf r0 r1)"
  by (rule refines_rule [OF refines_AnyOf])

lemma rule_AnyOfMultiple3 [rule_safe]:
  "abnf_rule r0 \<Longrightarrow> abnf_rule r1 \<Longrightarrow> abnf_rule r2 \<Longrightarrow> abnf_rule (ABNFAnyOfMultiple3 r0 r1 r2)"
  unfolding ABNFAnyOfMultiple3_def by (rule refines_rule [OF refines_any_of]) simp

lemma rule_AnyOfMultiple3_ne [rule_safe]:
  "abnf_rule_ne r0 \<Longrightarrow> abnf_rule_ne r1 \<Longrightarrow> abnf_rule_ne r2 \<Longrightarrow>
   abnf_rule_ne (ABNFAnyOfMultiple3 r0 r1 r2)"
  unfolding ABNFAnyOfMultiple3_def by (rule any_of_rule_ne) simp

lemma rule_AnyOfMultiple5 [rule_safe]:
  "abnf_rule r0 \<Longrightarrow> abnf_rule r1 \<Longrightarrow> abnf_rule r2 \<Longrightarrow> abnf_rule r3 \<Longrightarrow> abnf_rule r4 \<Longrightarrow>
   abnf_rule (ABNFAnyOfMultiple5 r0 r1 r2 r3 r4)"
  unfolding ABNFAnyOfMultiple5_def by (rule refines_rule [OF refines_any_of]) simp

lemma rule_AnyOfMultiple5_ne [rule_safe]:
  "abnf_rule_ne r0 \<Longrightarrow> abnf_rule_ne r1 \<Longrightarrow> abnf_rule_ne r2 \<Longrightarrow> abnf_rule_ne r3 \<Longrightarrow>
   abnf_rule_ne r4 \<Longrightarrow> abnf_rule_ne (ABNFAnyOfMultiple5 r0 r1 r2 r3 r4)"
  unfolding ABNFAnyOfMultiple5_def by (rule any_of_rule_ne) simp

lemma rule_Optional [rule_safe]: "abnf_rule_ne r \<Longrightarrow> abnf_rule (ABNFLROptional r)"
  by (rule refines_rule [OF refines_Optional])

lemma rule_LRSequence [rule_safe]:
  "abnf_rule r0 \<Longrightarrow> abnf_rule r1 \<Longrightarrow> abnf_rule (ABNFLRSequence2 r0 r1)"
  "abnf_rule r0 \<Longrightarrow> abnf_rule r1 \<Longrightarrow> abnf_rule r2 \<Longrightarrow> abnf_rule (ABNFLRSequence3 r0 r1 r2)"
  "abnf_rule r0 \<Longrightarrow> abnf_rule r1 \<Longrightarrow> abnf_rule r2 \<Longrightarrow> abnf_rule r3 \<Longrightarrow>
   abnf_rule (ABNFLRSequence4 r0 r1 r2 r3)"
  "abnf_rule r0 \<Longrightarrow> abnf_rule r1 \<Longrightarrow> abnf_rule r2 \<Longrightarrow> abnf_rule r3 \<Longrightarrow> abnf_rule r4 \<Longrightarrow>
   abnf_rule (ABNFLRSequence5 r0 r1 r2 r3 r4)"
  "abnf_rule r0 \<Longrightarrow> abnf_rule r1 \<Longrightarrow> abnf_rule r2 \<Longrightarrow> abnf_rule r3 \<Longrightarrow> abnf_rule r4 \<Longrightarrow>
   abnf_rule r5 \<Longrightarrow> abnf_rule (ABNFLRSequence6 r0 r1 r2 r3 r4 r5)"
  unfolding ABNFLRSequence2_def ABNFLRSequence3_def ABNFLRSequence4_def ABNFLRSequence5_def
    ABNFLRSequence6_def
  by (rule refines_rule [OF refines_lr_sequence]; simp)+

lemma rule_LRSequence2_ne [rule_safe]:
  "abnf_rule_ne r0 \<Longrightarrow> abnf_rule r1 \<Longrightarrow> abnf_rule_ne (ABNFLRSequence2 r0 r1)"
  unfolding ABNFLRSequence2_def by (rule lr_sequence_rule_ne) simp_all

lemma rule_LoopUntil [rule_safe]:
  "abnf_rule_ne r \<Longrightarrow> e NUL \<Longrightarrow> abnf_rule (ABNFLoopUntil r e minSize maxSize)"
  by (rule refines_rule [OF refines_LoopUntil])

text \<open>A choice whose first rule takes something from every non-empty string never runs its second
  rule.\<close>

lemma rule_AnyOf_first:
  assumes "abnf_rule_ne r0" "\<And>s. nul_free s \<Longrightarrow> s \<noteq> [] \<Longrightarrow> consumed r0 s \<noteq> 0"
  shows "abnf_rule (ABNFAnyOf r0 r1)"
proof (rule refines_rule, rule refinesI)
  fix s rest assume s: "nul_free s"
  show "parse (ABNFAnyOf r0 r1) (s @ NUL # rest) = Some (if s = [] then 0 else consumed r0 s)"
    using s abnf_rule_ne.parse_ne [OF assms(1) s, of rest] assms(2) [OF s]
    by (cases s) (auto simp: ABNFAnyOf_def)
  show "(if s = [] then 0 else consumed r0 s) \<le> length s"
    using s assms(1) by (simp add: abnf_rule_ne.consumed_ne_le)
qed

lemma rep_pieces_nonempty: "ps = rep_pieces r e k s \<Longrightarrow> [] \<notin> set ps"
  by (induction r e k s arbitrary: ps rule: rep_pieces.induct) auto

lemma rep_pieces_prefix:
  "concat (rep_pieces r e k s) = take (length (concat (rep_pieces r e k s))) s"
proof (induction r e k s rule: rep_pieces.induct)
  case (2 r e k s)
  show ?case
  proof (cases "s = [] \<or> e (hd s) \<or> consumed r s = 0")
    case False
    let ?n = "consumed r s" and ?ps = "rep_pieces r e k (drop (consumed r s) s)"
    have IH: "concat ?ps = take (length (concat ?ps)) (drop ?n s)"
      using 2 False by blast
    show ?thesis
    proof (cases "?n \<le> length s")
      case True
      then show ?thesis
        using False IH by (simp add: take_add)
    next
      case False': False
      then have "concat ?ps = []" using IH by simp
      then show ?thesis using False False' by simp
    qed
  qed auto
qed simp

lemma loop_tokens_cstr:
  assumes "abnf_rule_ne r" "e NUL"
  shows "nul_free s \<Longrightarrow> loop_tokens r e maxSize i acc (s @ NUL # rest) =
    Some (let ps = rep_pieces r e (maxSize - i) s in (ps, i + length ps, acc + length (concat ps)))"
proof (induction "maxSize - i" arbitrary: i acc s)
  case 0
  then show ?case by (simp add: loop_tokens.simps [of r e maxSize i])
next
  case (Suc k)
  then have lt: "i < maxSize" and k: "maxSize - i = Suc k" "maxSize - (i + 1) = k" by auto
  show ?case
  proof (cases "s = [] \<or> e (hd s)")
    case True
    then show ?thesis
      using lt k assms(2) by (cases s) (auto simp: loop_tokens.simps [of r e maxSize i])
  next
    case False
    then obtain c s' where s: "s = c # s'" "\<not> e c" by (cases s) auto
    let ?n = "consumed r s"
    have le: "?n \<le> length s" and p: "parse r (s @ NUL # rest) = Some ?n"
      using abnf_rule_ne.parse_ne [OF assms(1) Suc.prems] abnf_rule_ne.consumed_ne_le [OF assms(1) Suc.prems]
        False by simp_all
    have d: "drop ?n (s @ NUL # rest) = drop ?n s @ NUL # rest" "take ?n (s @ NUL # rest) = take ?n s"
      using le by simp_all
    have "deref (s @ NUL # rest) = Some c"
      using s by simp
    then have step: "loop_tokens r e maxSize i acc (s @ NUL # rest) =
        (if ?n = 0 then Some ([], i, acc)
         else do { (ts, j, k) \<leftarrow> loop_tokens r e maxSize (i + 1) (acc + ?n) (drop ?n s @ NUL # rest);
                   Some (take ?n s # ts, j, k) })"
      using lt s(2) p d by (subst loop_tokens.simps) simp
    have "loop_tokens r e maxSize (i + 1) (acc + ?n) (drop ?n s @ NUL # rest) =
        Some (let ps = rep_pieces r e k (drop ?n s)
              in (ps, i + 1 + length ps, acc + ?n + length (concat ps)))"
      using Suc.hyps(1) [of "i + 1" "drop ?n s"] k Suc.prems by simp
    then show ?thesis
      using step False k le by (simp add: Let_def)
  qed
qed

lemma LoopUntil_parseTokens_cstr:
  assumes "abnf_rule_ne r" "e NUL" "nul_free s"
  shows "ABNFLoopUntil_parseTokens r e minSize maxSize (s @ NUL # rest) =
    Some (rep_pieces r e maxSize s, rep_take r e minSize maxSize s)"
  using loop_tokens_cstr [where e = e and i = 0 and acc = 0, OF assms]
  by (simp add: ABNFLoopUntil_parseTokens_def rep_take_def Let_def)

end
