(* ===== verification/ABNF_Search.thy ===== *)
theory ABNF_Search
  imports ABNF_Core
begin

text \<open>
  The searching templates: \<open>findNextIterFromString\<close> and \<open>findLastIterFromString\<close> of
  \<^verbatim>\<open>ABNFParser.cpp\<close>, \<open>findNextIterFromRule\<close> of \<^verbatim>\<open>ABNFBaseRule.h\<close>,
  \<open>ABNFWhileNot\<close>, \<open>ABNFFindMatch\<close> and \<open>ABNFStrictFindMatch\<close>. They return the
  start of the text when nothing is found; as everywhere, the model returns the distance the
  pointer moved.
\<close>

section \<open>Definitions\<close>

subsection \<open>Search for a string\<close>

text \<open>\<open>c == needle[i] || c_ == needle[i]\<close> with \<open>c_ = c <= 90 ? c + 32 : c - 32\<close>.\<close>

definition flip_eq :: "char \<Rightarrow> char \<Rightarrow> bool" where
  "flip_eq c v = (c = v \<or> (if schar c \<le> 90 then schar c + 32 else schar c - 32) = schar v)"

text \<open>\<open>needle[i]\<close> of a \<open>std::string\<close>, where \<open>needle[needle.size()]\<close> is NUL.\<close>

definition str_at :: "string \<Rightarrow> nat \<Rightarrow> char" where
  "str_at s i = (if i < length s then s ! i else NUL)"

text \<open>\<open>k\<close> is \<open>t - startT\<close>; the reset \<open>i = -1\<close> is undone by the \<open>i++\<close> of the
  loop.\<close>

fun find_next :: "string \<Rightarrow> nat \<Rightarrow> nat \<Rightarrow> mem \<Rightarrow> nat option" where
  "find_next needle i k [] = (if i < length needle then None else Some 0)"
| "find_next needle i k (c # m) =
     (if i < length needle then
        (if c = NUL then Some 0
         else if flip_eq c (str_at needle i) then
           (if str_at needle (i + 1) \<noteq> NUL then find_next needle (i + 1) (k + 1) m
            else Some (k + 1))
         else find_next needle 0 (k + 1) m)
      else Some 0)"

definition findNextIterFromString :: "string \<Rightarrow> mem \<Rightarrow> nat option" where
  "findNextIterFromString needle hayStack = find_next needle 0 0 hayStack"

text \<open>The backward search over the positions \<open>p = t - hayStack\<close>; it begins at the
  terminator and gives up at position 0.\<close>

fun find_last :: "string \<Rightarrow> mem \<Rightarrow> nat \<Rightarrow> nat \<Rightarrow> nat" where
  "find_last needle m i 0 = 0"
| "find_last needle m i (Suc p) =
     (if m ! Suc p = str_at needle i then
        (if i \<ge> 1 then find_last needle m (i - 1) p else Suc p + length needle)
      else find_last needle m (length needle - 1) p)"

definition findLastIterFromString :: "string \<Rightarrow> mem \<Rightarrow> nat option" where
  "findLastIterFromString needle hayStack = do {
     s \<leftarrow> str_of hayStack;
     Some (if needle = [] then 0
           else find_last needle hayStack (length needle - 1) (length s))
   }"

subsection \<open>Search for a rule\<close>

text \<open>The outer loop: the distance to the first position where the rule moves, or
  \<^term>\<open>Some None\<close> when the terminator comes first.\<close>

function scan_rule :: "rule \<Rightarrow> nat \<Rightarrow> mem \<Rightarrow> nat option option" where
  "scan_rule r k m = do {
     n \<leftarrow> parse r m;
     if n = 0 then do {
       c \<leftarrow> deref (tl m);
       if c = NUL then Some None else scan_rule r (k + 1) (tl m)
     } else Some (Some k)
   }"
  by pat_completeness auto
termination
proof (relation "measure (\<lambda>(r, k, m). length m)", simp)
  fix r k and m :: mem and n c
  assume "deref (tl m) = Some c"
  then show "((r, k + 1, tl m), r, k, m) \<in> measure (\<lambda>(r, k, m). length m)"
    by (cases m) auto
qed

text \<open>The inner loop: step over the rule as long as it moves. A pointer that leaves the buffer
  is a fault.\<close>

function consume_rule :: "rule \<Rightarrow> nat \<Rightarrow> mem \<Rightarrow> nat option" where
  "consume_rule r k m = do {
     n \<leftarrow> parse r m;
     if n = 0 then Some k
     else if n \<le> length m then consume_rule r (k + n) (drop n m)
     else None
   }"
  by pat_completeness auto
termination
  by (relation "measure (\<lambda>(r, k, m). length m)") auto

declare scan_rule.simps [simp del] consume_rule.simps [simp del]

definition findNextIterFromRule :: "rule \<Rightarrow> mem \<Rightarrow> nat option" where
  "findNextIterFromRule r m = do {
     pos \<leftarrow> scan_rule r 0 m;
     case pos of None \<Rightarrow> Some 0 | Some k \<Rightarrow> consume_rule r k (drop k m)
   }"

definition ABNFWhileNot :: "rule \<Rightarrow> bool \<Rightarrow> rule" where
  "ABNFWhileNot r consumeRule = ABNFBaseRule (\<lambda>m. do {
     c \<leftarrow> deref m;
     if c = NUL then Some 0
     else do {
       pos \<leftarrow> scan_rule r 0 m;
       case pos of
         None \<Rightarrow> Some 0
       | Some k \<Rightarrow> if consumeRule then consume_rule r k (drop k m) else Some k
     }
   })"

subsection \<open>Search for a literal\<close>

text \<open>The loops of \<open>ABNFFindMatch\<close> and \<open>ABNFStrictFindMatch\<close>, given the comparison. A
  mismatch sets \<open>i = 0\<close>, and the \<open>i++\<close> of the loop makes it 1.\<close>

fun find_match :: "(char \<Rightarrow> char \<Rightarrow> bool) \<Rightarrow> char list \<Rightarrow> nat \<Rightarrow> nat \<Rightarrow> mem \<Rightarrow> nat option" where
  "find_match eq v i k [] = (if i < 50 then None else Some 0)"
| "find_match eq v i k (c # m) =
     (if i < 50 then
        (if c = NUL then Some 0
         else if eq c (v ! i) then
           (if i + 1 < 50 \<and> v ! (i + 1) \<noteq> NUL then find_match eq v (i + 1) (k + 1) m
            else Some (k + 1))
         else find_match eq v 1 (k + 1) m)
      else Some 0)"

definition ABNFFindMatch :: "char list \<Rightarrow> rule" where
  "ABNFFindMatch cs = ABNFBaseRule (find_match nocase_eq (value50 cs) 0 0)"

definition ABNFStrictFindMatch :: "char list \<Rightarrow> rule" where
  "ABNFStrictFindMatch cs = ABNFBaseRule (find_match (=) (value50 cs) 0 0)"

section \<open>Searching for a string\<close>

text \<open>The longest reach of the search: it never runs over the terminator of the hay stack.\<close>

lemma find_next_total:
  "nul_free s \<Longrightarrow> \<exists>n. (\<forall>rest. find_next needle i k (s @ NUL # rest) = Some n) \<and> n \<le> k + length s"
proof (induction s arbitrary: i k)
  case (Cons c s)
  have "\<exists>n. (\<forall>rest. find_next needle (Suc i) (Suc k) (s @ NUL # rest) = Some n) \<and>
      n \<le> Suc (k + length s)"
    "\<exists>n. (\<forall>rest. find_next needle 0 (Suc k) (s @ NUL # rest) = Some n) \<and> n \<le> Suc (k + length s)"
    using Cons.IH [of "Suc i" "Suc k"] Cons.IH [of 0 "Suc k"] Cons.prems by simp_all
  moreover have "c \<noteq> NUL"
    using Cons.prems by auto
  ultimately show ?case
    by (cases "i < length needle"; cases "flip_eq c (str_at needle i)";
        cases "str_at needle (i + 1) = NUL") simp_all
qed simp

lemma str_at_NUL: "nul_free s \<Longrightarrow> str_at s i = NUL \<longleftrightarrow> length s \<le> i"
  by (auto simp: str_at_def) (metis nth_mem)

text \<open>What the search has matched when it stops: the invariant of the loop is that the last
  \<open>i\<close> characters match the first \<open>i\<close> of the needle.\<close>

lemma find_next_sound:
  assumes "nul_free needle"
  shows "nul_free s \<Longrightarrow> list_all2 flip_eq done (take i needle) \<Longrightarrow> length pre + length done = k \<Longrightarrow>
    find_next needle i k (s @ NUL # rest) = Some n \<Longrightarrow> n \<noteq> 0 \<Longrightarrow>
    n \<le> k + length s \<and> length needle \<le> n \<and>
    list_all2 flip_eq (take (length needle) (drop (n - length needle) (pre @ done @ s))) needle"
proof (induction s arbitrary: i k pre "done")
  case Nil
  then show ?case by (simp split: if_splits)
next
  case (Cons c s)
  have i: "i < length needle"
    using Cons.prems by (simp split: if_splits)
  have len: "length done = i"
    using Cons.prems(2) i by (auto dest: list_all2_lengthD)
  show ?case
  proof (cases "flip_eq c (str_at needle i)")
    case True
    then have m: "list_all2 flip_eq (done @ [c]) (take (i + 1) needle)"
      using Cons.prems(2) i by (simp add: take_Suc_conv_app_nth list_all2_appendI str_at_def)
    show ?thesis
    proof (cases "str_at needle (i + 1) = NUL")
      case True
      then have "length needle = i + 1"
        using assms i by (auto simp: str_at_NUL)
      moreover have "n = k + 1"
        using Cons.prems True \<open>flip_eq c _\<close> i by (simp split: if_splits)
      ultimately show ?thesis
        using m len Cons.prems(3) by auto
    next
      case False
      then show ?thesis
        using Cons.IH [of "done @ [c]" "i + 1" pre "k + 1"] m Cons.prems True i by auto
    qed
  next
    case False
    then show ?thesis
      using Cons.IH [of "[]" 0 "pre @ done @ [c]" "k + 1"] Cons.prems i by auto
  qed
qed

text \<open>A needle at the start of the text is found.\<close>

lemma find_next_prefix:
  "nul_free needle \<Longrightarrow> i < length needle \<Longrightarrow>
   find_next needle i k (drop i needle @ rest) = Some (k + (length needle - i))"
proof (induction "length needle - i" arbitrary: i k)
  case (Suc n)
  then have d: "drop i needle = needle ! i # drop (i + 1) needle"
    by (simp add: Cons_nth_drop_Suc)
  have "needle ! i \<noteq> NUL"
    using Suc.prems by (metis nth_mem)
  moreover have "flip_eq (needle ! i) (str_at needle i)"
    using Suc.prems by (simp add: flip_eq_def str_at_def)
  moreover have "find_next needle (i + 1) (k + 1) (drop (i + 1) needle @ rest) =
      Some (k + 1 + (length needle - (i + 1)))" if "i + 1 < length needle"
    using Suc.hyps(1) [of "i + 1"] Suc.hyps(2) Suc.prems(1) that by simp
  ultimately show ?case
    using Suc.prems d str_at_NUL [OF Suc.prems(1), of "i + 1"] by auto
qed simp

text \<open>A text in which the needle is not found, followed by a character that matches nothing of the
  needle, is passed over.\<close>

lemma find_next_skip:
  assumes "\<forall>v \<in> set needle. \<not> flip_eq sep v" "sep \<noteq> NUL"
  shows "nul_free pre \<Longrightarrow> i < length needle \<Longrightarrow> find_next needle i k (pre @ [NUL]) = Some 0 \<Longrightarrow>
    find_next needle i k (pre @ sep # m) = find_next needle 0 (k + length pre + 1) m"
proof (induction pre arbitrary: i k)
  case Nil
  then show ?case using assms by (simp add: str_at_def)
next
  case (Cons c pre)
  have c: "c \<noteq> NUL" using Cons.prems by auto
  show ?case
  proof (cases "flip_eq c (str_at needle i)")
    case True
    then have "str_at needle (i + 1) \<noteq> NUL"
      using Cons.prems by (auto split: if_splits)
    moreover from this have "i + 1 < length needle"
      by (simp add: str_at_def split: if_splits)
    ultimately show ?thesis
      using Cons.IH [of "i + 1" "k + 1"] Cons.prems True c by simp
  next
    case False
    then show ?thesis
      using Cons.IH [of 0 "k + 1"] Cons.prems by (cases needle) auto
  qed
qed

lemma findNext_after:
  assumes "nul_free needle" "needle \<noteq> []" "nul_free pre"
    and "\<forall>v \<in> set needle. \<not> flip_eq sep v" "sep \<noteq> NUL"
    and "findNextIterFromString needle (cstr pre) = Some 0"
  shows "findNextIterFromString needle (pre @ sep # needle @ rest) = Some (length pre + 1 + length needle)"
  using find_next_skip [OF assms(4,5,3), of 0 0 "needle @ rest"] find_next_prefix [of needle 0 "length pre + 1" rest]
    assms by (simp add: findNextIterFromString_def cstr_def)

lemma find_next_char:
  "nul_free s \<Longrightarrow> v \<noteq> NUL \<Longrightarrow> find_next [v] 0 k (s @ NUL # rest) =
     Some (if \<exists>c \<in> set s. flip_eq c v then k + length (takeWhile (\<lambda>c. \<not> flip_eq c v) s) + 1 else 0)"
proof (induction s arbitrary: k)
  case (Cons c s)
  then show ?case by (auto simp: str_at_def)
qed (simp add: str_at_def)

lemma schar_literals:
  "schar CHR '' '' = 32" "schar CHR '';'' = 59" "schar CHR ''['' = 91" "schar CHR 0x1B = 27"
  by (simp_all add: schar_def)

lemma flip_eq_space: "c \<noteq> NUL \<Longrightarrow> flip_eq c CHR '' '' \<longleftrightarrow> c = CHR '' ''"
  using schar_eq_iff [of c NUL] by (auto simp: flip_eq_def schar_literals split: if_splits)

section \<open>Searching for a rule\<close>

text \<open>The first position of a string where a rule takes something.\<close>

fun first_match :: "rule \<Rightarrow> string \<Rightarrow> nat option" where
  "first_match r [] = None"
| "first_match r (c # s) =
     (if consumed r (c # s) \<noteq> 0 then Some 0 else map_option Suc (first_match r s))"

lemma first_match_least:
  "first_match r s = Some k \<longleftrightarrow>
     k < length s \<and> consumed r (drop k s) \<noteq> 0 \<and> (\<forall>j < k. consumed r (drop j s) = 0)"
proof (induction s arbitrary: k)
  case (Cons c s)
  then show ?case
    by (cases k) (auto simp: All_less_Suc2)
qed simp

lemma first_match_None: "first_match r s = None \<longleftrightarrow> (\<forall>j < length s. consumed r (drop j s) = 0)"
  by (induction s) (auto simp: All_less_Suc2)

lemma scan_rule_cstr:
  assumes "abnf_rule_ne r"
  shows "nul_free s \<Longrightarrow> s \<noteq> [] \<Longrightarrow>
    scan_rule r k (s @ NUL # rest) = Some (map_option ((+) k) (first_match r s))"
proof (induction s arbitrary: k)
  case (Cons c s)
  have p: "parse r (c # s @ NUL # rest) = Some (consumed r (c # s))"
    using abnf_rule_ne.parse_ne [OF assms Cons.prems] by simp
  show ?case
  proof (cases s)
    case Nil
    then show ?thesis using p by (simp add: scan_rule.simps)
  next
    case (Cons d s')
    have "scan_rule r (k + 1) (s @ NUL # rest) = Some (map_option ((+) (k + 1)) (first_match r s))"
      using Cons.prems Cons by (intro \<open>\<And>k. _ \<Longrightarrow> _ \<Longrightarrow> scan_rule r k (s @ NUL # rest) = _\<close>) auto
    moreover have "d \<noteq> NUL" using Cons Cons.prems by auto
    ultimately show ?thesis
      using p Cons by (subst scan_rule.simps) (auto simp: option.map_comp comp_def)
  qed
qed simp

text \<open>The text a rule takes when it is run until it no longer moves.\<close>

function run_length :: "rule \<Rightarrow> string \<Rightarrow> nat" where
  "run_length r s =
     (if consumed r s = 0 \<or> length s < consumed r s then 0
      else consumed r s + run_length r (drop (consumed r s) s))"
  by pat_completeness auto
termination
  by (relation "measure (\<lambda>(r, s). length s)") auto

declare run_length.simps [simp del]

lemma run_length_stop:
  "abnf_rule r \<Longrightarrow> nul_free s \<Longrightarrow> consumed r s \<le> run_length r s \<and> consumed r (drop (run_length r s) s) = 0"
proof (induction r s rule: run_length.induct)
  case (1 r s)
  let ?n = "consumed r s"
  have le: "?n \<le> length s"
    using 1 abnf_rule.consumed_le by blast
  show ?case
  proof (cases "?n = 0")
    case False
    then have "run_length r s = ?n + run_length r (drop ?n s)"
      using le by (subst run_length.simps) simp
    moreover have "consumed r (drop (run_length r (drop ?n s)) (drop ?n s)) = 0"
      using 1 False le nul_free_drop [of s ?n] by (meson not_less)
    ultimately show ?thesis
      by (simp add: add.commute)
  qed (simp add: run_length.simps [of r s])
qed

lemma run_length_le: "run_length r s \<le> length s"
proof (induction r s rule: run_length.induct)
  case (1 r s)
  then show ?case by (subst run_length.simps) auto
qed

lemma consume_rule_cstr:
  assumes "abnf_rule r"
  shows "nul_free s \<Longrightarrow> consume_rule r k (s @ NUL # rest) = Some (k + run_length r s)"
proof (induction s arbitrary: k rule: length_induct)
  case (1 s)
  let ?n = "consumed r s"
  have le: "?n \<le> length s" and p: "parse r (s @ NUL # rest) = Some ?n"
    using assms 1 by (simp_all add: abnf_rule.parse_cstr abnf_rule.consumed_le)
  show ?case
  proof (cases "?n = 0")
    case True
    then show ?thesis using p by (simp add: consume_rule.simps run_length.simps [of r s])
  next
    case False
    then have "consume_rule r (k + ?n) (drop ?n s @ NUL # rest) =
        Some (k + ?n + run_length r (drop ?n s))"
      using 1 le by auto
    moreover have "drop ?n (s @ NUL # rest) = drop ?n s @ NUL # rest"
      by (rule drop_cstr [OF le])
    ultimately show ?thesis
      using p False le by (subst consume_rule.simps) (simp add: run_length.simps [of r s])
  qed
qed

definition while_not_take :: "rule \<Rightarrow> bool \<Rightarrow> string \<Rightarrow> nat" where
  "while_not_take r consumeRule s =
     (case first_match r s of
        None \<Rightarrow> 0
      | Some k \<Rightarrow> if consumeRule then k + run_length r (drop k s) else k)"

lemma refines_WhileNot:
  assumes "abnf_rule r"
  shows "refines (ABNFWhileNot r consumeRule) (while_not_take r consumeRule)"
proof (rule refinesI)
  fix s rest assume s: "nul_free s"
  show "parse (ABNFWhileNot r consumeRule) (s @ NUL # rest) = Some (while_not_take r consumeRule s)"
  proof (cases s)
    case (Cons c s')
    then have c: "c \<noteq> NUL" using s by auto
    have "scan_rule r 0 (s @ NUL # rest) = Some (map_option ((+) 0) (first_match r s))"
      using Cons s by (intro scan_rule_cstr abnf_rule_imp_ne assms) auto
    then have scan: "scan_rule r 0 (s @ NUL # rest) = Some (first_match r s)"
      by (cases "first_match r s") simp_all
    show ?thesis
    proof (cases "first_match r s")
      case (Some k)
      then have "k \<le> length s" by (simp add: first_match_least)
      then have "consume_rule r k (drop k (s @ NUL # rest)) = Some (k + run_length r (drop k s))"
        using consume_rule_cstr [OF assms nul_free_drop [OF s]] by (simp add: drop_cstr del: drop_append)
      moreover have "deref (s @ NUL # rest) = Some c" using Cons by simp
      ultimately show ?thesis
        using Some scan c by (simp add: ABNFWhileNot_def while_not_take_def)
    qed (use scan c Cons in \<open>simp add: ABNFWhileNot_def while_not_take_def\<close>)
  qed (simp add: ABNFWhileNot_def while_not_take_def)
next
  fix s
  show "while_not_take r consumeRule s \<le> length s"
  proof (cases "first_match r s")
    case (Some k)
    then show ?thesis
      using run_length_le [of r "drop k s"] first_match_least [THEN iffD1, OF Some]
      by (auto simp: while_not_take_def)
  qed (simp add: while_not_take_def)
qed

lemma rule_WhileNot [rule_safe]: "abnf_rule r \<Longrightarrow> abnf_rule (ABNFWhileNot r b)"
  by (rule refines_rule [OF refines_WhileNot])

section \<open>Properties\<close>

lemma flip_eq_semicolon:
  "c \<noteq> NUL \<Longrightarrow> flip_eq c CHR '';'' \<longleftrightarrow> c \<in> {CHR '';'', CHR ''['', CHR 0x1B}"
proof -
  have "(if schar c \<le> 90 then schar c + 32 else schar c - 32) = 59 \<longleftrightarrow> schar c = 27 \<or> schar c = 91"
    by auto
  also have "\<dots> \<longleftrightarrow> c = CHR 0x1B \<or> c = CHR ''[''"
    using schar_eq_iff [of c "CHR 0x1B"] schar_eq_iff [of c "CHR ''[''"]
    by (simp only: schar_literals)
  finally show ?thesis
    by (simp only: flip_eq_def schar_literals) blast
qed

lemma find_next_char_cong:
  assumes "nul_free s" "v \<noteq> NUL" "\<And>c. c \<noteq> NUL \<Longrightarrow> flip_eq c v \<longleftrightarrow> c \<in> C"
  shows "findNextIterFromString [v] (s @ NUL # rest) =
    Some (if set s \<inter> C \<noteq> {} then length (takeWhile (\<lambda>c. c \<notin> C) s) + 1 else 0)"
proof -
  have eq: "flip_eq c v \<longleftrightarrow> c \<in> C" if "c \<in> set s" for c
    by (rule assms(3)) (use that assms(1) in metis)
  have "takeWhile (\<lambda>c. \<not> flip_eq c v) s = takeWhile (\<lambda>c. c \<notin> C) s"
    by (rule takeWhile_cong) (simp_all add: eq)
  moreover have "(\<exists>c \<in> set s. flip_eq c v) \<longleftrightarrow> set s \<inter> C \<noteq> {}"
    by (simp add: eq disjoint_iff Bex_def cong: conj_cong)
  ultimately show ?thesis
    by (simp only: findNextIterFromString_def find_next_char [OF assms(1,2)] add_0)
qed

text \<open>\<open>findNextIterFromString\<close> on a C string reads nothing behind the terminator, and when
  it reports a position, the characters before that position are the needle, up to the
  comparison the loop makes.\<close>

theorem find_next_string_sound:
  assumes "nul_free needle" "nul_free s"
  shows "\<exists>n \<le> length s. (\<forall>rest. findNextIterFromString needle (s @ NUL # rest) = Some n) \<and>
    (n \<noteq> 0 \<longrightarrow> length needle \<le> n \<and>
       list_all2 flip_eq (take (length needle) (drop (n - length needle) s)) needle)"
proof -
  obtain n where n: "\<And>rest. find_next needle 0 0 (s @ NUL # rest) = Some n" "n \<le> length s"
    using find_next_total [OF assms(2), of needle 0 0] by auto
  then show ?thesis
    using find_next_sound [OF assms, of "[]" 0 "[]" 0 "[]" n]
    by (auto simp: findNextIterFromString_def)
qed

theorem find_next_string_sound_witness:
  "\<exists>n \<le> length ''SIP/2.0 200 OK''. (\<forall>rest. findNextIterFromString ''200'' (''SIP/2.0 200 OK'' @ NUL # rest) = Some n) \<and>
    (n \<noteq> 0 \<longrightarrow> length ''200'' \<le> n \<and>
       list_all2 flip_eq (take (length ''200'') (drop (n - length ''200'') ''SIP/2.0 200 OK'')) ''200'')"
  by (rule find_next_string_sound) simp_all

text \<open>The separators the header classes search for. A space is found exactly at the first
  space. A semicolon is found at the first semicolon, opening bracket or escape character,
  because the comparison flips bit 5 of every character and not of letters alone; the bracket
  of an IPv6 reference therefore counts as the start of the parameters.\<close>

theorem find_next_separator:
  assumes "nul_free s"
  shows "findNextIterFromString '' '' (s @ NUL # rest) =
      Some (if CHR '' '' \<in> set s then length (takeWhile (\<lambda>c. c \<noteq> CHR '' '') s) + 1 else 0) \<and>
    findNextIterFromString '';'' (s @ NUL # rest) =
      Some (if set s \<inter> {CHR '';'', CHR ''['', CHR 0x1B} \<noteq> {}
            then length (takeWhile (\<lambda>c. c \<notin> {CHR '';'', CHR ''['', CHR 0x1B}) s) + 1 else 0)"
proof (rule conjI)
  show "findNextIterFromString '' '' (s @ NUL # rest) =
      Some (if CHR '' '' \<in> set s then length (takeWhile (\<lambda>c. c \<noteq> CHR '' '') s) + 1 else 0)"
    using find_next_char_cong [OF assms, of "CHR '' ''" "{CHR '' ''}" rest]
    by (simp add: flip_eq_space)
qed (rule find_next_char_cong [OF assms _ flip_eq_semicolon]; simp)

theorem find_next_separator_witness:
  "findNextIterFromString '';'' (''UDP [::1]:5060;branch=z'' @ NUL # []) = Some 5"
  using find_next_separator [of "''UDP [::1]:5060;branch=z''" "[]"] by simp

text \<open>The search restarts behind the character that broke a partial match, so it can miss
  an occurrence that overlaps it.\<close>

theorem find_next_misses_overlap:
  "\<exists>needle pre post. nul_free (pre @ needle @ post) \<and> needle \<noteq> [] \<and>
     findNextIterFromString needle ((pre @ needle @ post) @ [NUL]) = Some 0"
  by (rule exI [of _ "''aab''"], rule exI [of _ "''a''"], rule exI [of _ "[]"])
    (simp add: findNextIterFromString_def str_at_def flip_eq_def schar_def)

text \<open>C31: \<open>ABNFWhileNot\<close> stops at the first position where its rule matches, does not move
  when there is none, and with \<open>consumeRule\<close> also steps over the matches that follow; it
  terminates on every C string without reading behind the terminator.\<close>

theorem while_not_first_match:
  assumes "abnf_rule r" "nul_free s"
  shows "\<exists>n \<le> length s. parse (ABNFWhileNot r False) (s @ NUL # rest) = Some n \<and>
    (\<forall>j < n. consumed r (drop j s) = 0) \<and>
    (consumed r (drop n s) = 0 \<longrightarrow> n = 0 \<and> (\<forall>j < length s. consumed r (drop j s) = 0)) \<and>
    (\<exists>k. parse (ABNFWhileNot r True) (s @ NUL # rest) = Some k \<and> n \<le> k \<and> k \<le> length s \<and>
       (consumed r (drop n s) \<noteq> 0 \<longrightarrow> n + consumed r (drop n s) \<le> k \<and> consumed r (drop k s) = 0))"
proof -
  have safe: "while_not_take r b s \<le> length s"
    "parse (ABNFWhileNot r b) (s @ NUL # rest) = Some (while_not_take r b s)" for b
    using refines_WhileNot [OF assms(1), of b] assms(2) by (auto simp: refines_def)
  show ?thesis
  proof (cases "first_match r s")
    case None
    then have "consumed r s = 0"
      using first_match_None [of r s] abnf_rule.consumed_Nil [OF assms(1)] by (cases s) auto
    then show ?thesis
      using None safe [of False] safe [of True] first_match_None [THEN iffD1, OF None]
      by (intro exI [of _ 0]) (auto simp: while_not_take_def)
  next
    case (Some k)
    then show ?thesis
      using safe [of False] safe [of True] first_match_least [THEN iffD1, OF Some]
        run_length_stop [OF assms(1), of "drop k s"] assms(2)
      by (intro exI [of _ k]) (auto simp: while_not_take_def nul_free_drop add.commute)
  qed
qed

theorem while_not_first_match_witness:
  "\<exists>n \<le> length ''a;b''. parse (ABNFWhileNot (ABNFCharComparison CHR '';'') False) (''a;b'' @ NUL # []) = Some n \<and>
    (\<forall>j < n. consumed (ABNFCharComparison CHR '';'') (drop j ''a;b'') = 0) \<and>
    (consumed (ABNFCharComparison CHR '';'') (drop n ''a;b'') = 0 \<longrightarrow>
       n = 0 \<and> (\<forall>j < length ''a;b''. consumed (ABNFCharComparison CHR '';'') (drop j ''a;b'') = 0)) \<and>
    (\<exists>k. parse (ABNFWhileNot (ABNFCharComparison CHR '';'') True) (''a;b'' @ NUL # []) = Some k \<and>
       n \<le> k \<and> k \<le> length ''a;b'' \<and> (consumed (ABNFCharComparison CHR '';'') (drop n ''a;b'') \<noteq> 0 \<longrightarrow>
         n + consumed (ABNFCharComparison CHR '';'') (drop n ''a;b'') \<le> k \<and>
         consumed (ABNFCharComparison CHR '';'') (drop k ''a;b'') = 0))"
  by (rule while_not_first_match) (simp_all add: rule_CharComparison)

end
