(* ===== verification/ABNF_SIP.thy ===== *)
theory ABNF_SIP
  imports ABNF_Core
begin

text \<open>
  The SIP grammar built from the rule classes: the character rules of
  \<^verbatim>\<open>ABNFParser.h\<close>, the rules of \<^verbatim>\<open>ABNFSIPRules.h\<close> and one definition per class of
  \<^verbatim>\<open>src/abnf/ABNFSIP*.cpp\<close>, named after the class. A class hides its parser behind its own
  \<open>parse\<close>, so its \<open>isOptional()\<close> is false even when the parser inside is an optional
  repetition; \<^const>\<open>ABNFBaseRule\<close> says that.
\<close>

section \<open>Character rules\<close>

definition ABNFCharHTab :: rule where
  "ABNFCharHTab = ABNFCharComparison (CHR 0x09)"

definition ABNFCharCR :: rule where
  "ABNFCharCR = ABNFCharComparison (CHR 0x0D)"

definition ABNFCharLF :: rule where
  "ABNFCharLF = ABNFCharComparison (CHR 0x0A)"

definition ABNFCharCRLF :: rule where
  "ABNFCharCRLF = ABNFLRSequence2 ABNFCharCR ABNFCharLF"

definition ABNFCharSpace :: rule where
  "ABNFCharSpace = ABNFCharComparison (CHR 0x20)"

definition ABNFCharDQuote :: rule where
  "ABNFCharDQuote = ABNFCharComparison (CHR 0x22)"

definition ABNFCharBit :: rule where
  "ABNFCharBit = ABNFAnyOf (ABNFCharComparison (CHR 0x30)) (ABNFCharComparison (CHR 0x31))"

definition ABNFCharNewLine :: rule where
  "ABNFCharNewLine = ABNFAnyOf ABNFCharCR ABNFCharLF"

definition ABNFCharWhiteSpace :: rule where
  "ABNFCharWhiteSpace = ABNFAnyOf ABNFCharSpace ABNFCharHTab"

definition ABNFCharWhiteSpaceOrNewLine :: rule where
  "ABNFCharWhiteSpaceOrNewLine = ABNFAnyOf ABNFCharNewLine ABNFCharWhiteSpace"

definition ABNFZeroOrMoreWhiteSpaces :: rule where
  "ABNFZeroOrMoreWhiteSpaces = ABNFLoopUntil ABNFCharWhiteSpace ABNFLoopExitIfNul 0 256"

definition ABNFOneOrMoreWhiteSpaces :: rule where
  "ABNFOneOrMoreWhiteSpaces = ABNFLoopUntil ABNFCharWhiteSpace ABNFLoopExitIfNul 1 256"

definition ABNFZeroOrMoreWhiteSpacesEndedByCRLF :: rule where
  "ABNFZeroOrMoreWhiteSpacesEndedByCRLF = ABNFLRSequence2 ABNFZeroOrMoreWhiteSpaces ABNFCharCRLF"

definition ABNFCharAlphaNumeric :: rule where
  "ABNFCharAlphaNumeric = ABNFAnyOf ABNFCharAlpha ABNFCharDigit"

definition ABNFCharLCaseA2F :: rule where
  "ABNFCharLCaseA2F = ABNFRange 0x61 0x66"

definition ABNFCharLCaseHex :: rule where
  "ABNFCharLCaseHex = ABNFAnyOf ABNFCharDigit ABNFCharLCaseA2F"

section \<open>The common rules of RFC 3261\<close>

definition ABNF_SIP_LWS :: rule where
  "ABNF_SIP_LWS =
     ABNFLRSequence2 (ABNFLROptional ABNFZeroOrMoreWhiteSpacesEndedByCRLF) ABNFOneOrMoreWhiteSpaces"

definition ABNF_SIP_SWS :: rule where
  "ABNF_SIP_SWS = ABNFLROptional ABNF_SIP_LWS"

definition ABNF_SIP_HCOLON :: rule where
  "ABNF_SIP_HCOLON =
     ABNFLRSequence3 ABNFZeroOrMoreWhiteSpaces (ABNFCharComparison CHR '':'') ABNF_SIP_SWS"

text \<open>The rules \<open>SWS "x" SWS\<close>: STAR, SLASH, EQUAL, LPAREN, RPAREN, COMMA, SEMI, COLON.\<close>

definition sws_char_sws :: "char \<Rightarrow> rule" where
  "sws_char_sws c = ABNFLRSequence3 ABNF_SIP_SWS (ABNFCharComparison c) ABNF_SIP_SWS"

definition ABNF_SIP_STAR :: rule where
  "ABNF_SIP_STAR = sws_char_sws CHR ''*''"

definition ABNF_SIP_SLASH :: rule where
  "ABNF_SIP_SLASH = sws_char_sws CHR ''/''"

definition ABNF_SIP_EQUAL :: rule where
  "ABNF_SIP_EQUAL = sws_char_sws CHR ''=''"

definition ABNF_SIP_LPAREN :: rule where
  "ABNF_SIP_LPAREN = sws_char_sws CHR ''(''"

definition ABNF_SIP_RPAREN :: rule where
  "ABNF_SIP_RPAREN = sws_char_sws CHR '')''"

definition ABNF_SIP_LAQUOT :: rule where
  "ABNF_SIP_LAQUOT = ABNFLRSequence2 ABNF_SIP_SWS (ABNFCharComparison CHR ''<'')"

definition ABNF_SIP_RAQUOT :: rule where
  "ABNF_SIP_RAQUOT = ABNFLRSequence2 (ABNFCharComparison CHR ''>'') ABNF_SIP_SWS"

definition ABNF_SIP_COMMA :: rule where
  "ABNF_SIP_COMMA = sws_char_sws CHR '',''"

definition ABNF_SIP_SEMI :: rule where
  "ABNF_SIP_SEMI = sws_char_sws CHR '';''"

definition ABNF_SIP_COLON :: rule where
  "ABNF_SIP_COLON = sws_char_sws CHR '':''"

definition ABNF_SIP_LDQUOT :: rule where
  "ABNF_SIP_LDQUOT = ABNFLRSequence2 ABNF_SIP_SWS ABNFCharDQuote"

definition ABNF_SIP_RDQUOT :: rule where
  "ABNF_SIP_RDQUOT = ABNFLRSequence2 ABNFCharDQuote ABNF_SIP_SWS"

definition ABNF_SIP_UTF8_CONT :: rule where
  "ABNF_SIP_UTF8_CONT = ABNFRange 0x80 0xBF"

definition ABNF_SIP_escaped :: rule where
  "ABNF_SIP_escaped = ABNFLRSequence2 (ABNFCharComparison CHR ''%'') ABNFCharHex"

definition ABNF_SIP_reserved :: rule where
  "ABNF_SIP_reserved = ABNFAnyOfChars '';/?:@&=+$,''"

definition ABNF_SIP_mark :: rule where
  "ABNF_SIP_mark = ABNFAnyOfChars [CHR ''-'', CHR ''_'', CHR ''.'', CHR ''!'', CHR ''~'',
     CHR ''*'', CHR 0x27, CHR ''/'']"

definition ABNF_SIP_header_mark :: rule where
  "ABNF_SIP_header_mark = ABNFAnyOfChars [CHR '';'', CHR ''='', CHR ''-'', CHR ''_'', CHR ''.'',
     CHR ''!'', CHR ''~'', CHR ''*'', CHR 0x27, CHR ''/'']"

definition ABNF_SIP_unreserved :: rule where
  "ABNF_SIP_unreserved = ABNFAnyOf ABNFCharAlphaNumeric ABNF_SIP_mark"

definition ABNF_SIP_header_unreserved :: rule where
  "ABNF_SIP_header_unreserved = ABNFAnyOf ABNFCharAlphaNumeric ABNF_SIP_header_mark"

definition ABNF_SIP_user_unreserved :: rule where
  "ABNF_SIP_user_unreserved = ABNFAnyOfChars ''&=+$,;?/''"

definition ABNF_SIP_param_unreserved :: rule where
  "ABNF_SIP_param_unreserved = ABNFAnyOfChars ''[]/:&+$''"

definition ABNF_SIP_paramchar :: rule where
  "ABNF_SIP_paramchar =
     ABNFAnyOfMultiple3 ABNF_SIP_param_unreserved ABNF_SIP_unreserved ABNF_SIP_escaped"

definition ABNF_SIP_pname :: rule where
  "ABNF_SIP_pname = ABNFLoopUntil ABNF_SIP_paramchar ABNFLoopExitIfNul 1 1024"

definition ABNF_SIP_pvalue :: rule where
  "ABNF_SIP_pvalue = ABNF_SIP_pname"

definition ABNF_SIP_hnv_unreserved :: rule where
  "ABNF_SIP_hnv_unreserved = ABNFAnyOfChars ''[]/?:+$''"

definition ABNF_SIP_hparamchar :: rule where
  "ABNF_SIP_hparamchar =
     ABNFAnyOfMultiple3 ABNF_SIP_hnv_unreserved ABNF_SIP_header_unreserved ABNF_SIP_escaped"

definition ABNF_SIP_hnparamchar :: rule where
  "ABNF_SIP_hnparamchar =
     ABNFAnyOfMultiple3 ABNF_SIP_hnv_unreserved ABNF_SIP_unreserved ABNF_SIP_escaped"

definition ABNF_SIP_hname :: rule where
  "ABNF_SIP_hname = ABNFLoopUntil ABNF_SIP_hnparamchar ABNFLoopExitIfNul 1 1024"

definition ABNF_SIP_hvalue :: rule where
  "ABNF_SIP_hvalue = ABNFLoopUntil ABNF_SIP_hparamchar ABNFLoopExitIfNul 0 1024"

definition ABNF_SIP_uric :: rule where
  "ABNF_SIP_uric = ABNFAnyOfMultiple3 ABNF_SIP_reserved ABNF_SIP_unreserved ABNF_SIP_escaped"

definition ABNF_SIP_query :: rule where
  "ABNF_SIP_query = ABNFLoopUntil ABNF_SIP_uric ABNFLoopExitIfNul 0 1024"

definition ABNF_SIP_uric_no_slash :: rule where
  "ABNF_SIP_uric_no_slash =
     ABNFAnyOfMultiple3 ABNF_SIP_unreserved ABNF_SIP_escaped (ABNFAnyOfChars '';?:@&=+$,'')"

definition ABNF_SIP_pchar :: rule where
  "ABNF_SIP_pchar =
     ABNFAnyOfMultiple3 ABNF_SIP_unreserved ABNF_SIP_escaped (ABNFAnyOfChars '':@&=+$,'')"

definition ABNF_SIP_param :: rule where
  "ABNF_SIP_param = ABNFLoopUntil ABNF_SIP_pchar ABNFLoopExitIfNul 0 1024"

section \<open>The grammar classes\<close>

subsection \<open>Tokens and text\<close>

definition ABNFSIPToken :: rule where
  "ABNFSIPToken = ABNFBaseRule (parse (ABNFLoopUntil
     (ABNFAnyOf ABNFCharAlphaNumeric
       (ABNFAnyOfChars [CHR ''-'', CHR ''.'', CHR ''!'', CHR ''%'', CHR ''*'', CHR ''_'', CHR ''+'',
          CHR 0x60, CHR 0x27, CHR ''~'']))
     ABNFLoopExitIfNul 1 1024))"

definition ABNFSIPMethod :: rule where
  "ABNFSIPMethod = ABNFBaseRule (parse ABNFSIPToken)"

definition ABNFSIPMethodParam :: rule where
  "ABNFSIPMethodParam =
     ABNFBaseRule (parse (ABNFLRSequence2 (ABNFStringLiteral ''method='') ABNFSIPMethod))"

definition ABNFSIPUtf8NonAscii :: rule where
  "ABNFSIPUtf8NonAscii = ABNFBaseRule (parse (ABNFAnyOfMultiple5
     (ABNFLRSequence2 (ABNFRange 0xC0 0xDF) (ABNFLoopUntil ABNF_SIP_UTF8_CONT ABNFLoopExitIfNul 1 1))
     (ABNFLRSequence2 (ABNFRange 0xE0 0xEF) (ABNFLoopUntil ABNF_SIP_UTF8_CONT ABNFLoopExitIfNul 2 2))
     (ABNFLRSequence2 (ABNFRange 0xF0 0xF7) (ABNFLoopUntil ABNF_SIP_UTF8_CONT ABNFLoopExitIfNul 3 3))
     (ABNFLRSequence2 (ABNFRange 0xF8 0xFB) (ABNFLoopUntil ABNF_SIP_UTF8_CONT ABNFLoopExitIfNul 4 4))
     (ABNFLRSequence2 (ABNFRange 0xFC 0xFD) (ABNFLoopUntil ABNF_SIP_UTF8_CONT ABNFLoopExitIfNul 5 5))))"

definition ABNFSIPTextUtf8Char :: rule where
  "ABNFSIPTextUtf8Char =
     ABNFBaseRule (parse (ABNFAnyOf (ABNFRange 0x21 0x7E) ABNFSIPUtf8NonAscii))"

definition ABNFSIPTextUtf8Trim :: rule where
  "ABNFSIPTextUtf8Trim = ABNFBaseRule (parse (ABNFLRSequence2
     (ABNFLoopUntil ABNFSIPTextUtf8Char ABNFLoopExitIfNul 1 1024)
     (ABNFLoopUntil
       (ABNFLRSequence2 (ABNFLoopUntil ABNF_SIP_LWS ABNFLoopExitIfNul 0 1024) ABNFSIPTextUtf8Char)
       ABNFLoopExitIfNul 0 1024)))"

definition ABNFSIPQdText :: rule where
  "ABNFSIPQdText = ABNFBaseRule (parse (ABNFAnyOfMultiple5 ABNF_SIP_LWS
     (ABNFCharComparison (CHR 0x21)) (ABNFRange 0x23 0x5B) (ABNFRange 0x5D 0x7E)
     ABNFSIPUtf8NonAscii))"

definition ABNFSIPQuotedPair :: rule where
  "ABNFSIPQuotedPair = ABNFBaseRule (parse (ABNFLRSequence2 (ABNFCharComparison (CHR 0x5C))
     (ABNFAnyOfMultiple3 (ABNFRange 0x00 0x09) (ABNFRange 0x0B 0x0C) (ABNFRange 0x0E 0x7F))))"

definition ABNFSIPQuotedString :: rule where
  "ABNFSIPQuotedString = ABNFBaseRule (parse (ABNFLRSequence4 ABNF_SIP_SWS ABNFCharDQuote
     (ABNFLoopUntil (ABNFAnyOf ABNFSIPQdText ABNFSIPQuotedPair) (ABNFLoopExitChars [CHR 0x22]) 0 1024)
     ABNFCharDQuote))"

definition ABNFSIPDisplayName :: rule where
  "ABNFSIPDisplayName = ABNFBaseRule (parse (ABNFAnyOf ABNFSIPQuotedString
     (ABNFLoopUntil (ABNFLRSequence2 ABNFSIPToken (ABNFLROptional ABNF_SIP_LWS))
        ABNFLoopExitIfNul 0 1024)))"

subsection \<open>Hosts\<close>

definition ABNFSIPDomainLabel :: rule where
  "ABNFSIPDomainLabel = ABNFBaseRule (parse (ABNFLoopUntil
     (ABNFAnyOfMultiple3 ABNFCharAlphaNumeric (ABNFCharComparison CHR ''-'') (ABNFCharComparison CHR ''_''))
     ABNFLoopExitIfNul 0 1024))"

definition ABNFSIPTopLabel :: rule where
  "ABNFSIPTopLabel = ABNFBaseRule (parse (ABNFAnyOf
     (ABNFLRSequence2 ABNFCharAlpha
       (ABNFLoopUntil (ABNFAnyOf ABNFCharAlphaNumeric (ABNFCharComparison CHR ''-''))
          ABNFLoopExitIfNul 0 1024))
     ABNFCharAlpha))"

definition ABNFSIPHostName :: rule where
  "ABNFSIPHostName = ABNFBaseRule (parse (ABNFLRSequence2
     (ABNFLoopUntil (ABNFLRSequence2 ABNFSIPDomainLabel (ABNFCharComparison CHR ''.''))
        ABNFLoopExitIfNul 0 1024)
     (ABNFLRSequence2 ABNFSIPTopLabel (ABNFLROptional (ABNFCharComparison CHR ''.'')))))"

definition ABNFSIPIPV4Address :: rule where
  "ABNFSIPIPV4Address =
     (let d = ABNFLoopUntil ABNFCharDigit ABNFLoopExitIfNul 1 3;
          q = ABNFLRSequence2 (ABNFCharComparison CHR ''.'') d
      in ABNFBaseRule (parse (ABNFLRSequence4 d q q q)))"

definition ABNFSIPHex4 :: rule where
  "ABNFSIPHex4 = ABNFBaseRule (parse (ABNFLoopUntil ABNFCharHex ABNFLoopExitIfNul 1 4))"

definition ABNFSIPHexSeq :: rule where
  "ABNFSIPHexSeq = ABNFBaseRule (parse (ABNFLRSequence2 ABNFSIPHex4
     (ABNFLoopUntil (ABNFLRSequence2 (ABNFCharComparison CHR '':'') ABNFSIPHex4)
        ABNFLoopExitIfNul 0 1024)))"

definition ABNFSIPHexPart :: rule where
  "ABNFSIPHexPart =
     (let cc = ABNFStrictStringLiteral ''::''; oh = ABNFLROptional ABNFSIPHexSeq
      in ABNFBaseRule (parse (ABNFAnyOfMultiple3 (ABNFLRSequence2 cc oh)
           (ABNFLRSequence3 ABNFSIPHexSeq cc oh) ABNFSIPHexSeq)))"

definition ABNFSIPIPV6Address :: rule where
  "ABNFSIPIPV6Address =
     (let d = ABNFLoopUntil ABNFCharDigit ABNFLoopExitIfNul 1 3;
          q = ABNFLRSequence2 (ABNFCharComparison CHR ''.'') d
      in ABNFBaseRule (parse (ABNFLRSequence2 ABNFSIPHexPart
           (ABNFLROptional (ABNFLRSequence3 q q q)))))"

definition ABNF_SIP_IPv6reference :: rule where
  "ABNF_SIP_IPv6reference = ABNFLRSequence3 (ABNFCharComparison CHR ''['') ABNFSIPIPV6Address
     (ABNFCharComparison CHR '']'')"

definition ABNFSIPHost :: rule where
  "ABNFSIPHost = ABNFBaseRule (parse (ABNFAnyOfMultiple3 ABNFSIPHostName ABNFSIPIPV4Address
     ABNF_SIP_IPv6reference))"

definition ABNFSIPPort :: rule where
  "ABNFSIPPort = ABNFBaseRule (parse (ABNFLoopUntil ABNFCharDigit ABNFLoopExitIfNul 1 10))"

definition hostport_port :: rule where
  "hostport_port = ABNFLROptional (ABNFLRSequence2 (ABNFCharComparison CHR '':'') ABNFSIPPort)"

definition ABNFSIPHostPort :: rule where
  "ABNFSIPHostPort = ABNFBaseRule (parse (ABNFLRSequence2 ABNFSIPHost hostport_port))"

definition ABNFSIPHostPort_parseTokens :: "mem \<Rightarrow> (string list \<times> nat) option" where
  "ABNFSIPHostPort_parseTokens = ABNFLRSequence2_parseTokens ABNFSIPHost hostport_port"

subsection \<open>User information\<close>

definition ABNFSIPUser :: rule where
  "ABNFSIPUser = ABNFBaseRule (parse (ABNFLoopUntil
     (ABNFAnyOfMultiple3 ABNF_SIP_unreserved ABNF_SIP_escaped ABNF_SIP_user_unreserved)
     (ABNFLoopExitChars ''@:'') 1 1024))"

definition ABNFSIPPassword :: rule where
  "ABNFSIPPassword = ABNFBaseRule (parse (ABNFLoopUntil
     (ABNFAnyOfMultiple3 ABNF_SIP_unreserved ABNF_SIP_escaped (ABNFAnyOfChars ''&=+$,''))
     (ABNFLoopExitChars ''@'') 0 1024))"

definition userinfo_password :: rule where
  "userinfo_password =
     ABNFLROptional (ABNFLRSequence2 (ABNFCharComparison CHR '':'') ABNFSIPPassword)"

definition ABNFSIPUserInfo :: rule where
  "ABNFSIPUserInfo = ABNFBaseRule (parse (ABNFLRSequence3 ABNFSIPUser userinfo_password
     (ABNFCharComparison CHR ''@'')))"

definition ABNFSIPUserInfo_parseTokens :: "mem \<Rightarrow> (string list \<times> nat) option" where
  "ABNFSIPUserInfo_parseTokens = ABNFLRSequence3_parseTokens ABNFSIPUser userinfo_password
     (ABNFCharComparison CHR ''@'')"

subsection \<open>SIP URIs\<close>

definition ABNFSIPScheme :: rule where
  "ABNFSIPScheme = ABNFBaseRule (parse (ABNFLRSequence2 ABNFCharAlpha
     (ABNFLoopUntil (ABNFAnyOfMultiple3 ABNFCharAlpha ABNFCharDigit (ABNFAnyOfChars ''+-.''))
        ABNFLoopExitIfNul 0 1024)))"

definition ABNFSIPTransportParam :: rule where
  "ABNFSIPTransportParam = ABNFBaseRule (parse (ABNFAnyOfMultiple5 (ABNFStringLiteral ''udp'')
     (ABNFStringLiteral ''tcp'') (ABNFStringLiteral ''sctp'') (ABNFStringLiteral ''tls'')
     ABNFSIPToken))"

definition ABNFSIPUserParam :: rule where
  "ABNFSIPUserParam = ABNFBaseRule (parse (ABNFLRSequence2 (ABNFStringLiteral ''user='')
     (ABNFAnyOfMultiple3 (ABNFStringLiteral ''phone'') (ABNFStringLiteral ''ip'') ABNFSIPToken)))"

definition ABNFSIPURIParameter :: rule where
  "ABNFSIPURIParameter = ABNFBaseRule (parse (ABNFLRSequence2 ABNF_SIP_pname
     (ABNFLROptional (ABNFLRSequence2 (ABNFCharComparison CHR ''='') ABNF_SIP_pvalue))))"

definition uri_parameter_item :: rule where
  "uri_parameter_item = ABNFLRSequence2 (ABNFCharComparison CHR '';'') ABNFSIPURIParameter"

definition ABNFSIPURIParameters :: rule where
  "ABNFSIPURIParameters =
     ABNFBaseRule (parse (ABNFLoopUntil uri_parameter_item ABNFLoopExitIfNul 0 1024))"

definition ABNFSIPURIParameters_parseTokens :: "mem \<Rightarrow> (string list \<times> nat) option" where
  "ABNFSIPURIParameters_parseTokens =
     ABNFLoopUntil_parseTokens uri_parameter_item ABNFLoopExitIfNul 0 1024"

definition ABNFSIPURIHeader :: rule where
  "ABNFSIPURIHeader = ABNFBaseRule (parse (ABNFLRSequence3 ABNF_SIP_hname
     (ABNFCharComparison CHR ''='') ABNF_SIP_hvalue))"

definition uri_header_rest :: rule where
  "uri_header_rest = ABNFLoopUntil
     (ABNFLRSequence2 (ABNFCharComparison CHR ''&'') ABNFSIPURIHeader) ABNFLoopExitIfNul 0 1024"

definition ABNFSIPURIHeaders :: rule where
  "ABNFSIPURIHeaders = ABNFBaseRule (parse (ABNFLRSequence3 (ABNFCharComparison CHR ''?'')
     ABNFSIPURIHeader uri_header_rest))"

definition ABNFSIPURIHeaders_parseTokens :: "mem \<Rightarrow> (string list \<times> nat) option" where
  "ABNFSIPURIHeaders_parseTokens = ABNFLRSequence3_parseTokens (ABNFCharComparison CHR ''?'')
     ABNFSIPURIHeader uri_header_rest"

definition uri_scheme_colon :: rule where
  "uri_scheme_colon = ABNFLRSequence2 ABNFSIPScheme (ABNFCharComparison CHR '':'')"

definition ABNFSIPURI :: rule where
  "ABNFSIPURI = ABNFBaseRule (parse (ABNFLRSequence5 uri_scheme_colon
     (ABNFLROptional ABNFSIPUserInfo) ABNFSIPHostPort (ABNFLROptional ABNFSIPURIParameters)
     (ABNFLROptional ABNFSIPURIHeaders)))"

definition ABNFSIPURI_parseTokens :: "mem \<Rightarrow> (string list \<times> nat) option" where
  "ABNFSIPURI_parseTokens = ABNFLRSequence5_parseTokens uri_scheme_colon
     (ABNFLROptional ABNFSIPUserInfo) ABNFSIPHostPort (ABNFLROptional ABNFSIPURIParameters)
     (ABNFLROptional ABNFSIPURIHeaders)"

subsection \<open>Absolute URIs\<close>

definition ABNFSIPSegment :: rule where
  "ABNFSIPSegment = ABNFBaseRule (parse (ABNFLRSequence2 ABNF_SIP_param
     (ABNFLoopUntil (ABNFLRSequence2 (ABNFCharComparison CHR '';'') ABNF_SIP_param)
        ABNFLoopExitIfNul 0 1024)))"

definition ABNFSIPPathSegments :: rule where
  "ABNFSIPPathSegments = ABNFBaseRule (parse (ABNFLRSequence2 ABNFSIPSegment
     (ABNFLoopUntil (ABNFLRSequence2 (ABNFCharComparison CHR ''/'') ABNFSIPSegment)
        ABNFLoopExitIfNul 0 1024)))"

definition ABNF_SIP_abs_path :: rule where
  "ABNF_SIP_abs_path = ABNFLRSequence2 (ABNFCharComparison CHR ''/'') ABNFSIPPathSegments"

definition ABNFSIPSrvr :: rule where
  "ABNFSIPSrvr = ABNFBaseRule (parse (ABNFLRSequence2
     (ABNFLROptional (ABNFLRSequence2 ABNFSIPUserInfo (ABNFCharComparison CHR ''@'')))
     ABNFSIPHostPort))"

definition ABNFSIPRegName :: rule where
  "ABNFSIPRegName = ABNFBaseRule (parse (ABNFLoopUntil
     (ABNFAnyOfMultiple3 ABNF_SIP_unreserved ABNF_SIP_escaped (ABNFAnyOfChars ''$,;:@&=+''))
     ABNFLoopExitIfNul 1 1024))"

definition ABNFSIPAuthority :: rule where
  "ABNFSIPAuthority = ABNFBaseRule (parse (ABNFAnyOf ABNFSIPSrvr ABNFSIPRegName))"

definition ABNFSIPNetPath :: rule where
  "ABNFSIPNetPath = ABNFBaseRule (parse (ABNFLRSequence3 (ABNFStrictStringLiteral ''//'')
     ABNFSIPAuthority (ABNFLROptional ABNF_SIP_abs_path)))"

definition hier_part_path :: rule where
  "hier_part_path = ABNFAnyOf ABNFSIPNetPath ABNF_SIP_abs_path"

definition hier_part_query :: rule where
  "hier_part_query = ABNFLROptional (ABNFLRSequence2 (ABNFCharComparison CHR ''?'') ABNF_SIP_query)"

definition ABNFSIPHierPart :: rule where
  "ABNFSIPHierPart = ABNFBaseRule (parse (ABNFLRSequence2 hier_part_path hier_part_query))"

definition ABNFSIPHierPart_parseTokens :: "mem \<Rightarrow> (string list \<times> nat) option" where
  "ABNFSIPHierPart_parseTokens = ABNFLRSequence2_parseTokens hier_part_path hier_part_query"

definition ABNFSIPOpaquePart :: rule where
  "ABNFSIPOpaquePart = ABNFBaseRule (parse (ABNFLRSequence2 ABNF_SIP_uric_no_slash
     (ABNFLoopUntil ABNF_SIP_uric ABNFLoopExitIfNul 0 1024)))"

definition ABNFSIPAbsoluteURI :: rule where
  "ABNFSIPAbsoluteURI = ABNFBaseRule (parse (ABNFLRSequence2 uri_scheme_colon
     (ABNFAnyOf ABNFSIPHierPart ABNFSIPOpaquePart)))"

definition ABNFSIPAbsoluteURI_parseTokens :: "mem \<Rightarrow> (string list \<times> nat) option" where
  "ABNFSIPAbsoluteURI_parseTokens = ABNFLRSequence2_parseTokens uri_scheme_colon
     (ABNFAnyOf ABNFSIPHierPart ABNFSIPOpaquePart)"

definition ABNFSIPRequestURI :: rule where
  "ABNFSIPRequestURI = ABNFBaseRule (parse (ABNFAnyOf ABNFSIPURI ABNFSIPAbsoluteURI))"

subsection \<open>Header values\<close>

definition ABNF_SIP_addr_spec :: rule where
  "ABNF_SIP_addr_spec = ABNFAnyOf ABNFSIPURI ABNFSIPAbsoluteURI"

definition ABNFSIPNameAddr :: rule where
  "ABNFSIPNameAddr = ABNFBaseRule (parse (ABNFLRSequence4 (ABNFLROptional ABNFSIPDisplayName)
     ABNF_SIP_LAQUOT ABNF_SIP_addr_spec ABNF_SIP_RAQUOT))"

definition ABNFSIPNameAddr_parseTokens :: "mem \<Rightarrow> (string list \<times> nat) option" where
  "ABNFSIPNameAddr_parseTokens = ABNFLRSequence4_parseTokens (ABNFLROptional ABNFSIPDisplayName)
     ABNF_SIP_LAQUOT ABNF_SIP_addr_spec ABNF_SIP_RAQUOT"

definition ABNF_SIP_gen_value :: rule where
  "ABNF_SIP_gen_value = ABNFAnyOf ABNFSIPQuotedString ABNFSIPToken"

definition generic_param_value :: rule where
  "generic_param_value = ABNFLRSequence2 ABNF_SIP_EQUAL ABNF_SIP_gen_value"

definition ABNFSIPGenericParam :: rule where
  "ABNFSIPGenericParam = ABNFBaseRule (parse (ABNFLRSequence2 ABNFSIPToken generic_param_value))"

definition ABNFSIPGenericParam_parseTokens :: "mem \<Rightarrow> (string list \<times> nat) option" where
  "ABNFSIPGenericParam_parseTokens = ABNFLRSequence2_parseTokens ABNFSIPToken generic_param_value"

definition generic_params_item :: rule where
  "generic_params_item = ABNFLRSequence2 ABNF_SIP_SEMI ABNFSIPGenericParam"

definition ABNFSIPGenericParams :: rule where
  "ABNFSIPGenericParams =
     ABNFBaseRule (parse (ABNFLoopUntil generic_params_item ABNFLoopExitIfNul 0 2048))"

definition ABNFSIPGenericParams_parseTokens :: "mem \<Rightarrow> (string list \<times> nat) option" where
  "ABNFSIPGenericParams_parseTokens =
     ABNFLoopUntil_parseTokens generic_params_item ABNFLoopExitIfNul 0 2048"

definition name_or_addr :: rule where
  "name_or_addr = ABNFAnyOf ABNFSIPNameAddr ABNF_SIP_addr_spec"

definition ABNFSIPContactParam :: rule where
  "ABNFSIPContactParam =
     ABNFBaseRule (parse (ABNFLRSequence2 name_or_addr (ABNFLROptional ABNFSIPGenericParams)))"

definition ABNFSIPContactParam_parseTokens :: "mem \<Rightarrow> (string list \<times> nat) option" where
  "ABNFSIPContactParam_parseTokens =
     ABNFLRSequence2_parseTokens name_or_addr (ABNFLROptional ABNFSIPGenericParams)"

definition ABNFSIPFromSpec :: rule where
  "ABNFSIPFromSpec =
     ABNFBaseRule (parse (ABNFLRSequence2 name_or_addr (ABNFLROptional ABNFSIPGenericParams)))"

definition ABNFSIPFromSpec_parseTokens :: "mem \<Rightarrow> (string list \<times> nat) option" where
  "ABNFSIPFromSpec_parseTokens =
     ABNFLRSequence2_parseTokens name_or_addr (ABNFLROptional ABNFSIPGenericParams)"

definition cseq_name :: rule where
  "cseq_name = ABNFLROptional (ABNFLRSequence2 (ABNFStringLiteral ''CSeq'') ABNF_SIP_HCOLON)"

definition cseq_number :: rule where
  "cseq_number = ABNFLoopUntil ABNFCharDigit ABNFLoopExitIfNul 1 1024"

definition ABNFSIPCSeq :: rule where
  "ABNFSIPCSeq =
     ABNFBaseRule (parse (ABNFLRSequence4 cseq_name cseq_number ABNF_SIP_LWS ABNFSIPMethod))"

definition ABNFSIPCSeq_parseTokens :: "mem \<Rightarrow> (string list \<times> nat) option" where
  "ABNFSIPCSeq_parseTokens =
     ABNFLRSequence4_parseTokens cseq_name cseq_number ABNF_SIP_LWS ABNFSIPMethod"

subsection \<open>Start lines\<close>

definition ABNFSIPVersion :: rule where
  "ABNFSIPVersion =
     (let d = ABNFLoopUntil ABNFCharDigit ABNFLoopExitIfNul 1 20
      in ABNFBaseRule (parse (ABNFLRSequence4 (ABNFStringLiteral ''SIP/'') d
           (ABNFCharComparison CHR ''.'') d)))"

definition ABNFSIPRequestLine :: rule where
  "ABNFSIPRequestLine = ABNFBaseRule (parse (ABNFLRSequence6 ABNFSIPMethod ABNFCharSpace
     ABNFSIPRequestURI ABNFCharSpace ABNFSIPVersion (ABNFLROptional ABNFCharCRLF)))"

definition ABNFSIPRequestLine_parseTokens :: "mem \<Rightarrow> (string list \<times> nat) option" where
  "ABNFSIPRequestLine_parseTokens = ABNFLRSequence6_parseTokens ABNFSIPMethod ABNFCharSpace
     ABNFSIPRequestURI ABNFCharSpace ABNFSIPVersion (ABNFLROptional ABNFCharCRLF)"

definition ABNFSIPStatusCode :: rule where
  "ABNFSIPStatusCode = ABNFBaseRule (parse (ABNFLoopUntil ABNFCharDigit ABNFLoopExitIfNul 3 3))"

definition ABNFSIPReasonPhrase :: rule where
  "ABNFSIPReasonPhrase = ABNFBaseRule (parse (ABNFLoopUntil
     (ABNFAnyOf
       (ABNFAnyOfMultiple5 ABNF_SIP_reserved ABNF_SIP_unreserved ABNF_SIP_escaped
          ABNFSIPUtf8NonAscii ABNF_SIP_UTF8_CONT)
       (ABNFAnyOf ABNFCharSpace ABNFCharHTab))
     (ABNFLoopExitChars [CHR 0x0D, CHR 0x0A]) 0 1024))"

definition ABNFSIPStatusLine :: rule where
  "ABNFSIPStatusLine = ABNFBaseRule (parse (ABNFLRSequence6 ABNFSIPVersion ABNFCharSpace
     ABNFSIPStatusCode ABNFCharSpace ABNFSIPReasonPhrase (ABNFLROptional ABNFCharCRLF)))"

definition ABNFSIPStatusLine_parseTokens :: "mem \<Rightarrow> (string list \<times> nat) option" where
  "ABNFSIPStatusLine_parseTokens = ABNFLRSequence6_parseTokens ABNFSIPVersion ABNFCharSpace
     ABNFSIPStatusCode ABNFCharSpace ABNFSIPReasonPhrase (ABNFLROptional ABNFCharCRLF)"

definition snpp_text :: rule where
  "snpp_text = ABNFLoopUntil ABNFSIPTextUtf8Char (ABNFLoopExitChars [CHR 0x0D]) 0 4096"

definition ABNFSNPPRequestLine :: rule where
  "ABNFSNPPRequestLine = ABNFBaseRule (parse (ABNFLRSequence4 ABNFSIPMethod ABNFCharSpace
     snpp_text (ABNFLROptional ABNFCharCRLF)))"

definition ABNFSNPPRequestLine_parseTokens :: "mem \<Rightarrow> (string list \<times> nat) option" where
  "ABNFSNPPRequestLine_parseTokens = ABNFLRSequence4_parseTokens ABNFSIPMethod ABNFCharSpace
     snpp_text (ABNFLROptional ABNFCharCRLF)"

section \<open>Every class keeps the contract\<close>

text \<open>Memory safety and determinism of the grammar, class by class, bottom up. The rules built
  from \<^const>\<open>ABNFRange\<close> keep only the weaker contract.\<close>

lemma safe_ranges [rule_safe]:
  "abnf_rule_ne ABNFCharLCaseA2F" "abnf_rule_ne ABNF_SIP_UTF8_CONT"
  unfolding ABNFCharLCaseA2F_def ABNF_SIP_UTF8_CONT_def by (rule rule_Range_ne)+

lemma safe_ABNFCharHTab [rule_safe]: "abnf_rule ABNFCharHTab"
  unfolding ABNFCharHTab_def by (rule rule_safe | rule abnf_rule_imp_ne | simp)+

lemma safe_ABNFCharCR [rule_safe]: "abnf_rule ABNFCharCR"
  unfolding ABNFCharCR_def by (rule rule_safe | rule abnf_rule_imp_ne | simp)+

lemma safe_ABNFCharLF [rule_safe]: "abnf_rule ABNFCharLF"
  unfolding ABNFCharLF_def by (rule rule_safe | rule abnf_rule_imp_ne | simp)+

lemma safe_ABNFCharCRLF [rule_safe]: "abnf_rule ABNFCharCRLF"
  unfolding ABNFCharCRLF_def by (rule rule_safe | rule abnf_rule_imp_ne | simp)+

lemma safe_ABNFCharSpace [rule_safe]: "abnf_rule ABNFCharSpace"
  unfolding ABNFCharSpace_def by (rule rule_safe | rule abnf_rule_imp_ne | simp)+

lemma safe_ABNFCharDQuote [rule_safe]: "abnf_rule ABNFCharDQuote"
  unfolding ABNFCharDQuote_def by (rule rule_safe | rule abnf_rule_imp_ne | simp)+

lemma safe_ABNFCharBit [rule_safe]: "abnf_rule ABNFCharBit"
  unfolding ABNFCharBit_def by (rule rule_safe | rule abnf_rule_imp_ne | simp)+

lemma safe_ABNFCharNewLine [rule_safe]: "abnf_rule ABNFCharNewLine"
  unfolding ABNFCharNewLine_def by (rule rule_safe | rule abnf_rule_imp_ne | simp)+

lemma safe_ABNFCharWhiteSpace [rule_safe]: "abnf_rule ABNFCharWhiteSpace"
  unfolding ABNFCharWhiteSpace_def by (rule rule_safe | rule abnf_rule_imp_ne | simp)+

lemma safe_ABNFCharWhiteSpaceOrNewLine [rule_safe]: "abnf_rule ABNFCharWhiteSpaceOrNewLine"
  unfolding ABNFCharWhiteSpaceOrNewLine_def by (rule rule_safe | rule abnf_rule_imp_ne | simp)+

lemma safe_ABNFZeroOrMoreWhiteSpaces [rule_safe]: "abnf_rule ABNFZeroOrMoreWhiteSpaces"
  unfolding ABNFZeroOrMoreWhiteSpaces_def by (rule rule_safe | rule abnf_rule_imp_ne | simp)+

lemma safe_ABNFOneOrMoreWhiteSpaces [rule_safe]: "abnf_rule ABNFOneOrMoreWhiteSpaces"
  unfolding ABNFOneOrMoreWhiteSpaces_def by (rule rule_safe | rule abnf_rule_imp_ne | simp)+

lemma safe_ABNFZeroOrMoreWhiteSpacesEndedByCRLF [rule_safe]: "abnf_rule ABNFZeroOrMoreWhiteSpacesEndedByCRLF"
  unfolding ABNFZeroOrMoreWhiteSpacesEndedByCRLF_def by (rule rule_safe | rule abnf_rule_imp_ne | simp)+

lemma safe_ABNFCharAlphaNumeric [rule_safe]: "abnf_rule ABNFCharAlphaNumeric"
  unfolding ABNFCharAlphaNumeric_def by (rule rule_safe | rule abnf_rule_imp_ne | simp)+

lemma safe_ABNFCharLCaseHex [rule_safe]: "abnf_rule ABNFCharLCaseHex"
  unfolding ABNFCharLCaseHex_def by (rule rule_safe | rule abnf_rule_imp_ne | simp)+

lemma safe_ABNF_SIP_LWS [rule_safe]: "abnf_rule ABNF_SIP_LWS"
  unfolding ABNF_SIP_LWS_def by (rule rule_safe | rule abnf_rule_imp_ne | simp)+

lemma safe_ABNF_SIP_SWS [rule_safe]: "abnf_rule ABNF_SIP_SWS"
  unfolding ABNF_SIP_SWS_def by (rule rule_safe | rule abnf_rule_imp_ne | simp)+

lemma safe_ABNF_SIP_HCOLON [rule_safe]: "abnf_rule ABNF_SIP_HCOLON"
  unfolding ABNF_SIP_HCOLON_def by (rule rule_safe | rule abnf_rule_imp_ne | simp)+

lemma safe_sws_char_sws [rule_safe]: "c \<noteq> NUL \<Longrightarrow> abnf_rule (sws_char_sws c)"
  unfolding sws_char_sws_def by (rule rule_safe | rule abnf_rule_imp_ne | simp)+

lemma safe_ABNF_SIP_STAR [rule_safe]: "abnf_rule ABNF_SIP_STAR"
  unfolding ABNF_SIP_STAR_def by (rule rule_safe | rule abnf_rule_imp_ne | simp)+

lemma safe_ABNF_SIP_SLASH [rule_safe]: "abnf_rule ABNF_SIP_SLASH"
  unfolding ABNF_SIP_SLASH_def by (rule rule_safe | rule abnf_rule_imp_ne | simp)+

lemma safe_ABNF_SIP_EQUAL [rule_safe]: "abnf_rule ABNF_SIP_EQUAL"
  unfolding ABNF_SIP_EQUAL_def by (rule rule_safe | rule abnf_rule_imp_ne | simp)+

lemma safe_ABNF_SIP_LPAREN [rule_safe]: "abnf_rule ABNF_SIP_LPAREN"
  unfolding ABNF_SIP_LPAREN_def by (rule rule_safe | rule abnf_rule_imp_ne | simp)+

lemma safe_ABNF_SIP_RPAREN [rule_safe]: "abnf_rule ABNF_SIP_RPAREN"
  unfolding ABNF_SIP_RPAREN_def by (rule rule_safe | rule abnf_rule_imp_ne | simp)+

lemma safe_ABNF_SIP_LAQUOT [rule_safe]: "abnf_rule ABNF_SIP_LAQUOT"
  unfolding ABNF_SIP_LAQUOT_def by (rule rule_safe | rule abnf_rule_imp_ne | simp)+

lemma safe_ABNF_SIP_RAQUOT [rule_safe]: "abnf_rule ABNF_SIP_RAQUOT"
  unfolding ABNF_SIP_RAQUOT_def by (rule rule_safe | rule abnf_rule_imp_ne | simp)+

lemma safe_ABNF_SIP_COMMA [rule_safe]: "abnf_rule ABNF_SIP_COMMA"
  unfolding ABNF_SIP_COMMA_def by (rule rule_safe | rule abnf_rule_imp_ne | simp)+

lemma safe_ABNF_SIP_SEMI [rule_safe]: "abnf_rule ABNF_SIP_SEMI"
  unfolding ABNF_SIP_SEMI_def by (rule rule_safe | rule abnf_rule_imp_ne | simp)+

lemma safe_ABNF_SIP_COLON [rule_safe]: "abnf_rule ABNF_SIP_COLON"
  unfolding ABNF_SIP_COLON_def by (rule rule_safe | rule abnf_rule_imp_ne | simp)+

lemma safe_ABNF_SIP_LDQUOT [rule_safe]: "abnf_rule ABNF_SIP_LDQUOT"
  unfolding ABNF_SIP_LDQUOT_def by (rule rule_safe | rule abnf_rule_imp_ne | simp)+

lemma safe_ABNF_SIP_RDQUOT [rule_safe]: "abnf_rule ABNF_SIP_RDQUOT"
  unfolding ABNF_SIP_RDQUOT_def by (rule rule_safe | rule abnf_rule_imp_ne | simp)+

lemma safe_ABNF_SIP_escaped [rule_safe]: "abnf_rule ABNF_SIP_escaped"
  unfolding ABNF_SIP_escaped_def by (rule rule_safe | rule abnf_rule_imp_ne | simp)+

lemma safe_ABNF_SIP_reserved [rule_safe]: "abnf_rule ABNF_SIP_reserved"
  unfolding ABNF_SIP_reserved_def by (rule rule_safe | rule abnf_rule_imp_ne | simp)+

lemma safe_ABNF_SIP_mark [rule_safe]: "abnf_rule ABNF_SIP_mark"
  unfolding ABNF_SIP_mark_def by (rule rule_safe | rule abnf_rule_imp_ne | simp)+

lemma safe_ABNF_SIP_header_mark [rule_safe]: "abnf_rule ABNF_SIP_header_mark"
  unfolding ABNF_SIP_header_mark_def by (rule rule_safe | rule abnf_rule_imp_ne | simp)+

lemma safe_ABNF_SIP_unreserved [rule_safe]: "abnf_rule ABNF_SIP_unreserved"
  unfolding ABNF_SIP_unreserved_def by (rule rule_safe | rule abnf_rule_imp_ne | simp)+

lemma safe_ABNF_SIP_header_unreserved [rule_safe]: "abnf_rule ABNF_SIP_header_unreserved"
  unfolding ABNF_SIP_header_unreserved_def by (rule rule_safe | rule abnf_rule_imp_ne | simp)+

lemma safe_ABNF_SIP_user_unreserved [rule_safe]: "abnf_rule ABNF_SIP_user_unreserved"
  unfolding ABNF_SIP_user_unreserved_def by (rule rule_safe | rule abnf_rule_imp_ne | simp)+

lemma safe_ABNF_SIP_param_unreserved [rule_safe]: "abnf_rule ABNF_SIP_param_unreserved"
  unfolding ABNF_SIP_param_unreserved_def by (rule rule_safe | rule abnf_rule_imp_ne | simp)+

lemma safe_ABNF_SIP_paramchar [rule_safe]: "abnf_rule ABNF_SIP_paramchar"
  unfolding ABNF_SIP_paramchar_def by (rule rule_safe | rule abnf_rule_imp_ne | simp)+

lemma safe_ABNF_SIP_pname [rule_safe]: "abnf_rule ABNF_SIP_pname"
  unfolding ABNF_SIP_pname_def by (rule rule_safe | rule abnf_rule_imp_ne | simp)+

lemma safe_ABNF_SIP_pvalue [rule_safe]: "abnf_rule ABNF_SIP_pvalue"
  unfolding ABNF_SIP_pvalue_def by (rule rule_safe | rule abnf_rule_imp_ne | simp)+

lemma safe_ABNF_SIP_hnv_unreserved [rule_safe]: "abnf_rule ABNF_SIP_hnv_unreserved"
  unfolding ABNF_SIP_hnv_unreserved_def by (rule rule_safe | rule abnf_rule_imp_ne | simp)+

lemma safe_ABNF_SIP_hparamchar [rule_safe]: "abnf_rule ABNF_SIP_hparamchar"
  unfolding ABNF_SIP_hparamchar_def by (rule rule_safe | rule abnf_rule_imp_ne | simp)+

lemma safe_ABNF_SIP_hnparamchar [rule_safe]: "abnf_rule ABNF_SIP_hnparamchar"
  unfolding ABNF_SIP_hnparamchar_def by (rule rule_safe | rule abnf_rule_imp_ne | simp)+

lemma safe_ABNF_SIP_hname [rule_safe]: "abnf_rule ABNF_SIP_hname"
  unfolding ABNF_SIP_hname_def by (rule rule_safe | rule abnf_rule_imp_ne | simp)+

lemma safe_ABNF_SIP_hvalue [rule_safe]: "abnf_rule ABNF_SIP_hvalue"
  unfolding ABNF_SIP_hvalue_def by (rule rule_safe | rule abnf_rule_imp_ne | simp)+

lemma safe_ABNF_SIP_uric [rule_safe]: "abnf_rule ABNF_SIP_uric"
  unfolding ABNF_SIP_uric_def by (rule rule_safe | rule abnf_rule_imp_ne | simp)+

lemma safe_ABNF_SIP_query [rule_safe]: "abnf_rule ABNF_SIP_query"
  unfolding ABNF_SIP_query_def by (rule rule_safe | rule abnf_rule_imp_ne | simp)+

lemma safe_ABNF_SIP_uric_no_slash [rule_safe]: "abnf_rule ABNF_SIP_uric_no_slash"
  unfolding ABNF_SIP_uric_no_slash_def by (rule rule_safe | rule abnf_rule_imp_ne | simp)+

lemma safe_ABNF_SIP_pchar [rule_safe]: "abnf_rule ABNF_SIP_pchar"
  unfolding ABNF_SIP_pchar_def by (rule rule_safe | rule abnf_rule_imp_ne | simp)+

lemma safe_ABNF_SIP_param [rule_safe]: "abnf_rule ABNF_SIP_param"
  unfolding ABNF_SIP_param_def by (rule rule_safe | rule abnf_rule_imp_ne | simp)+

lemma safe_ABNFSIPToken [rule_safe]: "abnf_rule ABNFSIPToken"
  unfolding ABNFSIPToken_def by (rule rule_safe | rule abnf_rule_imp_ne | simp)+

lemma safe_ABNFSIPMethod [rule_safe]: "abnf_rule ABNFSIPMethod"
  unfolding ABNFSIPMethod_def by (rule rule_safe | rule abnf_rule_imp_ne | simp)+

lemma safe_ABNFSIPMethodParam [rule_safe]: "abnf_rule ABNFSIPMethodParam"
  unfolding ABNFSIPMethodParam_def by (rule rule_safe | rule abnf_rule_imp_ne | simp)+

lemma safe_ABNFSIPUtf8NonAscii [rule_safe]: "abnf_rule_ne ABNFSIPUtf8NonAscii"
  unfolding ABNFSIPUtf8NonAscii_def by (rule rule_safe | rule abnf_rule_imp_ne | simp)+

lemma safe_ABNFSIPTextUtf8Char [rule_safe]: "abnf_rule ABNFSIPTextUtf8Char"
  unfolding ABNFSIPTextUtf8Char_def by (rule rule_safe | rule abnf_rule_imp_ne | simp)+

lemma safe_ABNFSIPTextUtf8Trim [rule_safe]: "abnf_rule ABNFSIPTextUtf8Trim"
  unfolding ABNFSIPTextUtf8Trim_def by (rule rule_safe | rule abnf_rule_imp_ne | simp)+

lemma safe_ABNFSIPQdText [rule_safe]: "abnf_rule_ne ABNFSIPQdText"
  unfolding ABNFSIPQdText_def by (rule rule_safe | rule abnf_rule_imp_ne | simp)+

lemma consumed_Range: "s \<noteq> [] \<Longrightarrow> consumed (ABNFRange 0x23 0x5B) s = 1"
  by (cases s) (auto simp: consumed_def cstr_def ABNFRange_def char_rule_def)

text \<open>The range test holds of every character, so \<open>qdtext\<close> takes something from every
  non-empty string.\<close>

lemma QdText_takes:
  assumes "nul_free s" "s \<noteq> []"
  shows "consumed ABNFSIPQdText s \<noteq> 0"
proof -
  let ?rs = "[ABNF_SIP_LWS, ABNFCharComparison CHR 0x21, ABNFRange 0x23 0x5B,
    ABNFRange 0x5D 0x7E, ABNFSIPUtf8NonAscii]"
  have "\<forall>r \<in> set ?rs. abnf_rule_ne r"
    by (auto intro: rule_safe abnf_rule_imp_ne)
  from any_of_ne [OF assms this, of "[]"] have "consumed ABNFSIPQdText s = choices_take ?rs s"
    by (simp add: consumed_def cstr_def ABNFSIPQdText_def ABNFAnyOfMultiple5_def)
  moreover have "choices_take ?rs s \<noteq> 0"
    using assms by (simp add: consumed_Range ABNF_SIP_LWS_def)
  ultimately show ?thesis by simp
qed

lemma safe_ABNFSIPQuotedString [rule_safe]: "abnf_rule ABNFSIPQuotedString"
  unfolding ABNFSIPQuotedString_def
  by (auto intro!: rule_wrap rule_LRSequence rule_LoopUntil abnf_rule_imp_ne [OF rule_AnyOf_first]
      QdText_takes [unfolded neq0_conv] intro: rule_safe)

lemma safe_ABNFSIPDisplayName [rule_safe]: "abnf_rule ABNFSIPDisplayName"
  unfolding ABNFSIPDisplayName_def by (rule rule_safe | rule abnf_rule_imp_ne | simp)+

lemma safe_ABNFSIPDomainLabel [rule_safe]: "abnf_rule ABNFSIPDomainLabel"
  unfolding ABNFSIPDomainLabel_def by (rule rule_safe | rule abnf_rule_imp_ne | simp)+

lemma safe_ABNFSIPTopLabel [rule_safe]: "abnf_rule ABNFSIPTopLabel"
  unfolding ABNFSIPTopLabel_def by (rule rule_safe | rule abnf_rule_imp_ne | simp)+

lemma safe_ABNFSIPHostName [rule_safe]: "abnf_rule ABNFSIPHostName"
  unfolding ABNFSIPHostName_def by (rule rule_safe | rule abnf_rule_imp_ne | simp)+

lemma safe_ABNFSIPIPV4Address [rule_safe]: "abnf_rule ABNFSIPIPV4Address"
  unfolding ABNFSIPIPV4Address_def Let_def by (rule rule_safe | rule abnf_rule_imp_ne | simp)+

lemma safe_ABNFSIPHex4 [rule_safe]: "abnf_rule ABNFSIPHex4"
  unfolding ABNFSIPHex4_def by (rule rule_safe | rule abnf_rule_imp_ne | simp)+

lemma safe_ABNFSIPHexSeq [rule_safe]: "abnf_rule ABNFSIPHexSeq"
  unfolding ABNFSIPHexSeq_def by (rule rule_safe | rule abnf_rule_imp_ne | simp)+

lemma safe_ABNFSIPHexPart [rule_safe]: "abnf_rule ABNFSIPHexPart"
  unfolding ABNFSIPHexPart_def Let_def by (rule rule_safe | rule abnf_rule_imp_ne | simp)+

lemma safe_ABNFSIPIPV6Address [rule_safe]: "abnf_rule ABNFSIPIPV6Address"
  unfolding ABNFSIPIPV6Address_def Let_def by (rule rule_safe | rule abnf_rule_imp_ne | simp)+

lemma safe_ABNF_SIP_IPv6reference [rule_safe]: "abnf_rule ABNF_SIP_IPv6reference"
  unfolding ABNF_SIP_IPv6reference_def by (rule rule_safe | rule abnf_rule_imp_ne | simp)+

lemma safe_ABNFSIPHost [rule_safe]: "abnf_rule ABNFSIPHost"
  unfolding ABNFSIPHost_def by (rule rule_safe | rule abnf_rule_imp_ne | simp)+

lemma safe_ABNFSIPPort [rule_safe]: "abnf_rule ABNFSIPPort"
  unfolding ABNFSIPPort_def by (rule rule_safe | rule abnf_rule_imp_ne | simp)+

lemma safe_hostport_port [rule_safe]: "abnf_rule hostport_port"
  unfolding hostport_port_def by (rule rule_safe | rule abnf_rule_imp_ne | simp)+

lemma safe_ABNFSIPHostPort [rule_safe]: "abnf_rule ABNFSIPHostPort"
  unfolding ABNFSIPHostPort_def by (rule rule_safe | rule abnf_rule_imp_ne | simp)+

lemma safe_ABNFSIPUser [rule_safe]: "abnf_rule ABNFSIPUser"
  unfolding ABNFSIPUser_def by (rule rule_safe | rule abnf_rule_imp_ne | simp)+

lemma safe_ABNFSIPPassword [rule_safe]: "abnf_rule ABNFSIPPassword"
  unfolding ABNFSIPPassword_def by (rule rule_safe | rule abnf_rule_imp_ne | simp)+

lemma safe_userinfo_password [rule_safe]: "abnf_rule userinfo_password"
  unfolding userinfo_password_def by (rule rule_safe | rule abnf_rule_imp_ne | simp)+

lemma safe_ABNFSIPUserInfo [rule_safe]: "abnf_rule ABNFSIPUserInfo"
  unfolding ABNFSIPUserInfo_def by (rule rule_safe | rule abnf_rule_imp_ne | simp)+

lemma safe_ABNFSIPScheme [rule_safe]: "abnf_rule ABNFSIPScheme"
  unfolding ABNFSIPScheme_def by (rule rule_safe | rule abnf_rule_imp_ne | simp)+

lemma safe_ABNFSIPTransportParam [rule_safe]: "abnf_rule ABNFSIPTransportParam"
  unfolding ABNFSIPTransportParam_def by (rule rule_safe | rule abnf_rule_imp_ne | simp)+

lemma safe_ABNFSIPUserParam [rule_safe]: "abnf_rule ABNFSIPUserParam"
  unfolding ABNFSIPUserParam_def by (rule rule_safe | rule abnf_rule_imp_ne | simp)+

lemma safe_ABNFSIPURIParameter [rule_safe]: "abnf_rule ABNFSIPURIParameter"
  unfolding ABNFSIPURIParameter_def by (rule rule_safe | rule abnf_rule_imp_ne | simp)+

lemma safe_uri_parameter_item [rule_safe]: "abnf_rule uri_parameter_item"
  unfolding uri_parameter_item_def by (rule rule_safe | rule abnf_rule_imp_ne | simp)+

lemma safe_ABNFSIPURIParameters [rule_safe]: "abnf_rule ABNFSIPURIParameters"
  unfolding ABNFSIPURIParameters_def by (rule rule_safe | rule abnf_rule_imp_ne | simp)+

lemma safe_ABNFSIPURIHeader [rule_safe]: "abnf_rule ABNFSIPURIHeader"
  unfolding ABNFSIPURIHeader_def by (rule rule_safe | rule abnf_rule_imp_ne | simp)+

lemma safe_uri_header_rest [rule_safe]: "abnf_rule uri_header_rest"
  unfolding uri_header_rest_def by (rule rule_safe | rule abnf_rule_imp_ne | simp)+

lemma safe_ABNFSIPURIHeaders [rule_safe]: "abnf_rule ABNFSIPURIHeaders"
  unfolding ABNFSIPURIHeaders_def by (rule rule_safe | rule abnf_rule_imp_ne | simp)+

lemma safe_uri_scheme_colon [rule_safe]: "abnf_rule uri_scheme_colon"
  unfolding uri_scheme_colon_def by (rule rule_safe | rule abnf_rule_imp_ne | simp)+

lemma safe_ABNFSIPURI [rule_safe]: "abnf_rule ABNFSIPURI"
  unfolding ABNFSIPURI_def by (rule rule_safe | rule abnf_rule_imp_ne | simp)+

lemma safe_ABNFSIPSegment [rule_safe]: "abnf_rule ABNFSIPSegment"
  unfolding ABNFSIPSegment_def by (rule rule_safe | rule abnf_rule_imp_ne | simp)+

lemma safe_ABNFSIPPathSegments [rule_safe]: "abnf_rule ABNFSIPPathSegments"
  unfolding ABNFSIPPathSegments_def by (rule rule_safe | rule abnf_rule_imp_ne | simp)+

lemma safe_ABNF_SIP_abs_path [rule_safe]: "abnf_rule ABNF_SIP_abs_path"
  unfolding ABNF_SIP_abs_path_def by (rule rule_safe | rule abnf_rule_imp_ne | simp)+

lemma safe_ABNFSIPSrvr [rule_safe]: "abnf_rule ABNFSIPSrvr"
  unfolding ABNFSIPSrvr_def by (rule rule_safe | rule abnf_rule_imp_ne | simp)+

lemma safe_ABNFSIPRegName [rule_safe]: "abnf_rule ABNFSIPRegName"
  unfolding ABNFSIPRegName_def by (rule rule_safe | rule abnf_rule_imp_ne | simp)+

lemma safe_ABNFSIPAuthority [rule_safe]: "abnf_rule ABNFSIPAuthority"
  unfolding ABNFSIPAuthority_def by (rule rule_safe | rule abnf_rule_imp_ne | simp)+

lemma safe_ABNFSIPNetPath [rule_safe]: "abnf_rule ABNFSIPNetPath"
  unfolding ABNFSIPNetPath_def by (rule rule_safe | rule abnf_rule_imp_ne | simp)+

lemma safe_hier_part_path [rule_safe]: "abnf_rule hier_part_path"
  unfolding hier_part_path_def by (rule rule_safe | rule abnf_rule_imp_ne | simp)+

lemma safe_hier_part_query [rule_safe]: "abnf_rule hier_part_query"
  unfolding hier_part_query_def by (rule rule_safe | rule abnf_rule_imp_ne | simp)+

lemma safe_ABNFSIPHierPart [rule_safe]: "abnf_rule ABNFSIPHierPart"
  unfolding ABNFSIPHierPart_def by (rule rule_safe | rule abnf_rule_imp_ne | simp)+

lemma safe_ABNFSIPOpaquePart [rule_safe]: "abnf_rule ABNFSIPOpaquePart"
  unfolding ABNFSIPOpaquePart_def by (rule rule_safe | rule abnf_rule_imp_ne | simp)+

lemma safe_ABNFSIPAbsoluteURI [rule_safe]: "abnf_rule ABNFSIPAbsoluteURI"
  unfolding ABNFSIPAbsoluteURI_def by (rule rule_safe | rule abnf_rule_imp_ne | simp)+

lemma safe_ABNFSIPRequestURI [rule_safe]: "abnf_rule ABNFSIPRequestURI"
  unfolding ABNFSIPRequestURI_def by (rule rule_safe | rule abnf_rule_imp_ne | simp)+

lemma safe_ABNF_SIP_addr_spec [rule_safe]: "abnf_rule ABNF_SIP_addr_spec"
  unfolding ABNF_SIP_addr_spec_def by (rule rule_safe | rule abnf_rule_imp_ne | simp)+

lemma safe_ABNFSIPNameAddr [rule_safe]: "abnf_rule ABNFSIPNameAddr"
  unfolding ABNFSIPNameAddr_def by (rule rule_safe | rule abnf_rule_imp_ne | simp)+

lemma safe_ABNF_SIP_gen_value [rule_safe]: "abnf_rule ABNF_SIP_gen_value"
  unfolding ABNF_SIP_gen_value_def by (rule rule_safe | rule abnf_rule_imp_ne | simp)+

lemma safe_generic_param_value [rule_safe]: "abnf_rule generic_param_value"
  unfolding generic_param_value_def by (rule rule_safe | rule abnf_rule_imp_ne | simp)+

lemma safe_ABNFSIPGenericParam [rule_safe]: "abnf_rule ABNFSIPGenericParam"
  unfolding ABNFSIPGenericParam_def by (rule rule_safe | rule abnf_rule_imp_ne | simp)+

lemma safe_generic_params_item [rule_safe]: "abnf_rule generic_params_item"
  unfolding generic_params_item_def by (rule rule_safe | rule abnf_rule_imp_ne | simp)+

lemma safe_ABNFSIPGenericParams [rule_safe]: "abnf_rule ABNFSIPGenericParams"
  unfolding ABNFSIPGenericParams_def by (rule rule_safe | rule abnf_rule_imp_ne | simp)+

lemma safe_name_or_addr [rule_safe]: "abnf_rule name_or_addr"
  unfolding name_or_addr_def by (rule rule_safe | rule abnf_rule_imp_ne | simp)+

lemma safe_ABNFSIPContactParam [rule_safe]: "abnf_rule ABNFSIPContactParam"
  unfolding ABNFSIPContactParam_def by (rule rule_safe | rule abnf_rule_imp_ne | simp)+

lemma safe_ABNFSIPFromSpec [rule_safe]: "abnf_rule ABNFSIPFromSpec"
  unfolding ABNFSIPFromSpec_def by (rule rule_safe | rule abnf_rule_imp_ne | simp)+

lemma safe_cseq_name [rule_safe]: "abnf_rule cseq_name"
  unfolding cseq_name_def by (rule rule_safe | rule abnf_rule_imp_ne | simp)+

lemma safe_cseq_number [rule_safe]: "abnf_rule cseq_number"
  unfolding cseq_number_def by (rule rule_safe | rule abnf_rule_imp_ne | simp)+

lemma safe_ABNFSIPCSeq [rule_safe]: "abnf_rule ABNFSIPCSeq"
  unfolding ABNFSIPCSeq_def by (rule rule_safe | rule abnf_rule_imp_ne | simp)+

lemma safe_ABNFSIPVersion [rule_safe]: "abnf_rule ABNFSIPVersion"
  unfolding ABNFSIPVersion_def Let_def by (rule rule_safe | rule abnf_rule_imp_ne | simp)+

lemma safe_ABNFSIPRequestLine [rule_safe]: "abnf_rule ABNFSIPRequestLine"
  unfolding ABNFSIPRequestLine_def by (rule rule_safe | rule abnf_rule_imp_ne | simp)+

lemma safe_ABNFSIPStatusCode [rule_safe]: "abnf_rule ABNFSIPStatusCode"
  unfolding ABNFSIPStatusCode_def by (rule rule_safe | rule abnf_rule_imp_ne | simp)+

lemma safe_ABNFSIPReasonPhrase [rule_safe]: "abnf_rule ABNFSIPReasonPhrase"
  unfolding ABNFSIPReasonPhrase_def by (rule rule_safe | rule abnf_rule_imp_ne | simp)+

lemma safe_ABNFSIPStatusLine [rule_safe]: "abnf_rule ABNFSIPStatusLine"
  unfolding ABNFSIPStatusLine_def by (rule rule_safe | rule abnf_rule_imp_ne | simp)+

lemma safe_snpp_text [rule_safe]: "abnf_rule snpp_text"
  unfolding snpp_text_def by (rule rule_safe | rule abnf_rule_imp_ne | simp)+

lemma safe_ABNFSNPPRequestLine [rule_safe]: "abnf_rule ABNFSNPPRequestLine"
  unfolding ABNFSNPPRequestLine_def by (rule rule_safe | rule abnf_rule_imp_ne | simp)+

end
