(* ===== verification/ABNF_Language.thy ===== *)
theory ABNF_Language
  imports ABNF_SIP
begin

text \<open>
  What the grammar recognises. The pointer code of a repetition over a character class takes the
  longest prefix of such characters, up to the loop bound; from that the languages of tokens,
  dotted addresses, quoted strings and start lines follow, and the places where the grammar
  departs from the comment beside it.
\<close>

section \<open>Character classes\<close>

named_theorems char_class \<open>rules that take one character of a class\<close>

definition is_digit :: "char \<Rightarrow> bool" where
  "is_digit c = (0x30 \<le> schar c \<and> schar c \<le> 0x39)"

definition is_alpha :: "char \<Rightarrow> bool" where
  "is_alpha c = ((0x41 \<le> schar c \<and> schar c \<le> 0x5A) \<or> (0x61 \<le> schar c \<and> schar c \<le> 0x7A))"

lemma not_digit_NUL [simp]: "\<not> is_digit NUL" and not_alpha_NUL [simp]: "\<not> is_alpha NUL"
  by (simp_all add: is_digit_def is_alpha_def)

lemma refines_cong: "refines r f \<Longrightarrow> (\<And>s. nul_free s \<Longrightarrow> f s = g s) \<Longrightarrow> refines r g"
  by (simp add: refines_def)

lemma refines_imp_ne: "refines r f \<Longrightarrow> abnf_rule_ne r"
  by (rule abnf_rule_imp_ne [OF refines_rule])

lemma class_Digit [char_class]: "refines ABNFCharDigit (char_take is_digit)"
  unfolding ABNFCharDigit_def is_digit_def by (rule refines_char_rule) simp

lemma class_Alpha [char_class]: "refines ABNFCharAlpha (char_take is_alpha)"
  unfolding ABNFCharAlpha_def is_alpha_def by (rule refines_char_rule) simp

lemma class_Comparison [char_class]:
  "v \<noteq> NUL \<Longrightarrow> refines (ABNFCharComparison v) (char_take (\<lambda>c. c = v))"
  unfolding ABNFCharComparison_def by (rule refines_char_rule) simp

lemma class_AnyOfChars [char_class]:
  "length cs < 50 \<Longrightarrow> refines (ABNFAnyOfChars cs) (char_take (\<lambda>c. c \<in> set cs))"
proof (rule refines_cong [OF refines_AnyOfChars])
  fix s assume "length cs < 50" "nul_free s"
  then show "char_take (\<lambda>c. c \<noteq> NUL \<and> c \<in> set (take 50 cs)) s = char_take (\<lambda>c. c \<in> set cs) s"
    by (cases s) auto
qed

lemma class_AnyOf [char_class]:
  assumes "refines r0 (char_take P)" "refines r1 (char_take Q)"
  shows "refines (ABNFAnyOf r0 r1) (char_take (\<lambda>c. P c \<or> Q c))"
  by (rule refines_cong [OF refines_AnyOf])
    (use assms in \<open>auto simp: refines_imp_ne choice_take_def refines_consumed char_take_def\<close>)

lemma class_AnyOfMultiple3 [char_class]:
  assumes "refines r0 (char_take P)" "refines r1 (char_take Q)" "refines r2 (char_take R)"
    and "\<not> isNull r0" "\<not> isNull r1" "\<not> isNull r2"
  shows "refines (ABNFAnyOfMultiple3 r0 r1 r2) (char_take (\<lambda>c. P c \<or> Q c \<or> R c))"
  unfolding ABNFAnyOfMultiple3_def
  by (rule refines_cong [OF refines_any_of])
    (use assms in \<open>auto simp: refines_rule refines_consumed char_take_def\<close>)

lemma class_AlphaNumeric [char_class]:
  "refines ABNFCharAlphaNumeric (char_take (\<lambda>c. is_alpha c \<or> is_digit c))"
  unfolding ABNFCharAlphaNumeric_def by (rule class_AnyOf [OF class_Alpha class_Digit])

text \<open>A bounded repetition over a class takes the longest prefix of the class, up to the bound.\<close>

lemma rep_pieces_class:
  assumes "refines r (char_take P)"
  shows "nul_free s \<Longrightarrow>
    rep_pieces r e k s = map (\<lambda>c. [c]) (takeWhile (\<lambda>c. P c \<and> \<not> e c) (take k s))"
proof (induction k arbitrary: s)
  case (Suc k)
  show ?case
  proof (cases s)
    case (Cons c s')
    have "consumed r s = (if P c then 1 else 0)"
      using refines_consumed [OF assms Suc.prems] Cons by simp
    then show ?thesis
      using Suc Cons by auto
  qed simp
qed simp

lemma rep_take_class:
  assumes "refines r (char_take P)" "nul_free s"
  shows "rep_take r e minSize maxSize s =
    (let n = length (takeWhile (\<lambda>c. P c \<and> \<not> e c) (take maxSize s))
     in if n < minSize then 0 else n)"
  by (simp add: rep_take_def rep_pieces_class [OF assms] Let_def comp_def length_concat)

lemma exit_if_nul: "ABNFLoopExitIfNul c \<longleftrightarrow> c = NUL"
  by (auto simp: ABNFLoopExitIfNul_def ABNFLoopExitChars_def)

lemma takeWhile_nul_free_cong:
  "nul_free s \<Longrightarrow> takeWhile (\<lambda>c. P c \<and> c \<noteq> NUL) s = takeWhile P s"
  by (induction s) auto

lemma loop_class_consumed:
  assumes "refines r (char_take P)" "nul_free s"
  shows "consumed (ABNFLoopUntil r ABNFLoopExitIfNul minSize maxSize) s =
    (let n = length (takeWhile P (take maxSize s)) in if n < minSize then 0 else n)"
proof -
  have "consumed (ABNFLoopUntil r ABNFLoopExitIfNul minSize maxSize) s =
      rep_take r ABNFLoopExitIfNul minSize maxSize s"
    using assms by (intro refines_consumed [OF refines_LoopUntil] refines_imp_ne) auto
  then show ?thesis
    using assms by (simp add: rep_take_class exit_if_nul takeWhile_nul_free_cong)
qed

lemma consumed_wrap [simp]: "consumed (ABNFBaseRule (parse r)) s = consumed r s"
  by (simp add: consumed_def)

section \<open>Tokens\<close>

definition token_char :: "char \<Rightarrow> bool" where
  "token_char c = (is_alpha c \<or> is_digit c \<or>
     c \<in> set [CHR ''-'', CHR ''.'', CHR ''!'', CHR ''%'', CHR ''*'', CHR ''_'', CHR ''+'',
        CHR 0x60, CHR 0x27, CHR ''~''])"

lemma Token_consumed:
  assumes "nul_free s"
  shows "consumed ABNFSIPToken s = length (takeWhile token_char (take 1024 s))"
proof -
  let ?cs = "[CHR ''-'', CHR ''.'', CHR ''!'', CHR ''%'', CHR ''*'', CHR ''_'', CHR ''+'',
    CHR 0x60, CHR 0x27, CHR ''~'']"
  have "refines (ABNFAnyOf ABNFCharAlphaNumeric (ABNFAnyOfChars ?cs))
      (char_take (\<lambda>c. (is_alpha c \<or> is_digit c) \<or> c \<in> set ?cs))"
    by (intro class_AnyOf class_AlphaNumeric class_AnyOfChars) simp
  then have "refines (ABNFAnyOf ABNFCharAlphaNumeric (ABNFAnyOfChars ?cs)) (char_take token_char)"
    unfolding token_char_def disj_assoc .
  from loop_class_consumed [OF this assms, of 1 1024] show ?thesis
    unfolding ABNFSIPToken_def consumed_wrap by (simp add: Let_def)
qed

text \<open>C30: the pointer loop of \<open>ABNFSIPToken::parse\<close> stops exactly at the end of the longest
  prefix of token characters, and after 1024 characters at the latest, whatever follows the
  terminating NUL in memory.\<close>

theorem token_longest_prefix:
  assumes "nul_free s"
  shows "parse ABNFSIPToken (s @ NUL # rest) = Some (length (takeWhile token_char (take 1024 s)))"
  using abnf_rule.parse_cstr [OF safe_ABNFSIPToken assms] Token_consumed [OF assms] by simp

theorem token_longest_prefix_witness:
  "nul_free ''INVITE sip:a'' \<and> parse ABNFSIPToken (''INVITE sip:a'' @ NUL # []) = Some 6"
  using token_longest_prefix [of "''INVITE sip:a''" "[]"]
  by (simp add: token_char_def is_alpha_def is_digit_def schar_def)

section \<open>Dotted addresses\<close>

definition octet :: "string \<Rightarrow> bool" where
  "octet a = (1 \<le> length a \<and> length a \<le> 3 \<and> (\<forall>c \<in> set a. is_digit c))"

definition dotted_quad :: "string \<Rightarrow> bool" where
  "dotted_quad s = (\<exists>a b c d. octet a \<and> octet b \<and> octet c \<and> octet d \<and>
     s = a @ CHR ''.'' # b @ CHR ''.'' # c @ CHR ''.'' # d)"

definition octet_rule :: rule where
  "octet_rule = ABNFLoopUntil ABNFCharDigit ABNFLoopExitIfNul 1 3"

definition dot_octet_rule :: rule where
  "dot_octet_rule = ABNFLRSequence2 (ABNFCharComparison CHR ''.'') octet_rule"

lemma octet_consumed: "nul_free s \<Longrightarrow> consumed octet_rule s = length (takeWhile is_digit (take 3 s))"
  unfolding octet_rule_def by (subst loop_class_consumed [OF class_Digit]) (auto simp: Let_def)

lemma not_digit_dot [simp]: "\<not> is_digit CHR ''.''"
  by (simp add: is_digit_def schar_def)

lemma octet_nul_free: "octet a \<Longrightarrow> nul_free a"
  by (auto simp: octet_def)

text \<open>An octet that is followed by a dot, or by nothing, is taken whole.\<close>

lemma octet_consumed_append:
  assumes "octet a" "nul_free t" "t = [] \<or> hd t = CHR ''.''"
  shows "consumed octet_rule (a @ t) = length a"
proof -
  have "take 3 (a @ t) = a @ take (3 - length a) t"
    using assms(1) by (simp add: octet_def)
  moreover have "takeWhile is_digit (a @ take (3 - length a) t) = a"
    using assms by (intro takeWhile_append_stop) (auto simp: octet_def hd_take)
  ultimately show ?thesis
    using assms octet_nul_free by (subst octet_consumed) auto
qed

lemma octet_take:
  assumes "nul_free s" "consumed octet_rule s \<noteq> 0"
  shows "octet (take (consumed octet_rule s) s)"
proof -
  let ?w = "takeWhile is_digit (take 3 s)"
  have "consumed octet_rule s = length ?w"
    by (rule octet_consumed [OF assms(1)])
  moreover have "take (length ?w) s = ?w"
    by (rule take_takeWhile_take)
  ultimately show ?thesis
    using assms(2) length_takeWhile_le [of is_digit "take 3 s"]
    by (auto simp: octet_def Suc_le_eq dest: set_takeWhileD)
qed

lemma refines_LRSequence2:
  "abnf_rule r0 \<Longrightarrow> abnf_rule r1 \<Longrightarrow> refines (ABNFLRSequence2 r0 r1) (seq_take [r0, r1])"
  unfolding ABNFLRSequence2_def by (rule refines_lr_sequence) simp

lemma safe_octet [rule_safe]: "abnf_rule octet_rule" "abnf_rule dot_octet_rule"
  unfolding octet_rule_def dot_octet_rule_def octet_rule_def
  by (rule rule_safe | rule abnf_rule_imp_ne | simp)+

lemma octet_rule_flags [simp]: "\<not> isOptional octet_rule" "\<not> isOptional dot_octet_rule"
  by (simp_all add: octet_rule_def dot_octet_rule_def)

lemma dot_octet_consumed:
  assumes "nul_free s"
  shows "consumed dot_octet_rule s =
    (if s \<noteq> [] \<and> hd s = CHR ''.'' \<and> consumed octet_rule (tl s) \<noteq> 0
     then Suc (consumed octet_rule (tl s)) else 0)"
proof -
  have dot: "consumed (ABNFCharComparison CHR ''.'') s = char_take (\<lambda>c. c = CHR ''.'') s"
    using assms by (intro refines_consumed class_Comparison) auto
  have "consumed dot_octet_rule s = seq_take [ABNFCharComparison CHR ''.'', octet_rule] s"
    unfolding dot_octet_rule_def
    using assms by (intro refines_consumed refines_LRSequence2 rule_safe) auto
  moreover have "consumed octet_rule (tl s) \<le> length (tl s)"
    using assms by (intro abnf_rule.consumed_le rule_safe) auto
  ultimately show ?thesis
    using dot by (cases s) (auto simp: seq_take_def Let_def)
qed

lemma dot_octet_take:
  assumes "nul_free s" "consumed dot_octet_rule s \<noteq> 0"
  shows "\<exists>b. octet b \<and> take (consumed dot_octet_rule s) s = CHR ''.'' # b"
proof (cases s)
  case (Cons c t)
  then have "c = CHR ''.''" "consumed octet_rule t \<noteq> 0"
      "consumed dot_octet_rule s = Suc (consumed octet_rule t)"
    using assms dot_octet_consumed [OF assms(1)] by (auto split: if_splits)
  moreover have "octet (take (consumed octet_rule t) t)"
    using assms(1) Cons calculation(2) by (intro octet_take) auto
  ultimately show ?thesis using Cons by auto
qed (use assms dot_octet_consumed in simp)

lemma dot_octet_consumed_append:
  assumes "octet b" "nul_free t" "t = [] \<or> hd t = CHR ''.''"
  shows "consumed dot_octet_rule (CHR ''.'' # b @ t) = Suc (length b)"
  using dot_octet_consumed [of "CHR ''.'' # b @ t"] octet_consumed_append [OF assms]
    assms octet_nul_free [of b] by (auto simp: octet_def)

abbreviation quad_rules :: "rule list" where
  "quad_rules \<equiv> [octet_rule, dot_octet_rule, dot_octet_rule, dot_octet_rule]"

lemma IPV4Address_consumed:
  assumes "nul_free s"
  shows "consumed ABNFSIPIPV4Address s = seq_take quad_rules s"
proof -
  have "refines (ABNFBaseRule (lr_sequence quad_rules 0)) (seq_take quad_rules)"
    by (intro refines_lr_sequence) (auto intro: rule_safe)
  then show ?thesis
    using refines_consumed [OF _ assms] unfolding ABNFSIPIPV4Address_def Let_def ABNFLRSequence4_def
    by (simp add: octet_rule_def dot_octet_rule_def)
qed

lemma quad_pieces_complete:
  assumes "octet a" "octet b" "octet c" "octet d"
  shows "seq_pieces quad_rules (a @ CHR ''.'' # b @ CHR ''.'' # c @ CHR ''.'' # d) =
    Some [a, CHR ''.'' # b, CHR ''.'' # c, CHR ''.'' # d]"
proof -
  note nf = assms [THEN octet_nul_free]
  have "consumed octet_rule (a @ CHR ''.'' # b @ CHR ''.'' # c @ CHR ''.'' # d) = length a"
    using assms nf by (intro octet_consumed_append) auto
  moreover have "consumed dot_octet_rule (CHR ''.'' # b @ CHR ''.'' # c @ CHR ''.'' # d) = Suc (length b)"
    "consumed dot_octet_rule (CHR ''.'' # c @ CHR ''.'' # d) = Suc (length c)"
    using assms nf by (intro dot_octet_consumed_append; simp)+
  moreover have "consumed dot_octet_rule (CHR ''.'' # d) = Suc (length d)"
    using dot_octet_consumed_append [OF assms(4), of "[]"] by simp
  moreover have "a \<noteq> []"
    using assms(1) by (auto simp: octet_def)
  ultimately show ?thesis
    by (simp add: Let_def)
qed

lemma quad_pieces_sound:
  assumes "nul_free s" "seq_pieces quad_rules s = Some ps"
  shows "dotted_quad (concat ps)"
proof -
  let ?n1 = "consumed octet_rule s"
  let ?s1 = "drop ?n1 s"
  let ?n2 = "consumed dot_octet_rule ?s1"
  let ?s2 = "drop ?n2 ?s1"
  let ?n3 = "consumed dot_octet_rule ?s2"
  let ?s3 = "drop ?n3 ?s2"
  let ?n4 = "consumed dot_octet_rule ?s3"
  have ne: "?n1 \<noteq> 0" "?n2 \<noteq> 0" "?n3 \<noteq> 0" "?n4 \<noteq> 0"
    and ps: "ps = [take ?n1 s, take ?n2 ?s1, take ?n3 ?s2, take ?n4 ?s3]"
    using assms(2) by (auto simp: Let_def split: if_splits)
  have "octet (take ?n1 s)"
    using assms(1) ne(1) by (rule octet_take)
  moreover obtain b c d where "octet b" "take ?n2 ?s1 = CHR ''.'' # b"
    "octet c" "take ?n3 ?s2 = CHR ''.'' # c" "octet d" "take ?n4 ?s3 = CHR ''.'' # d"
    using dot_octet_take [of ?s1] dot_octet_take [of ?s2] dot_octet_take [of ?s3] assms(1) ne
    by (meson nul_free_drop)
  ultimately show ?thesis
    unfolding dotted_quad_def ps by (intro exI conjI) auto
qed

text \<open>C29: \<open>ABNFEvaluate<ABNF_SIP_IPv4address>\<close> accepts exactly the dotted quads of one to
  three digits each, and the empty string, which every rule accepts because \<open>ABNFEvaluate\<close>
  only tests that the parser stopped at the terminator.\<close>

theorem ipv4_language:
  assumes "nul_free s"
  shows "ABNFEvaluate ABNFSIPIPV4Address (s @ NUL # rest) = Some (s = [] \<or> dotted_quad s)"
proof -
  have "consumed ABNFSIPIPV4Address s = length s \<longleftrightarrow> s = [] \<or> dotted_quad s"
  proof
    assume len: "consumed ABNFSIPIPV4Address s = length s"
    show "s = [] \<or> dotted_quad s"
    proof (cases "seq_pieces quad_rules s")
      case None
      then show ?thesis using len IPV4Address_consumed [OF assms] by (simp add: seq_take_def)
    next
      case (Some ps)
      then have "concat ps = s"
        using len IPV4Address_consumed [OF assms] seq_pieces_prefix [OF Some] by (simp add: seq_take_def)
      then show ?thesis using quad_pieces_sound [OF assms Some] by simp
    qed
  next
    assume "s = [] \<or> dotted_quad s"
    then show "consumed ABNFSIPIPV4Address s = length s"
      using IPV4Address_consumed [OF assms] abnf_rule.consumed_Nil [OF safe_ABNFSIPIPV4Address]
      by (auto simp: dotted_quad_def seq_take_def quad_pieces_complete simp del: seq_pieces.simps)
  qed
  then show ?thesis
    using abnf_rule.evaluate_cstr [OF safe_ABNFSIPIPV4Address assms] by simp
qed

theorem ipv4_language_witness:
  "ABNFEvaluate ABNFSIPIPV4Address (''10.0.0.255'' @ NUL # []) = Some True"
proof -
  have "dotted_quad ''10.0.0.255''"
    unfolding dotted_quad_def
    by (intro exI [of _ "''10''"] exI [of _ "''0''"] exI [of _ "''255''"])
      (simp add: octet_def is_digit_def schar_def)
  then show ?thesis
    using ipv4_language [of "''10.0.0.255''" "[]"] by simp
qed

section \<open>The grammar as a whole\<close>

text \<open>The classes of \<^verbatim>\<open>src/abnf\<close> that are run on the text of a message.\<close>

definition sip_grammar :: "rule list" where
  "sip_grammar = [ABNFSIPToken, ABNFSIPMethod, ABNFSIPMethodParam, ABNFSIPTextUtf8Char,
     ABNFSIPTextUtf8Trim, ABNFSIPQuotedString, ABNFSIPDisplayName, ABNFSIPDomainLabel,
     ABNFSIPTopLabel, ABNFSIPHostName, ABNFSIPIPV4Address, ABNFSIPHex4, ABNFSIPHexSeq,
     ABNFSIPHexPart, ABNFSIPIPV6Address, ABNFSIPHost, ABNFSIPPort, ABNFSIPHostPort, ABNFSIPUser,
     ABNFSIPPassword, ABNFSIPUserInfo, ABNFSIPScheme, ABNFSIPTransportParam, ABNFSIPUserParam,
     ABNFSIPURIParameter, ABNFSIPURIParameters, ABNFSIPURIHeader, ABNFSIPURIHeaders, ABNFSIPURI,
     ABNFSIPSegment, ABNFSIPPathSegments, ABNFSIPSrvr, ABNFSIPRegName, ABNFSIPAuthority,
     ABNFSIPNetPath, ABNFSIPHierPart, ABNFSIPOpaquePart, ABNFSIPAbsoluteURI, ABNFSIPRequestURI,
     ABNFSIPNameAddr, ABNFSIPGenericParam, ABNFSIPGenericParams, ABNFSIPContactParam,
     ABNFSIPFromSpec, ABNFSIPCSeq, ABNFSIPVersion, ABNFSIPRequestLine, ABNFSIPStatusCode,
     ABNFSIPReasonPhrase, ABNFSIPStatusLine, ABNFSNPPRequestLine]"

text \<open>C1: memory safety of the grammar. Run on a NUL-terminated string, the parser of each of the 51
  classes of \<open>sip_grammar\<close> returns a pointer inside the string or at its terminator, reads no byte behind
  the terminator, and its answer does not depend on the bytes there. The same holds of the classes
  \<open>ABNFSIPQdText\<close> and \<open>ABNFSIPUtf8NonAscii\<close> on a string that is not empty. It does not hold of
  \<open>ABNFSIPQuotedPair\<close>, see below.\<close>

theorem sip_grammar_safe:
  assumes "r \<in> set sip_grammar \<or> s \<noteq> [] \<and> r \<in> {ABNFSIPQdText, ABNFSIPUtf8NonAscii}" "nul_free s"
  shows "\<exists>n \<le> length s. \<forall>rest. parse r (s @ NUL # rest) = Some n"
proof -
  have "list_all abnf_rule sip_grammar"
    unfolding sip_grammar_def by (simp add: rule_safe)
  then have "r \<in> set sip_grammar \<Longrightarrow> abnf_rule r"
    by (simp add: list_all_iff)
  then show ?thesis
    using assms abnf_rule.contract [of r s] abnf_rule_ne.contract_ne [OF safe_ABNFSIPQdText, of s]
      abnf_rule_ne.contract_ne [OF safe_ABNFSIPUtf8NonAscii, of s] by blast
qed

theorem sip_grammar_safe_witness:
  "\<exists>n \<le> length ''sip:bob@biloxi.com''. \<forall>rest.
     parse ABNFSIPURI (''sip:bob@biloxi.com'' @ NUL # rest) = Some n"
  by (rule sip_grammar_safe) (simp_all add: sip_grammar_def)

text \<open>A backslash before the terminator: the terminator counts as the escaped character, and the pointer that
  is returned is behind it.\<close>

theorem quoted_pair_overrun: "parse ABNFSIPQuotedPair (cstr [CHR 0x5C]) = Some 2"
  by code_simp

text \<open>The contract of the rules, on two of the classes: the interface of \<open>URI\<close>, and the
  weaker one of \<open>qdtext\<close>, which may be run on nonempty text only.\<close>

interpretation uri_rule: abnf_rule ABNFSIPURI
  by (rule safe_ABNFSIPURI)

interpretation qdtext_rule: abnf_rule_ne ABNFSIPQdText
  by (rule safe_ABNFSIPQdText)

section \<open>Sequences with tokens\<close>

text \<open>The interface the header classes rely on: a class whose \<open>parse\<close> and
  \<open>parseTokens\<close> run the same list of rules.\<close>

locale token_parser =
  fixes r :: rule and tokens :: "mem \<Rightarrow> (string list \<times> nat) option" and rs :: "rule list"
  assumes safe: "\<forall>x \<in> set rs. abnf_rule x"
    and parse_rules: "parse r = lr_sequence rs 0"
    and tokens_rules: "tokens = lr_tokens rs 0"
begin

lemma is_rule: "abnf_rule r"
  using refines_rule [OF refines_lr_sequence [OF safe]] parse_rules by (simp add: abnf_rule_def)

lemma consumed_seq: "nul_free s \<Longrightarrow> consumed r s = seq_take rs s"
  using refines_consumed [OF refines_lr_sequence [OF safe]] parse_rules by (simp add: consumed_def)

lemma tokens_cstr:
  "nul_free s \<Longrightarrow> tokens (s @ NUL # rest) = Some (seq_tokens rs s, consumed r s)"
  using lr_tokens_cstr [OF _ safe, of s 0 rest] consumed_seq
  by (simp add: tokens_rules seq_take_def split: option.split)

lemma tokens_match:
  assumes "nul_free s" "consumed r s \<noteq> 0"
  shows "length (seq_tokens rs s) = length rs \<and> concat (seq_tokens rs s) = take (consumed r s) s"
proof -
  obtain ps where "seq_pieces rs s = Some ps"
    using assms by (cases "seq_pieces rs s") (auto simp: consumed_seq seq_take_def)
  then show ?thesis
    using seq_tokens_pieces [of rs s ps] seq_tokens_length [of rs s] seq_pieces_prefix [of rs s ps]
      consumed_seq [OF assms(1)] by (simp add: seq_take_def)
qed

lemma parse_and_tokens:
  assumes "nul_free s"
  shows "\<exists>ts n. tokens (s @ NUL # rest) = Some (ts, n) \<and> parse r (s @ NUL # rest) = Some n \<and>
    n \<le> length s \<and> (n \<noteq> 0 \<longrightarrow> length ts = length rs \<and> concat ts = take n s)"
  using tokens_cstr [OF assms] tokens_match [OF assms] abnf_rule.parse_cstr [OF is_rule assms]
    abnf_rule.consumed_le [OF is_rule assms] by blast

end

text \<open>The header and start line classes provide it.\<close>

interpretation hostport_tok: token_parser ABNFSIPHostPort ABNFSIPHostPort_parseTokens
  "[ABNFSIPHost, hostport_port]"
  by unfold_locales (auto simp: ABNFSIPHostPort_def ABNFSIPHostPort_parseTokens_def ABNFLRSequence2_def
      ABNFLRSequence2_parseTokens_def intro!: rule_safe intro: abnf_rule_imp_ne)

interpretation userinfo_tok: token_parser ABNFSIPUserInfo ABNFSIPUserInfo_parseTokens
  "[ABNFSIPUser, userinfo_password, ABNFCharComparison CHR ''@'']"
  by unfold_locales (auto simp: ABNFSIPUserInfo_def ABNFSIPUserInfo_parseTokens_def ABNFLRSequence3_def
      ABNFLRSequence3_parseTokens_def intro!: rule_safe intro: abnf_rule_imp_ne)

interpretation headers_tok: token_parser ABNFSIPURIHeaders ABNFSIPURIHeaders_parseTokens
  "[ABNFCharComparison CHR ''?'', ABNFSIPURIHeader, uri_header_rest]"
  by unfold_locales (auto simp: ABNFSIPURIHeaders_def ABNFSIPURIHeaders_parseTokens_def ABNFLRSequence3_def
      ABNFLRSequence3_parseTokens_def intro!: rule_safe intro: abnf_rule_imp_ne)

interpretation uri_tok: token_parser ABNFSIPURI ABNFSIPURI_parseTokens
  "[uri_scheme_colon, ABNFLROptional ABNFSIPUserInfo, ABNFSIPHostPort, ABNFLROptional ABNFSIPURIParameters, ABNFLROptional ABNFSIPURIHeaders]"
  by unfold_locales (auto simp: ABNFSIPURI_def ABNFSIPURI_parseTokens_def ABNFLRSequence5_def
      ABNFLRSequence5_parseTokens_def intro!: rule_safe intro: abnf_rule_imp_ne)

interpretation hier_tok: token_parser ABNFSIPHierPart ABNFSIPHierPart_parseTokens
  "[hier_part_path, hier_part_query]"
  by unfold_locales (auto simp: ABNFSIPHierPart_def ABNFSIPHierPart_parseTokens_def ABNFLRSequence2_def
      ABNFLRSequence2_parseTokens_def intro!: rule_safe intro: abnf_rule_imp_ne)

interpretation absuri_tok: token_parser ABNFSIPAbsoluteURI ABNFSIPAbsoluteURI_parseTokens
  "[uri_scheme_colon, ABNFAnyOf ABNFSIPHierPart ABNFSIPOpaquePart]"
  by unfold_locales (auto simp: ABNFSIPAbsoluteURI_def ABNFSIPAbsoluteURI_parseTokens_def ABNFLRSequence2_def
      ABNFLRSequence2_parseTokens_def intro!: rule_safe intro: abnf_rule_imp_ne)

interpretation nameaddr_tok: token_parser ABNFSIPNameAddr ABNFSIPNameAddr_parseTokens
  "[ABNFLROptional ABNFSIPDisplayName, ABNF_SIP_LAQUOT, ABNF_SIP_addr_spec, ABNF_SIP_RAQUOT]"
  by unfold_locales (auto simp: ABNFSIPNameAddr_def ABNFSIPNameAddr_parseTokens_def ABNFLRSequence4_def
      ABNFLRSequence4_parseTokens_def intro!: rule_safe intro: abnf_rule_imp_ne)

interpretation genparam_tok: token_parser ABNFSIPGenericParam ABNFSIPGenericParam_parseTokens
  "[ABNFSIPToken, generic_param_value]"
  by unfold_locales (auto simp: ABNFSIPGenericParam_def ABNFSIPGenericParam_parseTokens_def ABNFLRSequence2_def
      ABNFLRSequence2_parseTokens_def intro!: rule_safe intro: abnf_rule_imp_ne)

interpretation contact_tok: token_parser ABNFSIPContactParam ABNFSIPContactParam_parseTokens
  "[name_or_addr, ABNFLROptional ABNFSIPGenericParams]"
  by unfold_locales (auto simp: ABNFSIPContactParam_def ABNFSIPContactParam_parseTokens_def ABNFLRSequence2_def
      ABNFLRSequence2_parseTokens_def intro!: rule_safe intro: abnf_rule_imp_ne)

interpretation from_tok: token_parser ABNFSIPFromSpec ABNFSIPFromSpec_parseTokens
  "[name_or_addr, ABNFLROptional ABNFSIPGenericParams]"
  by unfold_locales (auto simp: ABNFSIPFromSpec_def ABNFSIPFromSpec_parseTokens_def ABNFLRSequence2_def
      ABNFLRSequence2_parseTokens_def intro!: rule_safe intro: abnf_rule_imp_ne)

interpretation cseq_tok: token_parser ABNFSIPCSeq ABNFSIPCSeq_parseTokens
  "[cseq_name, cseq_number, ABNF_SIP_LWS, ABNFSIPMethod]"
  by unfold_locales (auto simp: ABNFSIPCSeq_def ABNFSIPCSeq_parseTokens_def ABNFLRSequence4_def
      ABNFLRSequence4_parseTokens_def intro!: rule_safe intro: abnf_rule_imp_ne)

interpretation reqline_tok: token_parser ABNFSIPRequestLine ABNFSIPRequestLine_parseTokens
  "[ABNFSIPMethod, ABNFCharSpace, ABNFSIPRequestURI, ABNFCharSpace, ABNFSIPVersion, ABNFLROptional ABNFCharCRLF]"
  by unfold_locales (auto simp: ABNFSIPRequestLine_def ABNFSIPRequestLine_parseTokens_def ABNFLRSequence6_def
      ABNFLRSequence6_parseTokens_def intro!: rule_safe intro: abnf_rule_imp_ne)

interpretation statline_tok: token_parser ABNFSIPStatusLine ABNFSIPStatusLine_parseTokens
  "[ABNFSIPVersion, ABNFCharSpace, ABNFSIPStatusCode, ABNFCharSpace, ABNFSIPReasonPhrase, ABNFLROptional ABNFCharCRLF]"
  by unfold_locales (auto simp: ABNFSIPStatusLine_def ABNFSIPStatusLine_parseTokens_def ABNFLRSequence6_def
      ABNFLRSequence6_parseTokens_def intro!: rule_safe intro: abnf_rule_imp_ne)

interpretation snpp_tok: token_parser ABNFSNPPRequestLine ABNFSNPPRequestLine_parseTokens
  "[ABNFSIPMethod, ABNFCharSpace, snpp_text, ABNFLROptional ABNFCharCRLF]"
  by unfold_locales (auto simp: ABNFSNPPRequestLine_def ABNFSNPPRequestLine_parseTokens_def ABNFLRSequence4_def
      ABNFLRSequence4_parseTokens_def intro!: rule_safe intro: abnf_rule_imp_ne)

definition token_parsers :: "(rule \<times> (mem \<Rightarrow> (string list \<times> nat) option) \<times> nat) list" where
  "token_parsers = [
     (ABNFSIPHostPort, ABNFSIPHostPort_parseTokens, 2),
     (ABNFSIPUserInfo, ABNFSIPUserInfo_parseTokens, 3),
     (ABNFSIPURIHeaders, ABNFSIPURIHeaders_parseTokens, 3),
     (ABNFSIPURI, ABNFSIPURI_parseTokens, 5),
     (ABNFSIPHierPart, ABNFSIPHierPart_parseTokens, 2),
     (ABNFSIPAbsoluteURI, ABNFSIPAbsoluteURI_parseTokens, 2),
     (ABNFSIPNameAddr, ABNFSIPNameAddr_parseTokens, 4),
     (ABNFSIPGenericParam, ABNFSIPGenericParam_parseTokens, 2),
     (ABNFSIPContactParam, ABNFSIPContactParam_parseTokens, 2),
     (ABNFSIPFromSpec, ABNFSIPFromSpec_parseTokens, 2),
     (ABNFSIPCSeq, ABNFSIPCSeq_parseTokens, 4),
     (ABNFSIPRequestLine, ABNFSIPRequestLine_parseTokens, 6),
     (ABNFSIPStatusLine, ABNFSIPStatusLine_parseTokens, 6),
     (ABNFSNPPRequestLine, ABNFSNPPRequestLine_parseTokens, 4)]"

text \<open>C2: \<open>parseTokens\<close> of every start line, URI and header class agrees with its
  \<open>parse\<close>, and when it matches, the vector holds one token per part of the rule and the
  tokens put together are exactly the text that was matched: nothing is lost, duplicated or
  reordered.\<close>

theorem tokens_partition_match:
  assumes "(r, tokens, k) \<in> set token_parsers" "nul_free s"
  shows "\<exists>ts n. tokens (s @ NUL # rest) = Some (ts, n) \<and> parse r (s @ NUL # rest) = Some n \<and>
    n \<le> length s \<and> (n \<noteq> 0 \<longrightarrow> length ts = k \<and> concat ts = take n s)"
proof -
  have "\<exists>rs. token_parser r tokens rs \<and> length rs = k"
    using assms(1) unfolding token_parsers_def
    by (auto intro: hostport_tok.token_parser_axioms
      userinfo_tok.token_parser_axioms
      headers_tok.token_parser_axioms
      uri_tok.token_parser_axioms
      hier_tok.token_parser_axioms
      absuri_tok.token_parser_axioms
      nameaddr_tok.token_parser_axioms
      genparam_tok.token_parser_axioms
      contact_tok.token_parser_axioms
      from_tok.token_parser_axioms
      cseq_tok.token_parser_axioms
      reqline_tok.token_parser_axioms
      statline_tok.token_parser_axioms
      snpp_tok.token_parser_axioms exI conjI)
  then show ?thesis
    using token_parser.parse_and_tokens [OF _ assms(2)] by blast
qed

theorem tokens_partition_match_witness:
  "\<exists>ts n. ABNFSIPCSeq_parseTokens (''1 ACK'' @ NUL # []) = Some (ts, n) \<and>
     parse ABNFSIPCSeq (''1 ACK'' @ NUL # []) = Some n \<and>
     n \<le> length ''1 ACK'' \<and> (n \<noteq> 0 \<longrightarrow> length ts = 4 \<and> concat ts = take n ''1 ACK'')"
  by (rule tokens_partition_match) (simp_all add: token_parsers_def)

section \<open>Quoted strings\<close>

text \<open>A rule takes only characters of a set: the property is inherited by optional rules,
  sequences and repetitions.\<close>

definition over :: "(char \<Rightarrow> bool) \<Rightarrow> rule \<Rightarrow> bool" where
  "over P r = (\<forall>s. nul_free s \<longrightarrow> (\<forall>c \<in> set (take (consumed r s) s). P c))"

lemma over_class: "refines r (char_take P) \<Longrightarrow> over P r"
  unfolding over_def
proof (intro allI impI ballI)
  fix s c assume "refines r (char_take P)" "nul_free s" "c \<in> set (take (consumed r s) s)"
  then show "P c" by (cases s) (auto simp: refines_consumed split: if_splits)
qed

lemma over_Optional: "abnf_rule_ne r \<Longrightarrow> over P r \<Longrightarrow> over P (ABNFLROptional r)"
  by (auto simp: over_def refines_consumed [OF refines_Optional])

lemma over_pieces:
  "nul_free s \<Longrightarrow> \<forall>r \<in> set rs. over P r \<Longrightarrow> seq_pieces rs s = Some ps \<Longrightarrow> \<forall>c \<in> set (concat ps). P c"
proof (induction rs arbitrary: s ps)
  case (Cons r rs)
  then obtain qs where qs: "seq_pieces rs (drop (consumed r s) s) = Some qs"
      "ps = take (consumed r s) s # qs"
    by (auto simp: Let_def split: if_splits)
  moreover have "\<forall>c \<in> set (concat qs). P c"
    using Cons.IH [OF _ _ qs(1)] Cons.prems by auto
  ultimately show ?case
    using Cons.prems by (auto simp: over_def)
qed simp

lemma over_seq:
  assumes "refines r (seq_take rs)" "\<forall>r \<in> set rs. over P r"
  shows "over P r"
  unfolding over_def
proof (intro allI impI)
  fix s assume s: "nul_free s"
  show "\<forall>c \<in> set (take (consumed r s) s). P c"
  proof (cases "seq_pieces rs s")
    case (Some ps)
    then have "take (consumed r s) s = concat ps"
      using refines_consumed [OF assms(1) s] seq_pieces_prefix [OF Some] by (simp add: seq_take_def)
    then show ?thesis using over_pieces [OF s assms(2) Some] by simp
  qed (simp add: refines_consumed [OF assms(1) s] seq_take_def)
qed

lemma over_rep_pieces:
  "over P r \<Longrightarrow> nul_free s \<Longrightarrow> \<forall>c \<in> set (concat (rep_pieces r e k s)). P c"
  by (induction r e k s rule: rep_pieces.induct) (auto simp: over_def)

lemma over_LoopUntil:
  assumes "abnf_rule_ne r" "e NUL" "over P r"
  shows "over P (ABNFLoopUntil r e minSize maxSize)"
  unfolding over_def
proof (intro allI impI)
  fix s assume s: "nul_free s"
  let ?ps = "rep_pieces r e maxSize s"
  have "consumed (ABNFLoopUntil r e minSize maxSize) s = rep_take r e minSize maxSize s"
    by (rule refines_consumed [OF refines_LoopUntil [where e = e, OF assms(1,2)] s])
  then have "take (consumed (ABNFLoopUntil r e minSize maxSize) s) s \<in> {[], concat ?ps}"
    using rep_pieces_prefix [of r e maxSize s] by (auto simp: rep_take_def Let_def)
  then show "\<forall>c \<in> set (take (consumed (ABNFLoopUntil r e minSize maxSize) s) s). P c"
    using over_rep_pieces [OF assms(3) s, of e maxSize] by auto
qed

definition is_lws :: "char \<Rightarrow> bool" where
  "is_lws c = (c \<in> {CHR 0x20, CHR 0x09, CHR 0x0D, CHR 0x0A})"

lemma class_WhiteSpace [char_class]:
  "refines ABNFCharWhiteSpace (char_take (\<lambda>c. c = CHR 0x20 \<or> c = CHR 0x09))"
  unfolding ABNFCharWhiteSpace_def ABNFCharSpace_def ABNFCharHTab_def
  by (intro class_AnyOf class_Comparison) simp_all

lemma over_mono: "over P r \<Longrightarrow> (\<And>c. P c \<Longrightarrow> Q c) \<Longrightarrow> over Q r"
  by (auto simp: over_def)

lemma over_LWS: "over is_lws ABNF_SIP_LWS"
proof -
  have ws: "over is_lws ABNFCharWhiteSpace"
    by (rule over_mono [OF over_class [OF class_WhiteSpace]]) (auto simp: is_lws_def)
  have cr: "over is_lws ABNFCharCR" "over is_lws ABNFCharLF"
    unfolding ABNFCharCR_def ABNFCharLF_def
    by (rule over_mono [OF over_class [OF class_Comparison]]; auto simp: is_lws_def)+
  have "over is_lws ABNFCharCRLF"
    unfolding ABNFCharCRLF_def
    by (rule over_seq [OF refines_LRSequence2]) (auto simp: cr intro: rule_safe)
  moreover have "over is_lws ABNFZeroOrMoreWhiteSpaces" "over is_lws ABNFOneOrMoreWhiteSpaces"
    unfolding ABNFZeroOrMoreWhiteSpaces_def ABNFOneOrMoreWhiteSpaces_def
    by (rule over_LoopUntil; simp add: ws abnf_rule_imp_ne rule_safe)+
  ultimately have "over is_lws ABNFZeroOrMoreWhiteSpacesEndedByCRLF" "over is_lws ABNFOneOrMoreWhiteSpaces"
    unfolding ABNFZeroOrMoreWhiteSpacesEndedByCRLF_def
    by (auto intro!: over_seq [OF refines_LRSequence2] rule_safe)
  then show ?thesis
    unfolding ABNF_SIP_LWS_def
    by (auto intro!: over_seq [OF refines_LRSequence2] over_Optional rule_safe intro: abnf_rule_imp_ne)
qed

text \<open>A rule over a set stops in front of the first character outside it.\<close>

lemma over_stops:
  assumes "over P r" "abnf_rule_ne r" "nul_free (a @ c # t)" "\<not> P c"
  shows "consumed r (a @ c # t) \<le> length a"
proof (rule ccontr)
  assume "\<not> ?thesis"
  then have "c \<in> set (take (consumed r (a @ c # t)) (a @ c # t))"
    by (auto simp: take_Cons' not_le)
  then show False
    using assms(1,3,4) unfolding over_def by blast
qed

lemma QdText_consumed:
  assumes "nul_free s" "s \<noteq> []"
  shows "consumed ABNFSIPQdText s = (if consumed ABNF_SIP_LWS s \<noteq> 0 then consumed ABNF_SIP_LWS s else 1)"
proof -
  let ?rs = "[ABNF_SIP_LWS, ABNFCharComparison CHR 0x21, ABNFRange 0x23 0x5B,
    ABNFRange 0x5D 0x7E, ABNFSIPUtf8NonAscii]"
  have "\<forall>r \<in> set ?rs. abnf_rule_ne r"
    by (auto intro: rule_safe abnf_rule_imp_ne)
  from any_of_ne [OF assms this, of "[]"] have "consumed ABNFSIPQdText s = choices_take ?rs s"
    by (simp add: consumed_def cstr_def ABNFSIPQdText_def ABNFAnyOfMultiple5_def)
  moreover have "consumed (ABNFCharComparison CHR 0x21) s = char_take (\<lambda>c. c = CHR 0x21) s"
    using assms by (intro refines_consumed class_Comparison) auto
  moreover have "\<not> isNull ABNF_SIP_LWS"
    by (simp add: ABNF_SIP_LWS_def)
  ultimately show ?thesis
    using assms by (simp add: consumed_Range char_take_def)
qed

abbreviation quoted_item :: rule where
  "quoted_item \<equiv> ABNFAnyOf ABNFSIPQdText ABNFSIPQuotedPair"

lemma quoted_item_consumed:
  assumes "nul_free s" "s \<noteq> []"
  shows "consumed quoted_item s = consumed ABNFSIPQdText s"
proof -
  have "parse ABNFSIPQdText (s @ NUL # []) = Some (consumed ABNFSIPQdText s)"
    using abnf_rule_ne.parse_ne [OF safe_ABNFSIPQdText assms] .
  moreover obtain c s' where "s = c # s'" "c \<noteq> NUL"
    using assms by (cases s) auto
  ultimately show ?thesis
    using QdText_takes [OF assms] consumed_eqI [of quoted_item s "consumed ABNFSIPQdText s"]
    by (simp add: ABNFAnyOf_def)
qed

lemma quoted_body:
  "length body \<le> k \<Longrightarrow> CHR 0x22 \<notin> set body \<Longrightarrow> nul_free (body @ CHR 0x22 # t) \<Longrightarrow>
   concat (rep_pieces quoted_item (ABNFLoopExitChars [CHR 0x22]) k (body @ CHR 0x22 # t)) = body"
proof (induction k arbitrary: body)
  case (Suc k)
  show ?case
  proof (cases "body = []")
    case False
    let ?s = "body @ CHR 0x22 # t"
    let ?n = "consumed quoted_item ?s"
    have n: "?n = (if consumed ABNF_SIP_LWS ?s \<noteq> 0 then consumed ABNF_SIP_LWS ?s else 1)"
      using Suc.prems(3) by (simp add: quoted_item_consumed QdText_consumed)
    moreover have "consumed ABNF_SIP_LWS ?s \<le> length body"
      using over_stops [OF over_LWS abnf_rule_imp_ne [OF safe_ABNF_SIP_LWS] Suc.prems(3)]
      by (simp add: is_lws_def)
    ultimately have le: "?n \<noteq> 0" "?n \<le> length body"
      using False by (auto simp: Suc_le_eq)
    have "\<not> ABNFLoopExitChars [CHR 0x22] (hd ?s)"
      using False Suc.prems by (cases body) (auto simp: ABNFLoopExitChars_def)
    moreover have "concat (rep_pieces quoted_item (ABNFLoopExitChars [CHR 0x22]) k (drop ?n ?s)) = drop ?n body"
    proof -
      have "length (drop ?n body) \<le> k" "CHR 0x22 \<notin> set (drop ?n body)"
          "nul_free (drop ?n body @ CHR 0x22 # t)"
        using Suc.prems le in_set_dropD [of _ ?n body] by auto
      from Suc.IH [OF this] show ?thesis using le by simp
    qed
    ultimately show ?thesis
      using le by simp
  qed (simp add: ABNFLoopExitChars_def)
qed simp

lemma quoted_loop_safe:
  "refines (ABNFLoopUntil quoted_item (ABNFLoopExitChars [CHR 0x22]) 0 1024)
     (rep_take quoted_item (ABNFLoopExitChars [CHR 0x22]) 0 1024)"
  by (intro refines_LoopUntil abnf_rule_imp_ne rule_AnyOf_first safe_ABNFSIPQdText QdText_takes) simp_all

lemma class_DQuote [char_class]: "refines ABNFCharDQuote (char_take (\<lambda>c. c = CHR 0x22))"
  unfolding ABNFCharDQuote_def by (rule class_Comparison) simp

lemma SWS_stops:
  assumes "nul_free (c # t)" "\<not> is_lws c"
  shows "consumed ABNF_SIP_SWS (c # t) = 0"
proof -
  have "consumed ABNF_SIP_SWS (c # t) = consumed ABNF_SIP_LWS (c # t)"
    unfolding ABNF_SIP_SWS_def
    using refines_consumed [OF refines_Optional [OF abnf_rule_imp_ne [OF safe_ABNF_SIP_LWS]] assms(1)] by simp
  then show ?thesis
    using over_stops [OF over_LWS abnf_rule_imp_ne [OF safe_ABNF_SIP_LWS], of "[]" c t] assms by simp
qed

text \<open>A quoted string ends at the first double quote after the opening one. The range rules of
  \<open>qdtext\<close> accept the backslash, so the quoted pair of the grammar is never tried and a
  backslash does not protect the quote that follows it.\<close>

theorem quoted_string_ends_at_first_quote:
  assumes "CHR 0x22 \<notin> set body" "length body \<le> 1024" "nul_free body" "nul_free t"
  shows "parse ABNFSIPQuotedString ((CHR 0x22 # body @ CHR 0x22 # t) @ NUL # rest) =
    Some (length body + 2)"
proof -
  let ?s = "CHR 0x22 # body @ CHR 0x22 # t"
  let ?loop = "ABNFLoopUntil quoted_item (ABNFLoopExitChars [CHR 0x22]) 0 1024"
  let ?rs = "[ABNF_SIP_SWS, ABNFCharDQuote, ?loop, ABNFCharDQuote]"
  have nf: "nul_free (body @ CHR 0x22 # t)"
    using assms by auto
  have "consumed ?loop (body @ CHR 0x22 # t) = length body"
    using refines_consumed [OF quoted_loop_safe nf] quoted_body [OF assms(2,1) nf]
    by (simp add: rep_take_def Let_def)
  moreover have "consumed ABNF_SIP_SWS ?s = 0"
    using nf by (intro SWS_stops) (auto simp: is_lws_def)
  moreover have "consumed ABNFCharDQuote (CHR 0x22 # u) = 1" if "nul_free u" for u
    using that by (subst refines_consumed [OF class_DQuote]) auto
  moreover have "isOptional ABNF_SIP_SWS"
    by (simp add: ABNF_SIP_SWS_def)
  ultimately have "seq_take ?rs ?s = length body + 2"
    using nf assms(4) by (simp add: seq_take_def Let_def)
  moreover have "refines (ABNFBaseRule (lr_sequence ?rs 0)) (seq_take ?rs)"
    using refines_rule [OF quoted_loop_safe] by (intro refines_lr_sequence) (auto intro: rule_safe)
  then have "parse (ABNFBaseRule (lr_sequence ?rs 0)) (?s @ NUL # rest) = Some (seq_take ?rs ?s)"
    by (rule refinesD) (use nf in simp)
  ultimately show ?thesis
    by (simp only: ABNFSIPQuotedString_def ABNFLRSequence4_def parse_base)
qed

theorem quoted_string_ends_at_first_quote_witness:
  "parse ABNFSIPQuotedString ((CHR 0x22 # [CHR ''a'', CHR 0x5C] @ CHR 0x22 # [CHR ''b'', CHR 0x22]) @ NUL # [])
     = Some 4"
  using quoted_string_ends_at_first_quote [of "[CHR ''a'', CHR 0x5C]" "[CHR ''b'', CHR 0x22]" "[]"]
  by simp

section \<open>Literals and long sequences\<close>

lemma literal_take_all2:
  "literal_take eq vs s \<longleftrightarrow> length vs \<le> length s \<and> list_all2 eq (take (length vs) s) vs"
proof (induction vs arbitrary: s)
  case (Cons v vs)
  then show ?case by (cases s) auto
qed simp

text \<open>C32: \<open>ABNFStringLiteral\<close> matches a literal exactly when every character of the text is
  the literal's or differs from it by 0x20. For letters this is comparison without case; for
  the solidus of the literal of \<open>ABNFSIPVersion\<close> it also admits the letter O.\<close>

theorem string_literal_match:
  assumes "cs \<noteq> []" "length cs < 50" "nul_free cs" "nul_free s"
  shows "parse (ABNFStringLiteral cs) (s @ NUL # rest) =
    Some (if length cs \<le> length s \<and>
            list_all2 (\<lambda>c v. \<bar>schar c - schar v\<bar> \<in> {0, 0x20}) (take (length cs) s) cs
          then length cs else 0)"
proof -
  have "nocase_eq = (\<lambda>c v. \<bar>schar c - schar v\<bar> \<in> {0, 0x20})"
    by (auto simp: nocase_eq_def fun_eq_iff schar_eq_iff [symmetric])
  then show ?thesis
    using refines_StringLiteral [OF assms(1-3)] assms(4)
    by (simp add: refines_def literal_take_all2)
qed

theorem string_literal_match_witness:
  "parse (ABNFStringLiteral ''SIP/'') (''sipO2.0'' @ NUL # []) = Some 4"
  using string_literal_match [of "''SIP/''" "''sipO2.0''" "[]"] by (simp add: schar_def)

lemma lr_sequence16_full:
  "\<forall>r \<in> set rs. \<not> isNull r \<Longrightarrow> lr_sequence16 rs acc m \<in> {None, Some 0}"
proof (induction rs arbitrary: acc m)
  case (Cons r rs)
  then show ?case
    by (cases "parse r m") (auto split: if_splits)
qed simp

text \<open>A sequence of sixteen rules never matches: the loop leaves through
  \<open>return startIter\<close> after the last rule. With fewer than sixteen rules it is the
  sequence of those rules.\<close>

theorem sequence16_matches:
  assumes "\<forall>r \<in> set rs. \<not> isNull r"
  shows "(length rs = 16 \<longrightarrow> parse (ABNFLRSequence16 rs) m \<in> {None, Some 0}) \<and>
    (length rs < 16 \<longrightarrow> parse (ABNFLRSequence16 rs) m = lr_sequence rs 0 m)"
proof -
  have "lr_sequence16 (qs @ ABNFLRNullRule # us) acc m = lr_sequence qs acc m"
    if "\<forall>r \<in> set qs. \<not> isNull r" for qs us acc m
    using that
    by (induction qs arbitrary: acc m) (auto simp: ABNFLRNullRule_def split: Option.bind_split)
  moreover have "\<exists>us. take (16 - length rs) (replicate 16 ABNFLRNullRule) = ABNFLRNullRule # us"
    if "length rs < 16"
    using that by (cases "16 - length rs") (auto simp: take_Cons' numeral_eq_Suc)
  ultimately show ?thesis
    using lr_sequence16_full [OF assms] assms by (auto simp: ABNFLRSequence16_def)
qed

theorem sequence16_matches_witness:
  "parse (ABNFLRSequence16 (replicate 16 ABNFCharDigit)) (replicate 16 CHR ''1'' @ [NUL]) \<in> {None, Some 0}"
  using sequence16_matches [of "replicate 16 ABNFCharDigit"] by (simp add: set_replicate)

end
