(* ===== verification/ABNF_Delim.thy ===== *)
theory ABNF_Delim
  imports ABNF_Language
begin

text \<open>
  Where a rule stops. A rule is delimited by a set of characters when text that begins with one
  of them, put behind a string, does not change what the rule takes from the string. The header
  classes cut a string with one rule and put it together again with another text in the
  middle; that the parts are found again rests on this contract. It is inherited by every
  template, and the grammar rules the header classes use have it for their own separators.
\<close>

named_theorems delim \<open>rules delimited by a set of characters\<close>

section \<open>What the templates take\<close>

lemma consumed_Optional: "abnf_rule r \<Longrightarrow> nul_free s \<Longrightarrow> consumed (ABNFLROptional r) s = consumed r s"
  using refines_consumed [OF refines_Optional [OF abnf_rule_imp_ne]] abnf_rule.consumed_Nil [of r] by simp

lemma consumed_LRSequence2:
  "abnf_rule r0 \<Longrightarrow> abnf_rule r1 \<Longrightarrow> nul_free s \<Longrightarrow> consumed (ABNFLRSequence2 r0 r1) s = seq_take [r0, r1] s"
  by (rule refines_consumed [OF refines_LRSequence2])

lemma consumed_Comparison:
  "v \<noteq> NUL \<Longrightarrow> nul_free s \<Longrightarrow> consumed (ABNFCharComparison v) s = (if s \<noteq> [] \<and> hd s = v then 1 else 0)"
  by (simp add: refines_consumed [OF class_Comparison] char_take_def)

section \<open>The contract\<close>

locale delimited = abnf_rule r for r :: rule +
  fixes D :: "char set"
  assumes delim: "nul_free (w @ x) \<Longrightarrow> x = [] \<or> hd x \<in> D \<Longrightarrow> consumed r (w @ x) = consumed r w"
begin

lemma consumed_delim: "nul_free x \<Longrightarrow> x = [] \<or> hd x \<in> D \<Longrightarrow> consumed r x = 0"
  using delim [of "[]" x] consumed_Nil by simp

lemma consumed_append_le:
  "nul_free (w @ x) \<Longrightarrow> x = [] \<or> hd x \<in> D \<Longrightarrow> consumed r (w @ x) \<le> length w"
  using delim [of w x] consumed_le [of w] by simp

text \<open>A text the rule takes whole is taken whole in front of a delimiter.\<close>

lemma consumed_whole:
  "consumed r w = length w \<Longrightarrow> nul_free (w @ x) \<Longrightarrow> x = [] \<or> hd x \<in> D \<Longrightarrow>
   consumed r (w @ x) = length w"
  using delim [of w x] by simp

lemma consumed_exchange:
  "consumed r (w @ x) = length w \<Longrightarrow> nul_free (w @ x) \<Longrightarrow> x = [] \<or> hd x \<in> D \<Longrightarrow>
   nul_free (w @ y) \<Longrightarrow> y = [] \<or> hd y \<in> D \<Longrightarrow> consumed r (w @ y) = length w"
  using delim [of w x] delim [of w y] by simp

lemma whole_no_delim:
  assumes "consumed r w = length w" "nul_free w" "c \<in> D"
  shows "c \<notin> set w"
proof
  assume "c \<in> set w"
  then obtain a b where w: "w = a @ c # b" by (auto dest: split_list)
  then have "consumed r w \<le> length a"
    using consumed_append_le [of a "c # b"] assms by simp
  then show False using w assms(1) by simp
qed

end

lemma delimited_subset: "delimited r D \<Longrightarrow> E \<subseteq> D \<Longrightarrow> delimited r E"
  unfolding delimited_def delimited_axioms_def by blast

lemma delimited_rule: "delimited r D \<Longrightarrow> abnf_rule r"
  by (simp add: delimited_def)

lemma delimited_refines:
  assumes "refines r f"
    and "\<And>w x. nul_free (w @ x) \<Longrightarrow> x = [] \<or> hd x \<in> D \<Longrightarrow> f (w @ x) = f w"
  shows "delimited r D"
proof (unfold delimited_def delimited_axioms_def, intro conjI allI impI)
  show "abnf_rule r" by (rule refines_rule [OF assms(1)])
  fix w x :: string assume "nul_free (w @ x)" "x = [] \<or> hd x \<in> D"
  then show "consumed r (w @ x) = consumed r w"
    using assms refines_consumed [OF assms(1), of "w @ x"] refines_consumed [OF assms(1), of w] by simp
qed

section \<open>The templates inherit it\<close>

lemma delim_wrap [delim]: "delimited r D \<Longrightarrow> delimited (ABNFBaseRule (parse r)) D"
  by (simp add: delimited_def delimited_axioms_def rule_wrap)

lemma delim_class:
  "refines r (char_take P) \<Longrightarrow> \<forall>c \<in> D. \<not> P c \<Longrightarrow> delimited r D"
  by (rule delimited_refines, assumption) (auto simp: char_take_def hd_append)

lemma delim_Comparison [delim]: "v \<noteq> NUL \<Longrightarrow> v \<notin> D \<Longrightarrow> delimited (ABNFCharComparison v) D"
  by (rule delim_class [OF class_Comparison]) auto

lemma delim_AnyOfChars [delim]:
  "length cs < 50 \<Longrightarrow> set cs \<inter> D = {} \<Longrightarrow> delimited (ABNFAnyOfChars cs) D"
  by (rule delim_class [OF class_AnyOfChars]) auto

lemma delim_Digit [delim]: "\<forall>c \<in> D. \<not> is_digit c \<Longrightarrow> delimited ABNFCharDigit D"
  by (rule delim_class [OF class_Digit])

lemma delim_Alpha [delim]: "\<forall>c \<in> D. \<not> is_alpha c \<Longrightarrow> delimited ABNFCharAlpha D"
  by (rule delim_class [OF class_Alpha])

definition is_hex :: "char \<Rightarrow> bool" where
  "is_hex c = (is_digit c \<or> (0x41 \<le> schar c \<and> schar c \<le> 0x46) \<or> (0x61 \<le> schar c \<and> schar c \<le> 0x66))"

lemma class_Hex [char_class]: "refines ABNFCharHex (char_take is_hex)"
  unfolding ABNFCharHex_def is_hex_def is_digit_def by (rule refines_char_rule) simp

lemma delim_Hex [delim]: "\<forall>c \<in> D. \<not> is_hex c \<Longrightarrow> delimited ABNFCharHex D"
  by (rule delim_class [OF class_Hex])

lemma delim_AnyOf [delim]:
  assumes "delimited r0 D" "delimited r1 D"
  shows "delimited (ABNFAnyOf r0 r1) D"
proof (rule delimited_refines [OF refines_AnyOf])
  show "abnf_rule_ne r0" "abnf_rule_ne r1"
    using assms by (auto intro: abnf_rule_imp_ne delimited_rule)
  fix w x assume "nul_free (w @ x)" "x = [] \<or> hd x \<in> D"
  then show "choice_take r0 r1 (w @ x) = choice_take r0 r1 w"
    using delimited.delim [OF assms(1), of w x] delimited.delim [OF assms(2), of w x]
      delimited.consumed_delim [OF assms(1), of x] delimited.consumed_delim [OF assms(2), of x]
    by (auto simp: choice_take_def)
qed

lemma delim_choices:
  assumes "\<forall>r \<in> set rs. delimited r D"
  shows "delimited (ABNFBaseRule (any_of rs)) D"
proof (rule delimited_refines [OF refines_any_of])
  show "\<forall>r \<in> set rs. abnf_rule r"
    using assms by (auto intro: delimited_rule)
  fix w x assume "nul_free (w @ x)" "x = [] \<or> hd x \<in> D"
  then show "choices_take rs (w @ x) = choices_take rs w"
    using assms by (induction rs) (auto simp: delimited.delim)
qed

lemma delim_AnyOfMultiple [delim]:
  "delimited r0 D \<Longrightarrow> delimited r1 D \<Longrightarrow> delimited r2 D \<Longrightarrow> delimited (ABNFAnyOfMultiple3 r0 r1 r2) D"
  "delimited r0 D \<Longrightarrow> delimited r1 D \<Longrightarrow> delimited r2 D \<Longrightarrow> delimited r3 D \<Longrightarrow> delimited r4 D \<Longrightarrow>
   delimited (ABNFAnyOfMultiple5 r0 r1 r2 r3 r4) D"
  unfolding ABNFAnyOfMultiple3_def ABNFAnyOfMultiple5_def by (auto intro: delim_choices)

lemma delim_Optional [delim]:
  assumes "delimited r D"
  shows "delimited (ABNFLROptional r) D"
proof (rule delimited_refines [OF refines_Optional])
  show "abnf_rule_ne r" by (rule abnf_rule_imp_ne [OF delimited_rule [OF assms]])
  fix w x assume "nul_free (w @ x)" "x = [] \<or> hd x \<in> D"
  then show "(if w @ x = [] then 0 else consumed r (w @ x)) = (if w = [] then 0 else consumed r w)"
    using delimited.delim [OF assms, of w x] delimited.consumed_delim [OF assms, of x] by auto
qed

lemma delim_pieces:
  "nul_free (w @ x) \<Longrightarrow> x = [] \<or> hd x \<in> D \<Longrightarrow> \<forall>r \<in> set rs. delimited r D \<Longrightarrow>
   seq_pieces rs (w @ x) = seq_pieces rs w"
proof (induction rs arbitrary: w)
  case (Cons r rs)
  let ?n = "consumed r w"
  have n: "consumed r (w @ x) = ?n" "?n \<le> length w"
    using Cons.prems delimited.delim [of r D w x] delimited.consumed_append_le [of r D w x] by auto
  moreover have "seq_pieces rs (drop ?n w @ x) = seq_pieces rs (drop ?n w)"
    using Cons.prems by (intro Cons.IH) auto
  ultimately show ?case by (simp add: Let_def)
qed simp

lemma delim_seq:
  "\<forall>r \<in> set rs. delimited r D \<Longrightarrow> delimited (ABNFBaseRule (lr_sequence rs 0)) D"
  by (rule delimited_refines [OF refines_lr_sequence])
    (auto simp: seq_take_def delim_pieces intro: delimited_rule)

lemma delim_LRSequence [delim]:
  "delimited r0 D \<Longrightarrow> delimited r1 D \<Longrightarrow> delimited (ABNFLRSequence2 r0 r1) D"
  "delimited r0 D \<Longrightarrow> delimited r1 D \<Longrightarrow> delimited r2 D \<Longrightarrow> delimited (ABNFLRSequence3 r0 r1 r2) D"
  "delimited r0 D \<Longrightarrow> delimited r1 D \<Longrightarrow> delimited r2 D \<Longrightarrow> delimited r3 D \<Longrightarrow>
   delimited (ABNFLRSequence4 r0 r1 r2 r3) D"
  unfolding ABNFLRSequence2_def ABNFLRSequence3_def ABNFLRSequence4_def by (auto intro: delim_seq)

lemma delim_rep_pieces:
  "nul_free (w @ x) \<Longrightarrow> x = [] \<or> hd x \<in> D \<Longrightarrow> delimited r D \<Longrightarrow>
   rep_pieces r e k (w @ x) = rep_pieces r e k w"
proof (induction k arbitrary: w)
  case (Suc k)
  show ?case
  proof (cases "w = []")
    case True
    then show ?thesis
      using Suc.prems delimited.consumed_delim [of r D x] by auto
  next
    case False
    let ?n = "consumed r w"
    have n: "consumed r (w @ x) = ?n" "?n \<le> length w"
      using Suc.prems delimited.delim [of r D w x] delimited.consumed_append_le [of r D w x] by auto
    moreover have "rep_pieces r e k (drop ?n w @ x) = rep_pieces r e k (drop ?n w)"
      using Suc.prems by (intro Suc.IH) auto
    ultimately show ?thesis using False by simp
  qed
qed simp

lemma delim_LoopUntil [delim]:
  "delimited r D \<Longrightarrow> e NUL \<Longrightarrow> delimited (ABNFLoopUntil r e minSize maxSize) D"
  by (rule delimited_refines [OF refines_LoopUntil])
    (auto simp: rep_take_def delim_rep_pieces intro: abnf_rule_imp_ne delimited_rule)

lemma delim_StrictLiteral [delim]:
  assumes "cs \<noteq> []" "length cs < 50" "nul_free cs" "set cs \<inter> D = {}"
  shows "delimited (ABNFStrictStringLiteral cs) D"
proof (rule delimited_refines [OF refines_StrictStringLiteral [OF assms(1-3)]])
  fix w x :: string assume x: "x = [] \<or> hd x \<in> D"
  have "literal_take (=) vs (w @ x) = literal_take (=) vs w" if "set vs \<inter> D = {}" for vs
    using that
  proof (induction vs arbitrary: w)
    case (Cons v vs)
    then show ?case using x by (cases w) auto
  qed simp
  then show "(if literal_take (=) cs (w @ x) then length cs else 0) =
      (if literal_take (=) cs w then length cs else 0)"
    using assms(4) by simp
qed

section \<open>The grammar rules and their separators\<close>

abbreviation uri_separators :: "char set" where
  "uri_separators \<equiv> {CHR ''@'', CHR '':'', CHR '';'', CHR ''?'', CHR ''='', CHR 0x1A}"

lemma separator_classes:
  "c \<in> uri_separators \<Longrightarrow> \<not> is_alpha c \<and> \<not> is_digit c \<and> \<not> is_hex c"
  by (auto simp: is_alpha_def is_digit_def is_hex_def schar_def)

lemma delim_letters [delim]:
  "D \<subseteq> uri_separators \<Longrightarrow> delimited ABNFCharAlpha D"
  "D \<subseteq> uri_separators \<Longrightarrow> delimited ABNFCharDigit D"
  "D \<subseteq> uri_separators \<Longrightarrow> delimited ABNFCharHex D"
  by (intro delim_Alpha delim_Digit delim_Hex ballI; use separator_classes in blast)+

lemma delim_alphanum [delim]: "D \<subseteq> uri_separators \<Longrightarrow> delimited ABNFCharAlphaNumeric D"
  unfolding ABNFCharAlphaNumeric_def by (intro delim_AnyOf delim_letters)

lemma delim_unreserved [delim]: "D \<subseteq> uri_separators \<Longrightarrow> delimited ABNF_SIP_unreserved D"
  unfolding ABNF_SIP_unreserved_def ABNF_SIP_mark_def
  by (intro delim_AnyOf delim_alphanum delim_AnyOfChars) auto

lemma delim_escaped [delim]: "D \<subseteq> uri_separators \<Longrightarrow> delimited ABNF_SIP_escaped D"
  unfolding ABNF_SIP_escaped_def by (intro delim_LRSequence delim_Comparison delim_letters) auto

lemma delim_ABNFSIPScheme [delim]: "delimited ABNFSIPScheme {CHR '':'', CHR 0x1A}"
  unfolding ABNFSIPScheme_def by (rule delim | simp)+

lemma delim_ABNF_SIP_user_unreserved [delim]: "delimited ABNF_SIP_user_unreserved {CHR ''@'', CHR '':''}"
  unfolding ABNF_SIP_user_unreserved_def by (rule delim | simp)+

lemma delim_ABNFSIPUser [delim]: "delimited ABNFSIPUser {CHR ''@'', CHR '':''}"
  unfolding ABNFSIPUser_def by (rule delim | simp)+

lemma delim_ABNFSIPPassword [delim]: "delimited ABNFSIPPassword {CHR ''@''}"
  unfolding ABNFSIPPassword_def by (rule delim | simp)+

lemma delim_userinfo_password [delim]: "delimited userinfo_password {CHR ''@''}"
  unfolding userinfo_password_def by (rule delim | simp)+

lemma delim_ABNFSIPDomainLabel [delim]: "delimited ABNFSIPDomainLabel {CHR '';'', CHR ''?'', CHR ''@''}"
  unfolding ABNFSIPDomainLabel_def by (rule delim | simp)+

lemma delim_ABNFSIPTopLabel [delim]: "delimited ABNFSIPTopLabel {CHR '';'', CHR ''?'', CHR ''@''}"
  unfolding ABNFSIPTopLabel_def by (rule delim | simp)+

lemma delim_ABNFSIPHostName [delim]: "delimited ABNFSIPHostName {CHR '';'', CHR ''?'', CHR ''@''}"
  unfolding ABNFSIPHostName_def by (rule delim | simp)+

lemma delim_ABNFSIPIPV4Address [delim]: "delimited ABNFSIPIPV4Address {CHR '';'', CHR ''?'', CHR ''@''}"
  unfolding ABNFSIPIPV4Address_def Let_def by (rule delim | simp)+

lemma delim_ABNFSIPHex4 [delim]: "delimited ABNFSIPHex4 {CHR '';'', CHR ''?'', CHR ''@''}"
  unfolding ABNFSIPHex4_def by (rule delim | simp)+

lemma delim_ABNFSIPHexSeq [delim]: "delimited ABNFSIPHexSeq {CHR '';'', CHR ''?'', CHR ''@''}"
  unfolding ABNFSIPHexSeq_def by (rule delim | simp)+

lemma delim_ABNFSIPHexPart [delim]: "delimited ABNFSIPHexPart {CHR '';'', CHR ''?'', CHR ''@''}"
  unfolding ABNFSIPHexPart_def Let_def by (rule delim | simp)+

lemma delim_ABNFSIPIPV6Address [delim]: "delimited ABNFSIPIPV6Address {CHR '';'', CHR ''?'', CHR ''@''}"
  unfolding ABNFSIPIPV6Address_def Let_def by (rule delim | simp)+

lemma delim_ABNF_SIP_IPv6reference [delim]: "delimited ABNF_SIP_IPv6reference {CHR '';'', CHR ''?'', CHR ''@''}"
  unfolding ABNF_SIP_IPv6reference_def by (rule delim | simp)+

lemma delim_ABNFSIPHost [delim]: "delimited ABNFSIPHost {CHR '';'', CHR ''?'', CHR ''@''}"
  unfolding ABNFSIPHost_def by (rule delim | simp)+

lemma delim_ABNFSIPPort [delim]: "delimited ABNFSIPPort {CHR '';'', CHR ''?'', CHR ''@''}"
  unfolding ABNFSIPPort_def by (rule delim | simp)+

lemma delim_hostport_port [delim]: "delimited hostport_port {CHR '';'', CHR ''?'', CHR ''@''}"
  unfolding hostport_port_def by (rule delim | simp)+

lemma delim_ABNFSIPHostPort [delim]: "delimited ABNFSIPHostPort {CHR '';'', CHR ''?'', CHR ''@''}"
  unfolding ABNFSIPHostPort_def by (rule delim | simp)+

lemma delim_ABNF_SIP_param_unreserved [delim]: "delimited ABNF_SIP_param_unreserved {CHR '';'', CHR ''?'', CHR ''@'', CHR ''=''}"
  unfolding ABNF_SIP_param_unreserved_def by (rule delim | simp)+

lemma delim_ABNF_SIP_paramchar [delim]: "delimited ABNF_SIP_paramchar {CHR '';'', CHR ''?'', CHR ''@'', CHR ''=''}"
  unfolding ABNF_SIP_paramchar_def by (rule delim | simp)+

lemma delim_ABNF_SIP_pname [delim]: "delimited ABNF_SIP_pname {CHR '';'', CHR ''?'', CHR ''@'', CHR ''=''}"
  unfolding ABNF_SIP_pname_def by (rule delim | simp)+

lemma delim_ABNF_SIP_pvalue [delim]: "delimited ABNF_SIP_pvalue {CHR '';'', CHR ''?'', CHR ''@'', CHR ''=''}"
  unfolding ABNF_SIP_pvalue_def by (rule delim | simp)+

lemma delim_params_sep [delim]:
  "delimited ABNF_SIP_pname {CHR ''?'', CHR ''@''}" "delimited ABNF_SIP_pvalue {CHR ''?'', CHR ''@''}"
  by (rule delimited_subset [OF delim_ABNF_SIP_pname] delimited_subset [OF delim_ABNF_SIP_pvalue];
      simp)+

lemma delim_ABNFSIPURIParameter [delim]: "delimited ABNFSIPURIParameter {CHR ''?'', CHR ''@''}"
  unfolding ABNFSIPURIParameter_def by (rule delim | simp)+

lemma delim_uri_parameter_item [delim]: "delimited uri_parameter_item {CHR ''?'', CHR ''@''}"
  unfolding uri_parameter_item_def by (rule delim | simp)+

lemma delim_ABNFSIPURIParameters [delim]: "delimited ABNFSIPURIParameters {CHR ''?'', CHR ''@''}"
  unfolding ABNFSIPURIParameters_def by (rule delim | simp)+

lemma delim_header_unreserved [delim]: "delimited ABNF_SIP_header_unreserved {CHR ''@''}"
  unfolding ABNF_SIP_header_unreserved_def ABNF_SIP_header_mark_def by (rule delim | simp)+

lemma delim_ABNF_SIP_hnv_unreserved [delim]: "delimited ABNF_SIP_hnv_unreserved {CHR ''@''}"
  unfolding ABNF_SIP_hnv_unreserved_def by (rule delim | simp)+

lemma delim_ABNF_SIP_hparamchar [delim]: "delimited ABNF_SIP_hparamchar {CHR ''@''}"
  unfolding ABNF_SIP_hparamchar_def by (rule delim | simp)+

lemma delim_ABNF_SIP_hnparamchar [delim]: "delimited ABNF_SIP_hnparamchar {CHR ''@''}"
  unfolding ABNF_SIP_hnparamchar_def by (rule delim | simp)+

lemma delim_ABNF_SIP_hname [delim]: "delimited ABNF_SIP_hname {CHR ''@''}"
  unfolding ABNF_SIP_hname_def by (rule delim | simp)+

lemma delim_ABNF_SIP_hvalue [delim]: "delimited ABNF_SIP_hvalue {CHR ''@''}"
  unfolding ABNF_SIP_hvalue_def by (rule delim | simp)+

lemma delim_ABNFSIPURIHeader [delim]: "delimited ABNFSIPURIHeader {CHR ''@''}"
  unfolding ABNFSIPURIHeader_def by (rule delim | simp)+

lemma delim_uri_header_rest [delim]: "delimited uri_header_rest {CHR ''@''}"
  unfolding uri_header_rest_def by (rule delim | simp)+

lemma delim_ABNFSIPURIHeaders [delim]: "delimited ABNFSIPURIHeaders {CHR ''@''}"
  unfolding ABNFSIPURIHeaders_def by (rule delim | simp)+

interpretation scheme: delimited ABNFSIPScheme "{CHR '':'', CHR 0x1A}"
  by (rule delim_ABNFSIPScheme)

interpretation user: delimited ABNFSIPUser "{CHR ''@'', CHR '':''}"
  by (rule delim_ABNFSIPUser)

interpretation password: delimited ABNFSIPPassword "{CHR ''@''}"
  by (rule delim_ABNFSIPPassword)

interpretation hostport: delimited ABNFSIPHostPort "{CHR '';'', CHR ''?'', CHR ''@''}"
  by (rule delim_ABNFSIPHostPort)

interpretation params: delimited ABNFSIPURIParameters "{CHR ''?'', CHR ''@''}"
  by (rule delim_ABNFSIPURIParameters)

interpretation headers: delimited ABNFSIPURIHeaders "{CHR ''@''}"
  by (rule delim_ABNFSIPURIHeaders)

interpretation pname: delimited ABNF_SIP_pname "{CHR '';'', CHR ''?'', CHR ''@'', CHR ''=''}"
  by (rule delim_ABNF_SIP_pname)

interpretation pvalue: delimited ABNF_SIP_pvalue "{CHR '';'', CHR ''?'', CHR ''@'', CHR ''=''}"
  by (rule delim_ABNF_SIP_pvalue)

end
