(* ===== verification/SIP_Parser.thy ===== *)
theory SIP_Parser
  imports ABNF_Core
begin

text \<open>
  The helpers of \<^verbatim>\<open>sipparser/SIPParser.cpp\<close>: escaping, quoting, character tests and
  default reason phrases, with the string functions of \<^verbatim>\<open>utl/CoreUtils.cpp\<close> they use.
  Output parameters of type \<open>std::string&\<close> are results; \<^const>\<open>None\<close> is an access
  outside a string.
\<close>

section \<open>Definitions\<close>

text \<open>The exception of the parser classes, with its message.\<close>

datatype parser_exception = SIPParserException string

subsection \<open>Percent escapes\<close>

definition safeChars :: string where
  "safeChars = ''abcdefghijklmnopqrstuvwxyz'' @ ''ABCDEFGHIJKLMNOPQRSTUVWXYZ'' @
     ''0123456789$-_.!*'' @ [CHR 0x27] @ ''(),+#''"

definition hex_upper :: "nat \<Rightarrow> char" where
  "hex_upper n = ''0123456789ABCDEF'' ! n"

text \<open>\<open>sprintf("%%%02X", (unsigned char)c)\<close>; three characters and the NUL fit the buffer of
  four, so \<open>string_sprintf_string<4>\<close> succeeds.\<close>

definition sprintf_escape :: "char \<Rightarrow> string" where
  "sprintf_escape c = [CHR ''%'', hex_upper (of_char c div 16), hex_upper (of_char c mod 16)]"

text \<open>One round of the loop copies the span of valid characters and escapes the character that
  ends it.\<close>

function escape_loop :: "string \<Rightarrow> string \<Rightarrow> string" where
  "escape_loop validChars s =
     (let span = takeWhile (\<lambda>c. c \<in> set validChars) s in
      case drop (length span) s of
        [] \<Rightarrow> span
      | c # rest \<Rightarrow> span @ sprintf_escape c @ escape_loop validChars rest)"
  by pat_completeness auto
termination
proof (relation "measure (\<lambda>(v, s). length s)", simp)
  fix validChars s :: string and span c rest
  assume "span = takeWhile (\<lambda>c. c \<in> set validChars) s" "drop (length span) s = c # rest"
  then have "length rest < length s"
    by (metis Suc_le_lessD length_Cons length_drop diff_le_self)
  then show "((validChars, rest), validChars, s) \<in> measure (\<lambda>(v, s). length s)"
    by simp
qed

declare escape_loop.simps [simp del]

definition SIPParser_escape :: "mem \<Rightarrow> mem option \<Rightarrow> string option" where
  "SIPParser_escape str validChars = do {
     s \<leftarrow> str_of str;
     v \<leftarrow> (case validChars of None \<Rightarrow> Some safeChars | Some v \<Rightarrow> str_of v);
     Some (escape_loop v s)
   }"

text \<open>\<open>isxdigit\<close>, and the value the code computes of a hexadecimal digit.\<close>

definition isxdigit :: "char \<Rightarrow> bool" where
  "isxdigit c = ((0x30 \<le> schar c \<and> schar c \<le> 0x39) \<or> (0x41 \<le> schar c \<and> schar c \<le> 0x46) \<or>
     (0x61 \<le> schar c \<and> schar c \<le> 0x66))"

definition hex_value :: "char \<Rightarrow> int" where
  "hex_value c =
     (if 0x30 \<le> schar c \<and> schar c \<le> 0x39 then schar c - 0x30
      else (if 0x61 \<le> schar c \<and> schar c \<le> 0x7A then schar c - 0x20 else schar c) - 0x41 + 10)"

text \<open>The text from \<open>pos + 1\<close> on; \<open>result[result.size()]\<close> is NUL, and reading
  \<open>result[result.size() + 1]\<close> is a fault.\<close>

fun unescape_loop :: "string \<Rightarrow> string option" where
  "unescape_loop [] = Some []"
| "unescape_loop (c # s) =
     (if c \<noteq> CHR ''%'' then map_option ((#) c) (unescape_loop s)
      else (case s of
        [] \<Rightarrow> None
      | [d1] \<Rightarrow> map_option ((#) c) (unescape_loop s)
      | d1 # d2 # rest \<Rightarrow>
          if isxdigit d1 \<and> isxdigit d2
          then map_option ((#) (char_of (hex_value d2 + hex_value d1 * 16))) (unescape_loop rest)
          else map_option ((#) c) (unescape_loop s)))"

definition SIPParser_unescape :: "mem \<Rightarrow> string option" where
  "SIPParser_unescape str = do { s \<leftarrow> str_of str; unescape_loop s }"

subsection \<open>Quotes\<close>

definition isspace :: "char \<Rightarrow> bool" where
  "isspace c = (c \<in> {CHR 0x20, CHR 0x09, CHR 0x0A, CHR 0x0B, CHR 0x0C, CHR 0x0D})"

text \<open>The loop over \<open>front\<close> and the loop over \<open>back\<close>.\<close>

fun trim_front :: "string \<Rightarrow> string" where
  "trim_front [] = []"
| "trim_front (c # s) = (if isspace c then trim_front s else c # s)"

definition string_trim :: "string \<Rightarrow> string" where
  "string_trim s = rev (trim_front (rev (trim_front s)))"

text \<open>\<open>s[i]\<close>: the terminator at \<open>i = s.size()\<close>, a fault behind it. \<open>s.size() - 1\<close> of
  the empty string wraps to the largest \<open>size_t\<close>.\<close>

definition string_index :: "string \<Rightarrow> nat \<Rightarrow> char option" where
  "string_index s i = (if i < length s then Some (s ! i) else if i = length s then Some NUL else None)"

definition last_index :: "string \<Rightarrow> nat" where
  "last_index s = (if s = [] then 2 ^ 64 - 1 else length s - 1)"

definition SIPParser_unquoteString :: "string \<Rightarrow> string option" where
  "SIPParser_unquoteString quotedString = (let s = string_trim quotedString in do {
     c0 \<leftarrow> string_index s 0;
     if c0 = CHR 0x22 then do {
       c1 \<leftarrow> string_index s (last_index s);
       Some (if c1 = CHR 0x22 then take (if length s < 2 then length s else length s - 2) (drop 1 s)
             else s)
     } else Some s
   })"

definition SIPParser_enquoteString :: "string \<Rightarrow> string option" where
  "SIPParser_enquoteString quotedString = (let s = string_trim quotedString in do {
     c0 \<leftarrow> string_index s 0;
     if c0 \<noteq> CHR 0x22 then do {
       c1 \<leftarrow> string_index s (last_index s);
       Some (if c1 \<noteq> CHR 0x22 then CHR 0x22 # s @ [CHR 0x22] else s)
     } else Some s
   })"

subsection \<open>Characters, reason phrases and identifiers\<close>

definition SIPParser_isChar :: "int \<Rightarrow> bool" where
  "SIPParser_isChar c = (c \<ge> 0 \<and> c \<le> 127)"

definition SIPParser_isCtl :: "int \<Rightarrow> bool" where
  "SIPParser_isCtl c = ((c \<ge> 0 \<and> c \<le> 31) \<or> c = 127)"

definition SIPParser_isDigit :: "int \<Rightarrow> bool" where
  "SIPParser_isDigit c = (c \<ge> 0x30 \<and> c \<le> 0x39)"

text \<open>The reason phrases by status class, and the phrase of a class for the codes without an
  entry.\<close>

definition reasons_1xx :: "(int \<times> string) list" where
  "reasons_1xx =
    [(100, ''Trying''), (180, ''Ringing''), (181, ''Call Is Being Forwarded''),
     (182, ''Queued''), (183, ''Session Progress'')]"

definition reasons_2xx :: "(int \<times> string) list" where
  "reasons_2xx =
    [(200, ''OK''), (202, ''Accepted'')]"

definition reasons_3xx :: "(int \<times> string) list" where
  "reasons_3xx =
    [(300, ''Multiple Choices''), (301, ''Moved Permanently''), (302, ''Moved Temporarily''),
     (305, ''Use Proxy''), (380, ''Alternative Service'')]"

definition reasons_4xx :: "(int \<times> string) list" where
  "reasons_4xx =
    [(400, ''Bad Request''), (401, ''Unauthorized''), (402, ''Payment Required''),
     (403, ''Forbidden''), (404, ''Not Found''), (405, ''Method Not Allowed''),
     (406, ''Not Acceptable''), (407, ''Proxy Authentication Required''),
     (408, ''Request Timeout''), (409, ''Conflict''), (410, ''Gone''),
     (411, ''Length Required''), (412, ''Conditional Request Failed''),
     (413, ''Request Entity Too Large''), (414, ''Request-URI Too Large''),
     (415, ''Unsupported Media Type''), (416, ''Unsupported Uri Scheme''),
     (420, ''Bad Extension''), (422, ''Session Interval Too Small''),
     (423, ''Interval Too Short''), (480, ''Temporarily not available''),
     (481, ''Call Leg/Transaction Does Not Exist''), (482, ''Loop Detected''),
     (483, ''Too Many Hops''), (484, ''Address Incomplete''), (485, ''Ambiguous''),
     (486, ''Busy Here''), (487, ''Request Cancelled''), (488, ''Not Acceptable Here''),
     (489, ''Bad Event''), (491, ''Request Pending'')]"

definition reasons_5xx :: "(int \<times> string) list" where
  "reasons_5xx =
    [(500, ''Internal Server Error''), (501, ''Not Implemented''), (502, ''Bad Gateway''),
     (503, ''Service Unavailable''), (504, ''Gateway Time-out''),
     (505, ''SIP Version not supported'')]"

definition reasons_6xx :: "(int \<times> string) list" where
  "reasons_6xx =
    [(600, ''Busy Everywhere''), (603, ''Decline''), (604, ''Does not exist anywhere''),
     (606, ''Not Acceptable'')]"

definition reason_of :: "(int \<times> string) list \<Rightarrow> int \<Rightarrow> string \<Rightarrow> string" where
  "reason_of table statusCode other =
     (case map_of table statusCode of Some phrase \<Rightarrow> phrase | None \<Rightarrow> other)"

definition SIPParser_getReasonPhrase :: "int \<Rightarrow> string \<Rightarrow> string" where
  "SIPParser_getReasonPhrase statusCode reasonPhrase =
     (if reasonPhrase \<noteq> [] then reasonPhrase
      else let i = statusCode div 100 in
        if i = 1 then reason_of reasons_1xx statusCode ''Trying''
        else if i = 2 then reason_of reasons_2xx statusCode ''OK''
        else if i = 3 then reason_of reasons_3xx statusCode ''Multiple Choices''
        else if i = 4 then reason_of reasons_4xx statusCode ''Bad Request''
        else if i = 5 then reason_of reasons_5xx statusCode ''Internal Server Error''
        else if i = 6 then reason_of reasons_6xx statusCode ''Busy Everywhere''
        else ''Reason Unknown'')"

text \<open>The identifiers are made from a fresh UUID, the parameter \<open>uuid\<close>.\<close>

definition SIPParser_createBranchString :: "string \<Rightarrow> string" where
  "SIPParser_createBranchString uuid = ''z9hG4bK'' @ uuid"

definition SIPParser_createTagString :: "string \<Rightarrow> string" where
  "SIPParser_createTagString uuid = uuid"

section \<open>Escaping\<close>

lemma escape_loop_Nil [simp]: "escape_loop v [] = []"
  by (simp add: escape_loop.simps)

lemma escape_loop_Cons:
  "escape_loop v (c # s) = (if c \<in> set v then [c] else sprintf_escape c) @ escape_loop v s"
proof (cases "c \<in> set v")
  case True
  then show ?thesis
    by (simp add: escape_loop.simps [of v "c # s"] escape_loop.simps [of v s] Let_def split: list.split)
qed (simp add: escape_loop.simps [of v "c # s"])

text \<open>The span loop is a map over the characters.\<close>

lemma escape_loop_map:
  "escape_loop v s = concat (map (\<lambda>c. if c \<in> set v then [c] else sprintf_escape c) s)"
  by (induction s) (simp_all add: escape_loop_Cons)

lemma hex_upper_digit:
  assumes "n < 16"
  shows "isxdigit (hex_upper n) \<and> hex_value (hex_upper n) = int n"
proof -
  have "\<forall>n \<in> set [0..<16]. isxdigit (hex_upper n) \<and> hex_value (hex_upper n) = int n"
    by code_simp
  then show ?thesis using assms by simp
qed

lemma nibbles: "(of_char c :: nat) div 16 < 16" "(of_char c :: nat) mod 16 < 16"
  using nat_of_char_less_256 [of c] by (simp_all add: less_mult_imp_div_less)

lemma unescape_sprintf: "unescape_loop (sprintf_escape c @ s) = map_option ((#) c) (unescape_loop s)"
proof -
  let ?n = "of_char c :: nat"
  have hex: "isxdigit (hex_upper (?n div 16))" "isxdigit (hex_upper (?n mod 16))"
    "hex_value (hex_upper (?n div 16)) = int (?n div 16)"
    "hex_value (hex_upper (?n mod 16)) = int (?n mod 16)"
    using hex_upper_digit [OF nibbles(1)] hex_upper_digit [OF nibbles(2)] by simp_all
  have "int (?n mod 16) + int (?n div 16) * 16 = int ?n"
    by (metis mod_div_mult_eq of_nat_add of_nat_mult of_nat_numeral)
  then have "char_of (int (?n mod 16) + int (?n div 16) * 16) = c"
    by (simp add: of_nat_of_char)
  then show ?thesis
    using hex by (simp add: sprintf_escape_def)
qed

lemma unescape_escape:
  "CHR ''%'' \<notin> set v \<Longrightarrow> unescape_loop (escape_loop v s) = Some s"
proof (induction s)
  case (Cons c s)
  then show ?case by (auto simp: escape_loop_Cons unescape_sprintf)
qed simp

lemma sprintf_nul_free: "nul_free (sprintf_escape c)"
proof -
  have "\<not> isxdigit NUL"
    by (simp add: isxdigit_def)
  then have "NUL \<noteq> hex_upper n" if "n < 16" for n
    using hex_upper_digit [OF that] by metis
  from this [OF nibbles(1) [of c]] this [OF nibbles(2) [of c]] show ?thesis
    by (simp add: sprintf_escape_def)
qed

lemma escape_nul_free: "nul_free s \<Longrightarrow> nul_free (escape_loop v s)"
  by (induction s) (auto simp: escape_loop_Cons sprintf_nul_free)

text \<open>C28: round trip of the URI escapes. Whatever the text and the set of characters left alone,
  as long as the percent sign is not one of them, unescaping the escaped text gives the text
  back; neither function leaves its buffers.\<close>

theorem escape_roundtrip:
  assumes "nul_free s" "nul_free v" "CHR ''%'' \<notin> set v"
  shows "\<exists>e. SIPParser_escape (cstr s) (Some (cstr v)) = Some e \<and> SIPParser_unescape (cstr e) = Some s"
proof -
  have "nul_free (escape_loop v s)"
    using assms(1) by (rule escape_nul_free)
  then show ?thesis
    using assms by (simp add: SIPParser_escape_def SIPParser_unescape_def cstr_def unescape_escape)
qed

theorem escape_roundtrip_witness:
  "\<exists>e. SIPParser_escape (cstr ''bob%40 x'') (Some (cstr ''abox'')) = Some e \<and>
     SIPParser_unescape (cstr e) = Some ''bob%40 x''"
  by (rule escape_roundtrip) simp_all

text \<open>\<open>unescape\<close> of a text that ends in a percent sign reads the byte two places behind
  it, outside the string: the second digit is read before the first one is tested.\<close>

theorem unescape_trailing_percent:
  assumes "CHR ''%'' \<notin> set s" "nul_free s"
  shows "SIPParser_unescape (cstr (s @ ''%'')) = None"
proof -
  have "unescape_loop (s @ ''%'') = None"
    using assms(1) by (induction s) auto
  then show ?thesis
    using assms(2) str_of_cstr [of "s @ ''%''" "[]"] by (simp add: SIPParser_unescape_def cstr_def)
qed

theorem unescape_trailing_percent_witness:
  "SIPParser_unescape (cstr (''100'' @ ''%'')) = None"
  by (rule unescape_trailing_percent) simp_all

section \<open>Quoting\<close>

lemma trim_front_id: "s \<noteq> [] \<Longrightarrow> \<not> isspace (hd s) \<Longrightarrow> trim_front s = s"
  by (cases s) simp_all

lemma string_trim_id: "s \<noteq> [] \<Longrightarrow> \<not> isspace (hd s) \<Longrightarrow> \<not> isspace (last s) \<Longrightarrow> string_trim s = s"
  by (simp add: string_trim_def trim_front_id hd_rev)

text \<open>\<open>enquoteString\<close> trims a text and puts it in quotes unless it has a quote at an end,
  and \<open>unquoteString\<close> takes the quotes away again. On a text of blanks
  \<open>enquoteString\<close> reads outside the empty string that is left.\<close>

theorem enquote_unquote:
  shows "(let t = string_trim s in
     if t = [] then SIPParser_enquoteString s = None
     else if hd t \<noteq> CHR 0x22 \<and> last t \<noteq> CHR 0x22
     then SIPParser_enquoteString s = Some (CHR 0x22 # t @ [CHR 0x22]) \<and>
          SIPParser_unquoteString (CHR 0x22 # t @ [CHR 0x22]) = Some t
     else SIPParser_enquoteString s = Some t)"
proof -
  let ?t = "string_trim s"
  have "string_trim (CHR 0x22 # ?t @ [CHR 0x22]) = CHR 0x22 # ?t @ [CHR 0x22]"
    by (rule string_trim_id) (auto simp: isspace_def)
  then show ?thesis
    by (auto simp: SIPParser_enquoteString_def SIPParser_unquoteString_def Let_def string_index_def
        last_index_def hd_conv_nth last_conv_nth nth_append)
qed

end
