(* ===== verification/SIP_CSeq.thy ===== *)
theory SIP_CSeq
  imports ABNF_Search ABNF_Language
begin

text \<open>
  The CSeq header, \<^verbatim>\<open>sipparser/SIPCSeq.cpp\<close>. The state of the class is its string
  \<open>_data\<close>; the methods of an object call the static functions modelled here on it. A
  function with an output parameter takes the value the parameter had and returns the value it
  has afterwards, beside the \<open>bool\<close> result. \<open>boost::to_upper\<close> and
  \<open>boost::lexical_cast<int>\<close> are parameters of the definitions that use them.
\<close>

section \<open>Definitions\<close>

definition lwsFinder_1 :: rule where
  "lwsFinder_1 = ABNFWhileNot ABNF_SIP_LWS False"

definition lwsFinder_2 :: rule where
  "lwsFinder_2 = ABNFWhileNot ABNF_SIP_LWS True"

definition SIPCSeq_default :: string where
  "SIPCSeq_default = ''UNKNOWN 0''"

definition SIPCSeq_getMethod ::
    "(string \<Rightarrow> string) \<Rightarrow> string \<Rightarrow> string \<Rightarrow> (bool \<times> string) option" where
  "SIPCSeq_getMethod to_upper cseq method = do {
     n \<leftarrow> parse lwsFinder_2 (cstr cseq);
     if n = 0 then Some (False, method)
     else do {
       m \<leftarrow> str_of (drop n (cstr cseq));
       Some (True, to_upper m)
     }
   }"

definition SIPCSeq_setMethod :: "string \<Rightarrow> mem \<Rightarrow> (bool \<times> string) option" where
  "SIPCSeq_setMethod cseq method = do {
     n \<leftarrow> parse lwsFinder_2 (cstr cseq);
     if n = 0 then Some (False, cseq)
     else do {
       m \<leftarrow> str_of method;
       Some (True, take n (cstr cseq) @ m)
     }
   }"

definition SIPCSeq_getNumber :: "string \<Rightarrow> string \<Rightarrow> (bool \<times> string) option" where
  "SIPCSeq_getNumber cseq number = do {
     n \<leftarrow> parse lwsFinder_1 (cstr cseq);
     Some (if n = 0 then (False, number) else (True, take n (cstr cseq)))
   }"

definition SIPCSeq_setNumber :: "string \<Rightarrow> string \<Rightarrow> (bool \<times> string) option" where
  "SIPCSeq_setNumber cseq number = do {
     n \<leftarrow> parse lwsFinder_1 (cstr cseq);
     if n = 0 then Some (False, cseq)
     else do {
       rest \<leftarrow> str_of (drop n (cstr cseq));
       Some (True, number @ rest)
     }
   }"

text \<open>\<open>string_to_number<int>\<close> is \<open>lexical_cast\<close> with a default for the case that it
  throws; \<open>string_from_number<int>\<close> is \<open>lexical_cast\<close> to a string, the parameter
  \<open>from_int\<close>.\<close>

definition string_to_int :: "(string \<Rightarrow> int option) \<Rightarrow> string \<Rightarrow> int" where
  "string_to_int lexical_cast s = (case lexical_cast s of Some i \<Rightarrow> i | None \<Rightarrow> 0)"

definition SIPCSeq_getNumber_int ::
    "(string \<Rightarrow> int option) \<Rightarrow> string \<Rightarrow> int option \<Rightarrow> (bool \<times> int option) option" where
  "SIPCSeq_getNumber_int lexical_cast cseq number = do {
     (ok, cseqNumber) \<leftarrow> SIPCSeq_getNumber cseq [];
     c \<leftarrow> str_of (cstr cseqNumber);
     Some (if ok then (True, Some (string_to_int lexical_cast c)) else (False, number))
   }"

definition SIPCSeq_setNumber_int :: "(int \<Rightarrow> string) \<Rightarrow> string \<Rightarrow> int \<Rightarrow> (bool \<times> string) option" where
  "SIPCSeq_setNumber_int from_int cseq number = SIPCSeq_setNumber cseq (from_int number)"

text \<open>The local variable of \<open>getNumberAsUint\<close> has no initial value; \<^const>\<open>None\<close> is
  its value when nothing was assigned.\<close>

definition SIPCSeq_getNumberAsUint :: "(string \<Rightarrow> int option) \<Rightarrow> string \<Rightarrow> int option" where
  "SIPCSeq_getNumberAsUint lexical_cast cseq = do {
     (ok, number) \<leftarrow> SIPCSeq_getNumber_int lexical_cast cseq None;
     number
   }"

section \<open>Where the header is split\<close>

lemma CRLF_stops: "nul_free s \<Longrightarrow> s = [] \<or> \<not> is_lws (hd s) \<Longrightarrow> consumed ABNFCharCRLF s = 0"
proof -
  assume s: "nul_free s" "s = [] \<or> \<not> is_lws (hd s)"
  have "consumed ABNFCharCR s = char_take (\<lambda>c. c = CHR 0x0D) s"
    unfolding ABNFCharCR_def using s(1) by (intro refines_consumed class_Comparison) simp_all
  then have "consumed ABNFCharCR s = 0"
    using s(2) by (auto simp: char_take_def is_lws_def)
  moreover have "\<not> isOptional ABNFCharCR"
    by (simp add: ABNFCharCR_def)
  ultimately show ?thesis
    unfolding ABNFCharCRLF_def using s(1)
    by (subst refines_consumed [OF refines_LRSequence2]) (auto simp: seq_take_def intro: rule_safe)
qed

text \<open>A single space in front of something that is not white space is taken as linear white
  space, and nothing more.\<close>

lemma LWS_single:
  assumes "nul_free b" "b = [] \<or> \<not> is_lws (hd b)"
  shows "consumed ABNF_SIP_LWS (CHR '' '' # b) = 1"
proof -
  let ?s = "CHR '' '' # b" and ?ws = "\<lambda>c. c = CHR 0x20 \<or> c = CHR 0x09"
  have nf: "nul_free ?s" using assms(1) by simp
  have b: "takeWhile ?ws (take k b) = []" for k
    using assms(2) by (cases b; cases k) (auto simp: is_lws_def)
  have "length (takeWhile ?ws (take 256 ?s)) = 1"
    using b by (simp add: take_Cons')
  then have "consumed ABNFZeroOrMoreWhiteSpaces ?s = 1" "consumed ABNFOneOrMoreWhiteSpaces ?s = 1"
    unfolding ABNFZeroOrMoreWhiteSpaces_def ABNFOneOrMoreWhiteSpaces_def
    by (simp_all add: loop_class_consumed [OF class_WhiteSpace nf])
  moreover have "isOptional ABNFZeroOrMoreWhiteSpaces" "\<not> isOptional ABNFCharCRLF"
    by (simp_all add: ABNFZeroOrMoreWhiteSpaces_def ABNFCharCRLF_def)
  ultimately have "consumed ABNFZeroOrMoreWhiteSpacesEndedByCRLF ?s = 0"
    unfolding ABNFZeroOrMoreWhiteSpacesEndedByCRLF_def
    using CRLF_stops [OF assms] refines_consumed [OF refines_LRSequence2 nf, OF safe_ABNFZeroOrMoreWhiteSpaces safe_ABNFCharCRLF]
    by (simp add: seq_take_def)
  then have "consumed (ABNFLROptional ABNFZeroOrMoreWhiteSpacesEndedByCRLF) ?s = 0"
    using refines_consumed [OF refines_Optional nf, OF abnf_rule_imp_ne, OF safe_ABNFZeroOrMoreWhiteSpacesEndedByCRLF]
    by simp
  then show ?thesis
    unfolding ABNF_SIP_LWS_def
    using \<open>consumed ABNFOneOrMoreWhiteSpaces ?s = 1\<close>
      refines_consumed [OF refines_LRSequence2 nf, OF rule_Optional safe_ABNFOneOrMoreWhiteSpaces,
        OF abnf_rule_imp_ne, OF safe_ABNFZeroOrMoreWhiteSpacesEndedByCRLF]
    by (simp add: seq_take_def Let_def)
qed

lemma LWS_stops: "nul_free s \<Longrightarrow> s = [] \<or> \<not> is_lws (hd s) \<Longrightarrow> consumed ABNF_SIP_LWS s = 0"
  using over_stops [OF over_LWS abnf_rule_imp_ne [OF safe_ABNF_SIP_LWS], of "[]"]
    abnf_rule.consumed_Nil [OF safe_ABNF_SIP_LWS] by (cases s) auto

section \<open>Number and method\<close>

text \<open>The header as the pair the class stands for.\<close>

definition cseq_text :: "string \<Rightarrow> string \<Rightarrow> string" where
  "cseq_text number method = number @ CHR '' '' # method"

definition cseq_wf :: "string \<Rightarrow> string \<Rightarrow> bool" where
  "cseq_wf number method = (number \<noteq> [] \<and> (\<forall>c \<in> set number. \<not> is_lws c) \<and> nul_free number \<and>
     method \<noteq> [] \<and> \<not> is_lws (hd method) \<and> nul_free method)"

lemma cseq_nul_free: "cseq_wf a b \<Longrightarrow> nul_free (cseq_text a b)"
  by (simp add: cseq_wf_def cseq_text_def)

lemma cseq_first_match:
  assumes "cseq_wf a b"
  shows "first_match ABNF_SIP_LWS (cseq_text a b) = Some (length a)"
proof -
  have b: "nul_free b" "b = [] \<or> \<not> is_lws (hd b)"
    using assms by (auto simp: cseq_wf_def)
  have "consumed ABNF_SIP_LWS (drop j (cseq_text a b)) = 0" if "j < length a" for j
  proof (rule LWS_stops)
    have "hd (drop j (cseq_text a b)) = a ! j"
      using that by (simp add: cseq_text_def hd_drop_conv_nth nth_append)
    then show "drop j (cseq_text a b) = [] \<or> \<not> is_lws (hd (drop j (cseq_text a b)))"
      using assms that by (simp add: cseq_wf_def)
  qed (rule nul_free_drop [OF cseq_nul_free [OF assms]])
  then show ?thesis
    using LWS_single [OF b] by (simp add: first_match_least) (simp add: cseq_text_def)
qed

lemma cseq_run: "cseq_wf a b \<Longrightarrow> run_length ABNF_SIP_LWS (CHR '' '' # b) = 1"
  using LWS_single [of b] LWS_stops [of b]
  by (simp add: cseq_wf_def run_length.simps [of _ "CHR '' '' # b"] run_length.simps [of _ b])

lemma cseq_finders:
  assumes "cseq_wf a b"
  shows "parse lwsFinder_1 (cstr (cseq_text a b)) = Some (length a)"
    and "parse lwsFinder_2 (cstr (cseq_text a b)) = Some (length a + 1)"
  using refinesD [OF refines_WhileNot [OF safe_ABNF_SIP_LWS] cseq_nul_free [OF assms], of _ "[]"]
    cseq_first_match [OF assms] cseq_run [OF assms]
  by (simp_all add: lwsFinder_1_def lwsFinder_2_def cstr_def while_not_take_def)
    (simp add: cseq_text_def)

lemma cseq_rest:
  assumes "cseq_wf a b"
  shows "str_of (drop (length a) (cstr (cseq_text a b))) = Some (CHR '' '' # b)"
    and "str_of (drop (Suc (length a)) (cstr (cseq_text a b))) = Some b"
  using assms str_of_cstr [of "CHR '' '' # b" "[]"] by (simp_all add: cseq_text_def cstr_def cseq_wf_def)

lemma cseq_getters:
  assumes "cseq_wf number method"
  shows "SIPCSeq_getNumber (cseq_text number method) old = Some (True, number)"
    "SIPCSeq_getMethod to_upper (cseq_text number method) old = Some (True, to_upper method)"
proof -
  have "number \<noteq> []" using assms by (simp add: cseq_wf_def)
  then show "SIPCSeq_getNumber (cseq_text number method) old = Some (True, number)"
    "SIPCSeq_getMethod to_upper (cseq_text number method) old = Some (True, to_upper method)"
    using cseq_finders [OF assms] cseq_rest [OF assms]
    by (simp_all add: SIPCSeq_getNumber_def SIPCSeq_getMethod_def) (simp add: cseq_text_def cstr_def)
qed

text \<open>C27: on a header of the form \<open>number SP method\<close> the four accessors act as the fields of
  a pair: each getter returns its part (the method in upper case), each setter replaces its part
  and keeps the other, and nothing outside the strings is read.\<close>

theorem cseq_fields:
  assumes "cseq_wf number method" "nul_free method'"
  shows "SIPCSeq_getNumber (cseq_text number method) old = Some (True, number) \<and>
    SIPCSeq_getMethod to_upper (cseq_text number method) old = Some (True, to_upper method) \<and>
    SIPCSeq_setNumber (cseq_text number method) number' = Some (True, cseq_text number' method) \<and>
    SIPCSeq_setMethod (cseq_text number method) (cstr method') = Some (True, cseq_text number method')"
proof -
  have "str_of (cstr method') = Some method'"
    using assms(2) by (simp add: cstr_def)
  moreover have "take (Suc (length number)) (cstr (cseq_text number method)) = number @ '' ''"
    by (simp add: cseq_text_def cstr_def)
  moreover have "number \<noteq> []"
    using assms(1) by (simp add: cseq_wf_def)
  ultimately show ?thesis
    using cseq_getters [OF assms(1)] cseq_finders [OF assms(1)] cseq_rest [OF assms(1)]
    by (simp add: SIPCSeq_setNumber_def SIPCSeq_setMethod_def cseq_text_def)
qed

theorem cseq_fields_witness:
  "SIPCSeq_getNumber (cseq_text ''4711'' ''INVITE'') [] = Some (True, ''4711'') \<and>
   SIPCSeq_setMethod (cseq_text ''4711'' ''INVITE'') (cstr ''ACK'') = Some (True, cseq_text ''4711'' ''ACK'')"
  using cseq_fields [of "''4711''" "''INVITE''" "''ACK''" "[]" id "''1''"]
  by (simp add: cseq_wf_def is_lws_def)

text \<open>The numeric accessors are inverse to each other on such a header, given that
  \<open>lexical_cast\<close> reads what it writes and writes no white space.\<close>

theorem cseq_number_roundtrip:
  assumes "cseq_wf number method"
    and lexical_roundtrip: "lexical_cast (from_int n) = Some n"
    and lexical_text: "from_int n \<noteq> []" "\<forall>c \<in> set (from_int n). \<not> is_lws c" "nul_free (from_int n)"
  shows "\<exists>cseq'. SIPCSeq_setNumber_int from_int (cseq_text number method) n = Some (True, cseq') \<and>
    SIPCSeq_getNumberAsUint lexical_cast cseq' = Some n \<and>
    SIPCSeq_getMethod to_upper cseq' old = Some (True, to_upper method)"
proof -
  have wf: "cseq_wf (from_int n) method"
    using assms by (simp add: cseq_wf_def)
  have "str_of (cstr (from_int n)) = Some (from_int n)"
    using lexical_text(3) by (simp add: cstr_def)
  moreover have "take (length (from_int n)) (cstr (cseq_text (from_int n) method)) = from_int n"
    by (simp add: cseq_text_def cstr_def)
  ultimately show ?thesis
    using cseq_finders [OF assms(1)] cseq_rest [OF assms(1)] cseq_finders [OF wf] cseq_rest [OF wf]
      lexical_text(1) lexical_roundtrip assms(1)
    by (intro exI [of _ "cseq_text (from_int n) method"])
      (simp add: SIPCSeq_setNumber_int_def SIPCSeq_setNumber_def SIPCSeq_getNumberAsUint_def
        SIPCSeq_getNumber_int_def SIPCSeq_getNumber_def SIPCSeq_getMethod_def string_to_int_def
        cseq_wf_def cseq_text_def)
qed

theorem cseq_number_roundtrip_witness:
  "\<exists>cseq'. SIPCSeq_setNumber_int (\<lambda>n. ''42'') (cseq_text ''1'' ''ACK'') 42 = Some (True, cseq') \<and>
    SIPCSeq_getNumberAsUint (\<lambda>s. if s = ''42'' then Some 42 else None) cseq' = Some 42 \<and>
    SIPCSeq_getMethod id cseq' [] = Some (True, id ''ACK'')"
  by (rule cseq_number_roundtrip) (simp_all add: cseq_wf_def is_lws_def)

text \<open>A header without white space is refused by every accessor and left as it is, and the
  number that \<open>getNumberAsUint\<close> then returns was never assigned.\<close>

theorem cseq_without_space:
  assumes "nul_free s" "\<forall>c \<in> set s. \<not> is_lws c"
  shows "SIPCSeq_getNumber s old = Some (False, old) \<and>
    SIPCSeq_getMethod to_upper s old = Some (False, old) \<and>
    SIPCSeq_setNumber s number' = Some (False, s) \<and>
    SIPCSeq_setMethod s method' = Some (False, s) \<and>
    SIPCSeq_getNumberAsUint lexical_cast s = None"
proof -
  have "consumed ABNF_SIP_LWS (drop j s) = 0" if "j < length s" for j
  proof (rule LWS_stops)
    have "hd (drop j s) \<in> set s"
      using that by (simp add: hd_drop_conv_nth)
    then show "drop j s = [] \<or> \<not> is_lws (hd (drop j s))"
      using assms(2) by blast
  qed (rule nul_free_drop [OF assms(1)])
  then have "first_match ABNF_SIP_LWS s = None"
    by (simp add: first_match_None)
  then have "parse lwsFinder_1 (cstr s) = Some 0" "parse lwsFinder_2 (cstr s) = Some 0"
    using refinesD [OF refines_WhileNot [OF safe_ABNF_SIP_LWS] assms(1), of _ "[]"]
    by (simp_all add: lwsFinder_1_def lwsFinder_2_def cstr_def while_not_take_def)
  then show ?thesis
    by (simp add: SIPCSeq_getNumber_def SIPCSeq_getMethod_def SIPCSeq_setNumber_def
        SIPCSeq_setMethod_def SIPCSeq_getNumberAsUint_def SIPCSeq_getNumber_int_def cstr_def
        str_of_def)
qed

theorem cseq_without_space_witness:
  "SIPCSeq_getNumberAsUint (\<lambda>s. None) ''4711INVITE'' = None"
  using cseq_without_space [of "''4711INVITE''" "[]" id "[]" "[]" "\<lambda>s. None"] by (simp add: is_lws_def)

end
