(* ===== verification/SIP_URI.thy ===== *)
theory SIP_URI
  imports ABNF_Search ABNF_Delim SIP_Parser "HOL-Library.AList"
begin

text \<open>
  The class \<open>SIPURI\<close>, \<^verbatim>\<open>sipparser/SIPURI.cpp\<close>. Its state is the string
  \<open>_data\<close>; the static functions work on any string. Output parameters are passed in and
  returned, a \<open>const char*\<close> argument is the memory it points to, with an outer
  \<^typ>\<open>mem option\<close> where the code tests it for NULL. \<open>boost::split\<close>
  (\<open>string_tokenize\<close>), \<open>boost::to_lower\<close>, \<open>boost::trim\<close> and
  \<open>boost::lexical_cast\<close> are parameters.
\<close>

section \<open>Definitions\<close>

subsection \<open>The parsers of the class\<close>

definition userInfoVerify :: "mem \<Rightarrow> bool option" where
  "userInfoVerify = ABNFEvaluate (ABNFLRSequence2 ABNFSIPUser
     (ABNFLROptional (ABNFLRSequence2 (ABNFCharComparison CHR '':'') ABNFSIPPassword)))"

definition uri_prefix :: rule where
  "uri_prefix = ABNFLRSequence3 ABNFSIPScheme (ABNFCharComparison CHR '':'')
     (ABNFLROptional ABNFSIPUserInfo)"

definition hostPortParser :: rule where
  "hostPortParser = ABNFLRSequence2 uri_prefix ABNFSIPHostPort"

definition hostPortParser_parseTokens :: "mem \<Rightarrow> (string list \<times> nat) option" where
  "hostPortParser_parseTokens = ABNFLRSequence2_parseTokens uri_prefix ABNFSIPHostPort"

definition uriParametersParser :: rule where
  "uriParametersParser = ABNFLRSequence2 hostPortParser (ABNFLROptional ABNFSIPURIParameters)"

definition uriParametersParser_parseTokens :: "mem \<Rightarrow> (string list \<times> nat) option" where
  "uriParametersParser_parseTokens =
     ABNFLRSequence2_parseTokens hostPortParser (ABNFLROptional ABNFSIPURIParameters)"

definition uriHeadersParser_parseTokens :: "mem \<Rightarrow> (string list \<times> nat) option" where
  "uriHeadersParser_parseTokens =
     ABNFLRSequence2_parseTokens uriParametersParser (ABNFLROptional ABNFSIPURIHeaders)"

definition EMPTY_URI :: string where
  "EMPTY_URI = ''sip:invalid''"

definition check_empty :: "string \<Rightarrow> string" where
  "check_empty uri = (if uri = [] then EMPTY_URI else uri)"

definition is_empty :: "mem option \<Rightarrow> bool option" where
  "is_empty str = (case str of None \<Rightarrow> Some True | Some m \<Rightarrow> map_option (\<lambda>s. s = []) (str_of m))"

subsection \<open>Scheme and user\<close>

definition SIPURI_getScheme :: "string \<Rightarrow> string \<Rightarrow> (bool \<times> string) option" where
  "SIPURI_getScheme uri value = do {
     n \<leftarrow> parse ABNFSIPScheme (cstr uri);
     Some (if n = 0 then (False, value) else (True, take n (cstr uri)))
   }"

definition SIPURI_setScheme :: "string \<Rightarrow> mem option \<Rightarrow> (bool \<times> string) option" where
  "SIPURI_setScheme uri scheme = do {
     e \<leftarrow> is_empty scheme;
     if e \<or> uri = [] then Some (False, uri)
     else do {
       n \<leftarrow> parse ABNFSIPScheme (cstr uri);
       if n = 0 then Some (False, uri)
       else do {
         front \<leftarrow> str_of (the scheme);
         rest \<leftarrow> str_of (drop n (cstr uri));
         Some (True, front @ rest)
       }
     }
   }"

definition SIPURI_getUser :: "string \<Rightarrow> string \<Rightarrow> (bool \<times> string) option" where
  "SIPURI_getUser uri value = do {
     n \<leftarrow> findNextIterFromString '':'' (cstr uri);
     if n = 0 then Some (False, value)
     else do {
       (tokens, _) \<leftarrow> ABNFSIPUserInfo_parseTokens (drop n (cstr uri));
       Some (if length tokens \<noteq> 3 then (False, value) else (tokens ! 0 \<noteq> [], tokens ! 0))
     }
   }"

definition SIPURI_getPassword :: "string \<Rightarrow> string \<Rightarrow> (bool \<times> string) option" where
  "SIPURI_getPassword uri value = do {
     n \<leftarrow> findNextIterFromString '':'' (cstr uri);
     if n = 0 then Some (False, value)
     else do {
       (tokens, _) \<leftarrow> ABNFSIPUserInfo_parseTokens (drop n (cstr uri));
       if length tokens \<noteq> 3 then Some (False, value)
       else do {
         value' \<leftarrow> (if tokens ! 1 \<noteq> [] then str_of (drop 1 (cstr (tokens ! 1))) else Some value);
         Some (value' \<noteq> [], value')
       }
     }
   }"

definition SIPURI_setUserInfo :: "string \<Rightarrow> mem option \<Rightarrow> (bool \<times> string) option" where
  "SIPURI_setUserInfo uri userInfo = do {
     empty \<leftarrow> is_empty userInfo;
     ok \<leftarrow> (if \<not> empty then userInfoVerify (the userInfo) else Some True);
     if \<not> ok then Some (False, uri)
     else do {
       n \<leftarrow> findNextIterFromString '':'' (cstr uri);
       if n = 0 then Some (False, uri)
       else do {
         info \<leftarrow> (if \<not> empty then map_option (\<lambda>s. s @ ''@'') (str_of (the userInfo)) else Some []);
         k \<leftarrow> parse ABNFSIPUserInfo (drop n (cstr uri));
         rest \<leftarrow> str_of (drop (n + k) (cstr uri));
         Some (True, take n (cstr uri) @ info @ rest)
       }
     }
   }"

subsection \<open>Host and port\<close>

definition SIPURI_getHostPort :: "string \<Rightarrow> string \<Rightarrow> (bool \<times> string) option" where
  "SIPURI_getHostPort uri value = do {
     (tokens, _) \<leftarrow> hostPortParser_parseTokens (cstr uri);
     Some (if length tokens \<noteq> 2 then (False, value) else (True, tokens ! 1))
   }"

definition SIPURI_getHost ::
    "(string \<Rightarrow> string \<Rightarrow> string list) \<Rightarrow> string \<Rightarrow> string \<Rightarrow> (bool \<times> string) option" where
  "SIPURI_getHost string_tokenize uri host = do {
     (ok, hostPort) \<leftarrow> SIPURI_getHostPort uri [];
     if \<not> ok \<or> hostPort = [] then Some (False, host)
     else let tokens = string_tokenize hostPort '':'' in
       Some (True, if length tokens \<le> 1 then hostPort else tokens ! 0)
   }"

definition SIPURI_getPort ::
    "(string \<Rightarrow> string \<Rightarrow> string list) \<Rightarrow> string \<Rightarrow> string \<Rightarrow> (bool \<times> string) option" where
  "SIPURI_getPort string_tokenize uri port = do {
     (ok, hostPort) \<leftarrow> SIPURI_getHostPort uri [];
     if \<not> ok \<or> hostPort = [] then Some (False, port)
     else let tokens = string_tokenize hostPort '':'' in
       Some (if length tokens = 2 then (True, tokens ! 1) else (False, port))
   }"

text \<open>The overload with a numeric port; \<open>to_ushort\<close> is \<open>string_to_number<unsigned short>\<close>.\<close>

definition SIPURI_getHostPort_number ::
    "(string \<Rightarrow> string \<Rightarrow> string list) \<Rightarrow> (string \<Rightarrow> nat) \<Rightarrow> string \<Rightarrow> string \<times> nat \<Rightarrow>
     (bool \<times> string \<times> nat) option" where
  "SIPURI_getHostPort_number string_tokenize to_ushort uri old = do {
     (_, hostPort) \<leftarrow> SIPURI_getHostPort uri [];
     if hostPort = [] then Some (False, old)
     else let tokens = string_tokenize hostPort '':'' in
       if length tokens \<le> 1 then Some (True, hostPort, 0)
       else do {
         p \<leftarrow> str_of (cstr (tokens ! 1));
         Some (True, tokens ! 0, to_ushort p)
       }
   }"

definition SIPURI_setHostPort :: "string \<Rightarrow> mem option \<Rightarrow> (bool \<times> string) option" where
  "SIPURI_setHostPort uri hostPort = do {
     e \<leftarrow> is_empty hostPort;
     if e then Some (False, uri)
     else do {
       ok \<leftarrow> ABNFEvaluate ABNFSIPHostPort (the hostPort);
       if \<not> ok then Some (False, uri)
       else do {
         (tokens, n) \<leftarrow> hostPortParser_parseTokens (cstr uri);
         if length tokens \<noteq> 2 then Some (False, uri)
         else do {
           hp \<leftarrow> str_of (the hostPort);
           rest \<leftarrow> str_of (drop n (cstr uri));
           Some (True, tokens ! 0 @ hp @ rest)
         }
       }
     }
   }"

definition SIPURI_setHost ::
    "(string \<Rightarrow> string \<Rightarrow> string list) \<Rightarrow> string \<Rightarrow> mem option \<Rightarrow> (bool \<times> string) option" where
  "SIPURI_setHost string_tokenize data host = do {
     e \<leftarrow> is_empty host;
     if e then Some (False, data)
     else let data = check_empty data in do {
       (ok, port) \<leftarrow> SIPURI_getPort string_tokenize data [];
       if \<not> ok then SIPURI_setHostPort data host
       else do {
         h \<leftarrow> str_of (the host);
         SIPURI_setHostPort data (Some (cstr (h @ '':'' @ port)))
       }
     }
   }"

definition SIPURI_setPort ::
    "(string \<Rightarrow> string \<Rightarrow> string list) \<Rightarrow> string \<Rightarrow> mem option \<Rightarrow> (bool \<times> string) option" where
  "SIPURI_setPort string_tokenize data port = (let data = check_empty data in do {
     (_, host) \<leftarrow> SIPURI_getHost string_tokenize data [];
     hostPort \<leftarrow> (case port of
       None \<Rightarrow> Some host
     | Some p \<Rightarrow> map_option (\<lambda>s. if s \<noteq> ''0'' then host @ '':'' @ s else host) (str_of p));
     SIPURI_setHostPort data (Some (cstr hostPort))
   })"

definition SIPURI_getIdentity ::
    "(string \<Rightarrow> string \<Rightarrow> string list) \<Rightarrow> string \<Rightarrow> string \<Rightarrow> bool \<Rightarrow> bool \<Rightarrow> (bool \<times> string) option" where
  "SIPURI_getIdentity string_tokenize uri identity includeScheme includePort = do {
     (_, user) \<leftarrow> SIPURI_getUser uri [];
     (hasScheme, scheme) \<leftarrow> SIPURI_getScheme uri [];
     if \<not> hasScheme then Some (False, identity)
     else do {
       (ok, hostPort) \<leftarrow> (if includePort then SIPURI_getHostPort uri []
                          else SIPURI_getHost string_tokenize uri []);
       if \<not> ok then Some (False, identity)
       else Some (True, (if includeScheme then scheme @ '':'' else []) @
                        (if user \<noteq> [] then user @ ''@'' else []) @ hostPort)
     }
   }"

definition SIPURI_getBasicIdentity ::
    "(string \<Rightarrow> string \<Rightarrow> string list) \<Rightarrow> string \<Rightarrow> string \<Rightarrow> (bool \<times> string) option" where
  "SIPURI_getBasicIdentity string_tokenize uri identity =
     SIPURI_getIdentity string_tokenize uri identity False False"

subsection \<open>Parameters\<close>

definition SIPURI_getParams :: "string \<Rightarrow> string \<Rightarrow> (bool \<times> string) option" where
  "SIPURI_getParams uri params = do {
     (tokens, _) \<leftarrow> uriParametersParser_parseTokens (cstr uri);
     Some (if length tokens \<noteq> 2 then (False, params) else (True, tokens ! 1))
   }"

definition SIPURI_setParams :: "string \<Rightarrow> string \<Rightarrow> (bool \<times> string) option" where
  "SIPURI_setParams uri params = do {
     v \<leftarrow> (if params \<noteq> [] then parse ABNFSIPURIParameters (cstr params) else Some 1);
     if v = 0 then Some (False, uri)
     else do {
       h \<leftarrow> parse hostPortParser (cstr uri);
       if h = 0 then Some (False, uri)
       else do {
         p \<leftarrow> parse uriParametersParser (drop h (cstr uri));
         let front = take h (cstr uri) @ (if p = 0 then params else []);
         k \<leftarrow> parse ABNFSIPURIHeaders (drop (h + p) (cstr uri));
         Some (True, front @ (if k > 0 then take k (drop (h + p) (cstr uri)) else []))
       }
     }
   }"

definition SIPURI_getParamEx :: "string \<Rightarrow> mem \<Rightarrow> string \<Rightarrow> (bool \<times> string) option" where
  "SIPURI_getParamEx params paramName paramValue = do {
     name \<leftarrow> str_of paramName;
     let k = (if name \<noteq> ''lr'' then name @ ''='' else name);
     let key = '';'' @ k;
     s \<leftarrow> findNextIterFromString key (cstr params);
     if s = 0 then Some (False, paramValue)
     else if key = '';lr'' then Some (True, paramValue)
     else do {
       n \<leftarrow> parse ABNF_SIP_pvalue (drop s (cstr params));
       Some (if n = 0 then (False, paramValue) else (True, take n (drop s (cstr params))))
     }
   }"

definition SIPURI_getParam :: "string \<Rightarrow> mem \<Rightarrow> string \<Rightarrow> (bool \<times> string) option" where
  "SIPURI_getParam uri paramName paramValue = do {
     (_, params) \<leftarrow> SIPURI_getParams uri [];
     if params = [] then Some (False, paramValue)
     else SIPURI_getParamEx params paramName paramValue
   }"

definition SIPURI_hasParam :: "string \<Rightarrow> mem \<Rightarrow> bool option" where
  "SIPURI_hasParam uri paramName = map_option fst (SIPURI_getParam uri paramName [])"

definition SIPURI_removeParam :: "string \<Rightarrow> mem \<Rightarrow> (bool \<times> string) option" where
  "SIPURI_removeParam uri name = do {
     (_, params) \<leftarrow> SIPURI_getParams uri [];
     if params = [] then Some (False, uri)
     else do {
       k \<leftarrow> str_of name;
       let key = '';'' @ k @ ''='';
       s \<leftarrow> findNextIterFromString key (cstr params);
       if s = 0 then Some (False, uri)
       else do {
         n \<leftarrow> parse ABNF_SIP_pvalue (drop s (cstr params));
         if n = 0 then Some (False, uri)
         else do {
           rest \<leftarrow> str_of (drop (s + n) (cstr params));
           SIPURI_setParams uri
             (if s = length key then rest else take (s - length key) (cstr params) @ rest)
         }
       }
     }
   }"

text \<open>\<open>strcasecmp(s, t) == 0\<close> and \<open>s.find(t) != npos\<close>.\<close>

definition ascii_lower :: "char \<Rightarrow> char" where
  "ascii_lower c = (if 0x41 \<le> schar c \<and> schar c \<le> 0x5A then char_of (of_char c + (32 :: nat)) else c)"

definition strcasecmp_eq :: "string \<Rightarrow> string \<Rightarrow> bool" where
  "strcasecmp_eq s t = (map ascii_lower s = map ascii_lower t)"

fun contains :: "string \<Rightarrow> string \<Rightarrow> bool" where
  "contains [] t = (t = [])"
| "contains (c # s) t = (take (length t) (c # s) = t \<or> contains s t)"

definition SIPURI_setParamEx ::
    "(string \<Rightarrow> string) \<Rightarrow> string \<Rightarrow> mem \<Rightarrow> mem \<Rightarrow> (bool \<times> string) option" where
  "SIPURI_setParamEx to_lower params paramName paramValue = do {
     nameOk \<leftarrow> ABNFEvaluate ABNF_SIP_pname paramName;
     valueOk \<leftarrow> (if nameOk then ABNFEvaluate ABNF_SIP_pvalue paramValue else Some False);
     if \<not> nameOk \<or> \<not> valueOk then Some (False, params)
     else do {
       name \<leftarrow> str_of paramName;
       value \<leftarrow> str_of paramValue;
       let key = '';'' @ to_lower name @ ''='';
       n \<leftarrow> findNextIterFromString key (cstr params);
       if n = 0 then
         (if \<not> strcasecmp_eq name ''lr'' then Some (True, params @ '';'' @ name @ ''='' @ value)
          else if contains params '';lr'' then Some (False, params)
          else Some (True, params @ '';lr''))
       else do {
         let front = take n (cstr params);
         let front = (if last front \<noteq> CHR ''='' then front @ ''='' else front) @ value;
         k \<leftarrow> findNextIterFromString '';'' (drop n (cstr params));
         if k = 0 then Some (True, front)
         else do {
           rest \<leftarrow> str_of (drop (n + k - 1) (cstr params));
           Some (True, front @ rest)
         }
       }
     }
   }"

definition SIPURI_setParam ::
    "(string \<Rightarrow> string) \<Rightarrow> string \<Rightarrow> mem \<Rightarrow> mem \<Rightarrow> (bool \<times> string) option" where
  "SIPURI_setParam to_lower uri paramName paramValue = do {
     (_, params) \<leftarrow> SIPURI_getParams uri [];
     (ok, params) \<leftarrow> SIPURI_setParamEx to_lower params paramName paramValue;
     if \<not> ok then Some (False, uri) else SIPURI_setParams uri params
   }"

definition escapeUser_safeChars :: string where
  "escapeUser_safeChars = ''abcdefghijklmnopqrstuvwxyz'' @ ''ABCDEFGHIJKLMNOPQRSTUVWXYZ'' @
     ''0123456789'' @ ''-_.!~*'' @ [CHR 0x27] @ ''()'' @ ''&=+$,;?/''"

definition SIPURI_escapeUser :: "mem \<Rightarrow> string option" where
  "SIPURI_escapeUser user = SIPParser_escape user (Some (cstr escapeUser_safeChars))"

definition escapeParam_safeChars :: string where
  "escapeParam_safeChars = ''abcdefghijklmnopqrstuvwxyz'' @ ''ABCDEFGHIJKLMNOPQRSTUVWXYZ'' @
     ''0123456789'' @ ''-_.!~*'' @ [CHR 0x27] @ ''()'' @ ''[]/:&+$''"

definition SIPURI_escapeParam :: "mem \<Rightarrow> string option" where
  "SIPURI_escapeParam param = SIPParser_escape param (Some (cstr escapeParam_safeChars))"

subsection \<open>Headers\<close>

definition SIPURI_getHeaders :: "string \<Rightarrow> string \<Rightarrow> (bool \<times> string) option" where
  "SIPURI_getHeaders uri headers = do {
     (tokens, _) \<leftarrow> uriHeadersParser_parseTokens (cstr uri);
     Some (if length tokens = 2 then (True, tokens ! 1) else (False, headers))
   }"

definition strip_question :: "string \<Rightarrow> string" where
  "strip_question headers = (if headers \<noteq> [] \<and> hd headers = CHR ''?'' then tl headers else headers)"

definition SIPURI_getHeader ::
    "(string \<Rightarrow> string \<Rightarrow> string list) \<Rightarrow> (string \<Rightarrow> string) \<Rightarrow> string \<Rightarrow> mem \<Rightarrow> string \<Rightarrow>
     (bool \<times> string) option" where
  "SIPURI_getHeader string_tokenize to_lower uri headerName value = do {
     name \<leftarrow> str_of headerName;
     let header = to_lower name;
     (ok, headers) \<leftarrow> SIPURI_getHeaders uri [];
     let value = (if ok \<and> headers \<noteq> [] then
         let headers = strip_question headers; tokens = string_tokenize headers ''&'' in
         if length tokens = 1 then headers
         else (case find (\<lambda>t. take (length header) t = header) tokens of Some t \<Rightarrow> t | None \<Rightarrow> value)
       else value);
     let offSet = length header + 1;
     Some (if length value > offSet then (True, drop offSet value) else (False, value))
   }"

definition SIPURI_setHeader :: "string \<Rightarrow> mem \<Rightarrow> mem \<Rightarrow> bool" where
  "SIPURI_setHeader uri headerName headerValue = True"

definition SIPURI_setHeaderEx :: "string \<Rightarrow> mem \<Rightarrow> mem \<Rightarrow> (bool \<times> string) option" where
  "SIPURI_setHeaderEx params headerName headerValue = do {
     nameOk \<leftarrow> ABNFEvaluate ABNF_SIP_hname headerName;
     valueOk \<leftarrow> (if nameOk then ABNFEvaluate ABNF_SIP_hvalue headerValue else Some False);
     Some (False, params)
   }"

text \<open>The loop that fills the map of headers; the flag is False when an element without an
  equal sign made the function return.\<close>

fun header_elements ::
    "(string \<Rightarrow> string) \<Rightarrow> string list \<Rightarrow> (string \<times> string) list \<Rightarrow> bool \<times> (string \<times> string) list" where
  "header_elements trim [] tokens = (True, tokens)"
| "header_elements trim (header # elements) tokens =
     (if CHR ''='' \<notin> set header then (False, tokens)
      else
        let name = trim (takeWhile (\<lambda>c. c \<noteq> CHR ''='') header);
            value = trim (tl (dropWhile (\<lambda>c. c \<noteq> CHR ''='') header))
        in header_elements trim elements
             (if name \<noteq> [] \<and> value \<noteq> [] then AList.update name value tokens else tokens))"

definition SIPURI_getHeaders_map ::
    "(string \<Rightarrow> string \<Rightarrow> string list) \<Rightarrow> (string \<Rightarrow> string) \<Rightarrow> string \<Rightarrow> (string \<times> string) list \<Rightarrow>
     (bool \<times> (string \<times> string) list) option" where
  "SIPURI_getHeaders_map string_tokenize trim uri tokens = do {
     (_, headers) \<leftarrow> SIPURI_getHeaders uri [];
     if headers = [] then Some (False, tokens)
     else let headers = strip_question headers; elements = string_tokenize headers ''&'';
              (ok, tokens) = header_elements trim (if length elements = 1 then [headers] else elements) tokens
          in Some (ok \<and> tokens \<noteq> [], tokens)
   }"

definition SIPURI_setHeaders :: "string \<Rightarrow> string \<Rightarrow> (bool \<times> string) option" where
  "SIPURI_setHeaders uri headers = do {
     ok \<leftarrow> ABNFEvaluate ABNFSIPURIHeaders (cstr headers);
     if \<not> ok then Some (False, uri)
     else do {
       n \<leftarrow> parse uriParametersParser (cstr uri);
       Some (if n = 0 then (False, uri) else (True, take n (cstr uri) @ headers))
     }
   }"

definition SIPURI_verify :: "mem \<Rightarrow> bool option" where
  "SIPURI_verify uri = ABNFEvaluate ABNFSIPURI uri"

section \<open>The parts of a URI\<close>

record uri_parts =
  scheme_part :: string
  info_part :: string
  host_part :: string
  params_part :: string
  headers_part :: string

definition uri_text :: "uri_parts \<Rightarrow> string" where
  "uri_text u = scheme_part u @ CHR '':'' # info_part u @ host_part u @ params_part u @ headers_part u"

definition scheme_ok :: "string \<Rightarrow> bool" where
  "scheme_ok s = (s \<noteq> [] \<and> nul_free s \<and> consumed ABNFSIPScheme s = length s)"

definition info_ok :: "string \<Rightarrow> bool" where
  "info_ok s = (nul_free s \<and> (s = [] \<or> consumed ABNFSIPUserInfo s = length s))"

definition host_ok :: "string \<Rightarrow> bool" where
  "host_ok s = (s \<noteq> [] \<and> nul_free s \<and> consumed ABNFSIPHostPort s = length s)"

definition params_ok :: "string \<Rightarrow> bool" where
  "params_ok s = (nul_free s \<and> (s = [] \<or> hd s = CHR '';'') \<and> consumed ABNFSIPURIParameters s = length s)"

definition headers_ok :: "string \<Rightarrow> bool" where
  "headers_ok s = (nul_free s \<and> (s = [] \<or> hd s = CHR ''?'') \<and> consumed ABNFSIPURIHeaders s = length s)"

definition uri_wf :: "uri_parts \<Rightarrow> bool" where
  "uri_wf u = (scheme_ok (scheme_part u) \<and> info_ok (info_part u) \<and> host_ok (host_part u) \<and>
     params_ok (params_part u) \<and> headers_ok (headers_part u))"

lemmas part_ok_defs = scheme_ok_def info_ok_def host_ok_def params_ok_def headers_ok_def

subsection \<open>User information\<close>

lemma consumed_password_hd:
  assumes "nul_free s" "consumed userinfo_password s \<noteq> 0"
  shows "s \<noteq> [] \<and> hd s = CHR '':''"
proof -
  have "seq_take [ABNFCharComparison CHR '':'', ABNFSIPPassword] s \<noteq> 0"
    using assms unfolding userinfo_password_def
    by (simp add: consumed_Optional consumed_LRSequence2 rule_safe)
  then show ?thesis
    using consumed_Comparison [of "CHR '':''" s] assms(1)
    by (auto simp: seq_take_def Let_def split: if_splits)
qed

lemma userinfo_split:
  assumes "nul_free s" "consumed ABNFSIPUserInfo s \<noteq> 0"
  obtains u p y where "s = u @ p @ CHR ''@'' # y" "consumed ABNFSIPUserInfo s = length (u @ p) + 1"
    "u \<noteq> []" "consumed ABNFSIPUser s = length u" "p = [] \<or> hd p = CHR '':''"
    "consumed userinfo_password (p @ CHR ''@'' # y) = length p"
proof -
  let ?at = "ABNFCharComparison CHR ''@''"
  let ?n = "consumed ABNFSIPUser s"
  let ?k = "consumed userinfo_password (drop ?n s)"
  obtain ps where ps: "seq_pieces [ABNFSIPUser, userinfo_password, ?at] s = Some ps"
      "consumed ABNFSIPUserInfo s = length (concat ps)"
    using assms userinfo_tok.consumed_seq [OF assms(1)]
    by (cases "seq_pieces [ABNFSIPUser, userinfo_password, ?at] s") (auto simp: seq_take_def)
  have n: "?n \<noteq> 0" "?n \<le> length s" and k: "?k \<le> length (drop ?n s)"
    and at: "consumed ?at (drop ?k (drop ?n s)) \<noteq> 0"
    using ps(1) assms(1) abnf_rule.consumed_le [OF safe_ABNFSIPUser assms(1)]
      abnf_rule.consumed_le [OF safe_userinfo_password nul_free_drop [OF assms(1)]]
    by (auto simp: Let_def ABNFSIPUser_def split: if_splits)
  define u where "u = take ?n s"
  define p where "p = take ?k (drop ?n s)"
  obtain y where y: "drop ?k (drop ?n s) = CHR ''@'' # y"
    using at consumed_Comparison [of "CHR ''@''" "drop ?k (drop ?n s)"] assms(1)
    by (cases "drop ?k (drop ?n s)") (auto split: if_splits)
  have s: "s = u @ p @ CHR ''@'' # y"
    unfolding u_def p_def by (metis append_take_drop_id y)
  have len: "length u = ?n" "length p = ?k"
    using n k by (simp_all add: u_def p_def)
  have "nul_free (CHR ''@'' # y)"
    unfolding y [symmetric] by (intro nul_free_drop assms(1))
  then have at1: "consumed ?at (CHR ''@'' # y) = 1"
    by (subst consumed_Comparison) simp_all
  have "isOptional userinfo_password"
    by (simp add: userinfo_password_def)
  then have "seq_pieces [ABNFSIPUser, userinfo_password, ?at] s = Some [u, p, ''@'']"
    using n(1) y at1 by (simp only: seq_pieces.simps Let_def u_def p_def) simp
  then have ps_eq: "ps = [u, p, ''@'']"
    using ps(1) by simp
  have "drop ?n s = p @ CHR ''@'' # y"
    using s len(1) by (metis append_eq_conv_conj)
  then have "consumed userinfo_password (p @ CHR ''@'' # y) = length p"
    using len(2) by simp
  moreover have "p = [] \<or> hd p = CHR '':''"
    using consumed_password_hd [OF nul_free_drop [OF assms(1)], of ?n] len(2) \<open>drop ?n s = _\<close>
    by (cases p) auto
  moreover have "consumed ABNFSIPUserInfo s = length (u @ p) + 1"
    using ps(2) ps_eq by simp
  moreover have "u \<noteq> []"
    using n(1) len(1) by auto
  ultimately show thesis
    using that [OF s] len(1) by metis
qed

lemma userinfo_needs_at:
  assumes "nul_free s" "CHR ''@'' \<notin> set s"
  shows "consumed ABNFSIPUserInfo s = 0"
proof (rule ccontr)
  assume "consumed ABNFSIPUserInfo s \<noteq> 0"
  with assms(1) obtain u p y where "s = u @ p @ CHR ''@'' # y"
    by (rule userinfo_split)
  then show False using assms(2) by simp
qed

text \<open>User information is found again whatever follows it.\<close>

lemma userinfo_exchange:
  assumes "consumed ABNFSIPUserInfo (ui @ y) = length ui" "ui \<noteq> []" "nul_free (ui @ y)" "nul_free z"
  shows "consumed ABNFSIPUserInfo (ui @ z) = length ui"
proof -
  let ?at = "ABNFCharComparison CHR ''@''"
  obtain u p y' where s: "ui @ y = u @ p @ CHR ''@'' # y'"
      "consumed ABNFSIPUserInfo (ui @ y) = length (u @ p) + 1"
      "u \<noteq> []" "consumed ABNFSIPUser (ui @ y) = length u" "p = [] \<or> hd p = CHR '':''"
      "consumed userinfo_password (p @ CHR ''@'' # y') = length p"
    using userinfo_split [OF assms(3)] assms(1,2) by (metis length_0_conv)
  have "length ui = length (u @ p @ ''@'')"
    using assms(1) s(2) by simp
  then have ui: "ui = u @ p @ ''@''" "y = y'"
    using s(1) append_eq_append_conv [of ui "u @ p @ ''@''" y y'] by auto
  have nf: "nul_free (u @ p @ CHR ''@'' # z)" "nul_free (u @ p @ CHR ''@'' # y)"
    using assms(3,4) ui(1) by auto
  have "consumed ABNFSIPUser (u @ p @ CHR ''@'' # z) = length u"
    using user.consumed_exchange [of u "p @ CHR ''@'' # y" "p @ CHR ''@'' # z"] s(4,5) nf ui
    by (cases p) auto
  moreover have "consumed userinfo_password (p @ CHR ''@'' # z) = length p"
    using delimited.consumed_exchange [OF delim_userinfo_password, of p "CHR ''@'' # y" "CHR ''@'' # z"]
      s(6) nf ui(2) by auto
  moreover have "consumed ?at (CHR ''@'' # z) = 1"
    using assms(4) by (subst consumed_Comparison) simp_all
  moreover have "isOptional userinfo_password"
    by (simp add: userinfo_password_def)
  ultimately have "seq_take [ABNFSIPUser, userinfo_password, ?at] (u @ p @ CHR ''@'' # z) = length ui"
    using s(3) ui(1) by (simp add: seq_take_def)
  then show ?thesis
    using userinfo_tok.consumed_seq [OF nf(1)] ui(1) by simp
qed

lemma consumed_info:
  assumes "info_ok ui" "nul_free rest" "ui \<noteq> [] \<or> CHR ''@'' \<notin> set rest"
  shows "consumed ABNFSIPUserInfo (ui @ rest) = length ui"
proof (cases "ui = []")
  case True
  then show ?thesis using assms userinfo_needs_at [of rest] by simp
next
  case False
  then show ?thesis using assms userinfo_exchange [of ui "[]" rest] by (simp add: info_ok_def)
qed

subsection \<open>The parts are found again\<close>

lemma part_no_at:
  "host_ok s \<Longrightarrow> CHR ''@'' \<notin> set s" "params_ok s \<Longrightarrow> CHR ''@'' \<notin> set s"
  "headers_ok s \<Longrightarrow> CHR ''@'' \<notin> set s"
  by (auto simp: part_ok_defs dest: hostport.whole_no_delim params.whole_no_delim headers.whole_no_delim)

lemma safe_uri_prefix [rule_safe]: "abnf_rule uri_prefix"
  unfolding uri_prefix_def by (rule rule_safe | rule abnf_rule_imp_ne | simp)+

lemma safe_hostPortParser [rule_safe]: "abnf_rule hostPortParser"
  unfolding hostPortParser_def by (rule rule_safe)+

lemma safe_uriParametersParser [rule_safe]: "abnf_rule uriParametersParser"
  unfolding uriParametersParser_def by (rule rule_safe | rule abnf_rule_imp_ne | simp)+

interpretation hostPort_tok: token_parser hostPortParser hostPortParser_parseTokens
  "[uri_prefix, ABNFSIPHostPort]"
  by unfold_locales (auto simp: hostPortParser_def hostPortParser_parseTokens_def ABNFLRSequence2_def
      ABNFLRSequence2_parseTokens_def intro!: rule_safe)

interpretation uriParameters_tok: token_parser uriParametersParser uriParametersParser_parseTokens
  "[hostPortParser, ABNFLROptional ABNFSIPURIParameters]"
  by unfold_locales (auto simp: uriParametersParser_def uriParametersParser_parseTokens_def
      ABNFLRSequence2_def ABNFLRSequence2_parseTokens_def intro!: rule_safe intro: abnf_rule_imp_ne)

interpretation uriHeaders_tok: token_parser
  "ABNFLRSequence2 uriParametersParser (ABNFLROptional ABNFSIPURIHeaders)" uriHeadersParser_parseTokens
  "[uriParametersParser, ABNFLROptional ABNFSIPURIHeaders]"
  by unfold_locales (auto simp: uriHeadersParser_parseTokens_def ABNFLRSequence2_def
      ABNFLRSequence2_parseTokens_def intro!: rule_safe intro: abnf_rule_imp_ne)

lemma parser_flags [simp]:
  "\<not> isOptional uri_prefix" "\<not> isOptional hostPortParser" "\<not> isOptional uriParametersParser"
  "\<not> isOptional ABNFSIPHostPort" "\<not> isOptional ABNFSIPScheme"
  by (simp_all add: uri_prefix_def hostPortParser_def uriParametersParser_def ABNFSIPHostPort_def
      ABNFSIPScheme_def)

lemma consumed_uri_prefix:
  assumes "scheme_ok sc" "info_ok ui" "nul_free rest" "ui \<noteq> [] \<or> CHR ''@'' \<notin> set rest"
  shows "consumed uri_prefix (sc @ CHR '':'' # ui @ rest) = length sc + 1 + length ui"
proof -
  let ?s = "sc @ CHR '':'' # ui @ rest"
  have nf: "nul_free ?s" "nul_free (ui @ rest)"
    using assms by (auto simp: part_ok_defs)
  have "consumed ABNFSIPScheme ?s = length sc"
    using assms(1) nf by (intro scheme.consumed_whole) (auto simp: scheme_ok_def)
  moreover have "consumed (ABNFCharComparison CHR '':'') (CHR '':'' # ui @ rest) = 1"
    using nf by (subst consumed_Comparison) simp_all
  moreover have "consumed (ABNFLROptional ABNFSIPUserInfo) (ui @ rest) = length ui"
    using consumed_info [OF assms(2-4)] nf(2) by (subst consumed_Optional) (simp_all add: rule_safe)
  ultimately have "seq_take [ABNFSIPScheme, ABNFCharComparison CHR '':'', ABNFLROptional ABNFSIPUserInfo] ?s =
      length sc + 1 + length ui"
    using assms(1) by (simp add: seq_take_def scheme_ok_def)
  then show ?thesis
    unfolding uri_prefix_def ABNFLRSequence3_def using nf(1)
    by (subst refines_consumed [OF refines_lr_sequence])
      (auto intro: rule_safe abnf_rule_imp_ne)
qed

definition front_text :: "uri_parts \<Rightarrow> string" where
  "front_text u = scheme_part u @ CHR '':'' # info_part u"

lemma uri_text_front: "uri_text u = front_text u @ host_part u @ params_part u @ headers_part u"
  by (simp add: uri_text_def front_text_def)

lemma wf_nul_free:
  assumes "uri_wf u"
  shows "nul_free (front_text u)" "nul_free (host_part u)" "nul_free (params_part u)"
    "nul_free (headers_part u)" "nul_free (uri_text u)"
  using assms by (auto simp: uri_wf_def part_ok_defs uri_text_def front_text_def)

lemma wf_front:
  assumes "uri_wf u"
  shows "consumed uri_prefix (uri_text u) = length (front_text u)"
proof -
  have "CHR ''@'' \<notin> set (host_part u @ params_part u @ headers_part u)"
    using assms by (auto simp: uri_wf_def dest: part_no_at)
  then show ?thesis
    using consumed_uri_prefix [of "scheme_part u" "info_part u" "host_part u @ params_part u @ headers_part u"]
      assms wf_nul_free [OF assms] by (simp add: uri_wf_def uri_text_def front_text_def)
qed

lemma wf_host:
  assumes "uri_wf u"
  shows "consumed ABNFSIPHostPort (host_part u @ params_part u @ headers_part u) = length (host_part u)"
proof (rule hostport.consumed_whole)
  show "consumed ABNFSIPHostPort (host_part u) = length (host_part u)"
    using assms by (simp add: uri_wf_def host_ok_def)
  show "nul_free (host_part u @ params_part u @ headers_part u)"
    using wf_nul_free [OF assms] by simp
  show "params_part u @ headers_part u = [] \<or> hd (params_part u @ headers_part u) \<in> {CHR '';'', CHR ''?'', CHR ''@''}"
    using assms by (cases "params_part u") (auto simp: uri_wf_def part_ok_defs)
qed

lemma wf_params:
  assumes "uri_wf u"
  shows "consumed (ABNFLROptional ABNFSIPURIParameters) (params_part u @ headers_part u) = length (params_part u)"
proof -
  have "consumed ABNFSIPURIParameters (params_part u @ headers_part u) = length (params_part u)"
    using assms wf_nul_free [OF assms]
    by (intro params.consumed_whole) (auto simp: uri_wf_def part_ok_defs)
  then show ?thesis
    using wf_nul_free [OF assms] by (subst consumed_Optional) (simp_all add: rule_safe)
qed

lemma wf_headers:
  assumes "uri_wf u"
  shows "consumed (ABNFLROptional ABNFSIPURIHeaders) (headers_part u) = length (headers_part u)"
  using assms wf_nul_free [OF assms] unfolding uri_wf_def headers_ok_def
  by (subst consumed_Optional) (simp_all add: rule_safe)

lemma wf_nonempty: "uri_wf u \<Longrightarrow> front_text u \<noteq> [] \<and> host_part u \<noteq> [] \<and> scheme_part u \<noteq> []"
  by (simp add: uri_wf_def part_ok_defs front_text_def)

lemma wf_hostPort:
  assumes "uri_wf u"
  shows "hostPortParser_parseTokens (cstr (uri_text u)) =
      Some ([front_text u, host_part u], length (front_text u @ host_part u))"
    and "consumed hostPortParser (uri_text u) = length (front_text u @ host_part u)"
proof -
  have "seq_pieces [uri_prefix, ABNFSIPHostPort] (uri_text u) = Some [front_text u, host_part u]"
    using wf_front [OF assms] wf_host [OF assms] wf_nonempty [OF assms] by (simp add: uri_text_front)
  then show c: "consumed hostPortParser (uri_text u) = length (front_text u @ host_part u)"
    and "hostPortParser_parseTokens (cstr (uri_text u)) =
      Some ([front_text u, host_part u], length (front_text u @ host_part u))"
    using hostPort_tok.tokens_cstr [OF wf_nul_free(5) [OF assms], of "[]"]
      hostPort_tok.consumed_seq [OF wf_nul_free(5) [OF assms]] seq_tokens_pieces [of _ "uri_text u"]
    by (simp_all add: cstr_def seq_take_def del: seq_pieces.simps seq_tokens.simps)
qed

lemma wf_uriParameters:
  assumes "uri_wf u"
  shows "uriParametersParser_parseTokens (cstr (uri_text u)) =
      Some ([front_text u @ host_part u, params_part u], length (front_text u @ host_part u @ params_part u))"
    and "consumed uriParametersParser (uri_text u) = length (front_text u @ host_part u @ params_part u)"
proof -
  have "seq_pieces [hostPortParser, ABNFLROptional ABNFSIPURIParameters] (uri_text u) =
      Some [front_text u @ host_part u, params_part u]"
    using wf_hostPort(2) [OF assms] wf_params [OF assms] wf_nonempty [OF assms]
    by (simp add: uri_text_front)
  then show "consumed uriParametersParser (uri_text u) = length (front_text u @ host_part u @ params_part u)"
    and "uriParametersParser_parseTokens (cstr (uri_text u)) =
      Some ([front_text u @ host_part u, params_part u], length (front_text u @ host_part u @ params_part u))"
    using uriParameters_tok.tokens_cstr [OF wf_nul_free(5) [OF assms], of "[]"]
      uriParameters_tok.consumed_seq [OF wf_nul_free(5) [OF assms]] seq_tokens_pieces [of _ "uri_text u"]
    by (simp_all add: cstr_def seq_take_def del: seq_pieces.simps seq_tokens.simps)
qed

lemma wf_uriHeaders:
  assumes "uri_wf u"
  shows "uriHeadersParser_parseTokens (cstr (uri_text u)) =
      Some ([front_text u @ host_part u @ params_part u, headers_part u], length (uri_text u))"
proof -
  have "seq_pieces [uriParametersParser, ABNFLROptional ABNFSIPURIHeaders] (uri_text u) =
      Some [front_text u @ host_part u @ params_part u, headers_part u]"
    using wf_uriParameters(2) [OF assms] wf_headers [OF assms] wf_nonempty [OF assms]
    by (simp add: uri_text_front)
  then show ?thesis
    using uriHeaders_tok.tokens_cstr [OF wf_nul_free(5) [OF assms], of "[]"]
      uriHeaders_tok.consumed_seq [OF wf_nul_free(5) [OF assms]] seq_tokens_pieces [of _ "uri_text u"]
    by (simp add: cstr_def seq_take_def uri_text_front del: seq_pieces.simps seq_tokens.simps)
qed

lemma wf_scheme:
  assumes "uri_wf u"
  shows "parse ABNFSIPScheme (cstr (uri_text u)) = Some (length (scheme_part u))"
proof -
  have "consumed ABNFSIPScheme (uri_text u) = length (scheme_part u)"
    using assms wf_nul_free(5) [OF assms] unfolding uri_text_def
    by (intro scheme.consumed_whole) (auto simp: uri_wf_def part_ok_defs)
  then show ?thesis
    using scheme.parse_cstr [OF wf_nul_free(5) [OF assms], of "[]"] by (simp add: cstr_def)
qed

lemma flip_eq_colon: "c \<noteq> NUL \<Longrightarrow> flip_eq c CHR '':'' \<longleftrightarrow> c \<in> {CHR '':'', CHR 0x1A}"
proof -
  have lit: "schar CHR '':'' = 58" "schar CHR 0x1A = 26"
    by (simp_all add: schar_def)
  have "(if schar c \<le> 90 then schar c + 32 else schar c - 32) = 58 \<longleftrightarrow> schar c = 26"
    by auto
  also have "\<dots> \<longleftrightarrow> c = CHR 0x1A"
    using schar_eq_iff [of c "CHR 0x1A"] by (simp only: lit)
  finally show ?thesis
    by (simp only: flip_eq_def lit) blast
qed

lemma wf_colon:
  assumes "uri_wf u"
  shows "findNextIterFromString '':'' (cstr (uri_text u)) = Some (length (scheme_part u) + 1)"
proof -
  have sc: "CHR '':'' \<notin> set (scheme_part u)" "CHR 0x1A \<notin> set (scheme_part u)"
    using assms scheme.whole_no_delim by (auto simp: uri_wf_def scheme_ok_def)
  have "takeWhile (\<lambda>c. c \<notin> {CHR '':'', CHR 0x1A}) (uri_text u) = scheme_part u"
    unfolding uri_text_def using sc by (intro takeWhile_append_stop) auto
  then show ?thesis
    using find_next_char_cong [OF wf_nul_free(5) [OF assms] _ flip_eq_colon, of "[]"]
    by (simp add: cstr_def uri_text_def)
qed

lemma wf_after_colon:
  assumes "uri_wf u"
  shows "drop (length (scheme_part u) + 1) (cstr (uri_text u)) =
    (info_part u @ host_part u @ params_part u @ headers_part u) @ [NUL]"
  by (simp add: uri_text_def cstr_def)

lemma wf_info:
  assumes "uri_wf u"
  shows "consumed ABNFSIPUserInfo (info_part u @ host_part u @ params_part u @ headers_part u) = length (info_part u)"
proof -
  have "CHR ''@'' \<notin> set (host_part u @ params_part u @ headers_part u)"
    using assms by (auto simp: uri_wf_def dest: part_no_at)
  then show ?thesis
    using assms wf_nul_free [OF assms] by (intro consumed_info) (auto simp: uri_wf_def)
qed

text \<open>The user of a user information part: the text before its colon or at sign.\<close>

definition user_of :: "string \<Rightarrow> string" where
  "user_of info = takeWhile (\<lambda>c. c \<noteq> CHR ''@'' \<and> c \<noteq> CHR '':'') info"

abbreviation userinfo_rules :: "rule list" where
  "userinfo_rules \<equiv> [ABNFSIPUser, userinfo_password, ABNFCharComparison CHR ''@'']"

lemma userinfo_fail_tokens:
  assumes "nul_free s" "consumed ABNFSIPUserInfo s = 0"
  shows "length (seq_tokens userinfo_rules s) \<noteq> 3"
proof
  assume "length (seq_tokens userinfo_rules s) = 3"
  then obtain ps where ps: "seq_pieces userinfo_rules s = Some ps"
    using seq_tokens_length [of userinfo_rules s] by auto
  then have "consumed ABNFSIPUser s \<noteq> 0" "ps \<noteq> []" "hd ps = take (consumed ABNFSIPUser s) s"
    by (auto simp: Let_def ABNFSIPUser_def split: if_splits)
  moreover have "consumed ABNFSIPUser s \<le> length s"
    by (rule user.consumed_le [OF assms(1)])
  ultimately have "concat ps \<noteq> []"
    by (cases ps) auto
  then show False
    using ps userinfo_tok.consumed_seq [OF assms(1)] assms(2) by (simp add: seq_take_def)
qed

lemma wf_user_tokens:
  assumes "uri_wf u"
  shows "\<exists>ts n. ABNFSIPUserInfo_parseTokens (drop (length (scheme_part u) + 1) (cstr (uri_text u))) = Some (ts, n) \<and>
    (if info_part u = [] then length ts \<noteq> 3 else length ts = 3 \<and> ts ! 0 = user_of (info_part u) \<and> ts ! 0 \<noteq> [])"
proof -
  let ?s = "info_part u @ host_part u @ params_part u @ headers_part u"
  let ?rs = "[ABNFSIPUser, userinfo_password, ABNFCharComparison CHR ''@'']"
  have nf: "nul_free ?s"
    using wf_nul_free(5) [OF assms] by (auto simp: uri_text_def)
  have tok: "ABNFSIPUserInfo_parseTokens (drop (length (scheme_part u) + 1) (cstr (uri_text u))) =
      Some (seq_tokens ?rs ?s, length (info_part u))"
    unfolding wf_after_colon [OF assms] using userinfo_tok.tokens_cstr [OF nf, of "[]"] wf_info [OF assms] by simp
  show ?thesis
  proof (cases "info_part u = []")
    case True
    then show ?thesis
      using tok userinfo_fail_tokens [OF nf] wf_info [OF assms] by simp
  next
    case False
    then have "consumed ABNFSIPUserInfo ?s \<noteq> 0"
      using wf_info [OF assms] by simp
    with nf obtain us p y where s: "?s = us @ p @ CHR ''@'' # y"
        "consumed ABNFSIPUserInfo ?s = length (us @ p) + 1" "us \<noteq> []"
        "consumed ABNFSIPUser ?s = length us" "p = [] \<or> hd p = CHR '':''"
      by (rule userinfo_split)
    have "info_part u @ (host_part u @ params_part u @ headers_part u) = (us @ p @ ''@'') @ y"
      using s(1) by simp
    moreover have "length (info_part u) = length (us @ p @ ''@'')"
      using s(2) wf_info [OF assms] by simp
    ultimately have info: "info_part u = us @ p @ ''@''"
      by (metis append_eq_append_conv)
    have hdp: "hd (p @ CHR ''@'' # y) \<in> {CHR ''@'', CHR '':''}"
      using s(5) by (cases p) auto
    have nfs: "nul_free (us @ p @ CHR ''@'' # y)"
      using nf unfolding s(1) .
    have "consumed ABNFSIPUser us = length us"
      using user.delim [OF nfs] hdp s(4) unfolding s(1) by (simp del: append_assoc)
    then have "CHR ''@'' \<notin> set us \<and> CHR '':'' \<notin> set us"
      using user.whole_no_delim [of us] nfs by auto
    then have "user_of (info_part u) = us"
      unfolding user_of_def info using s(5) by (intro takeWhile_append_stop) (auto simp: hd_append)
    moreover have "seq_tokens ?rs ?s ! 0 = us"
      using s(3,4) unfolding s(1) by (simp add: Let_def)
    moreover have "length (seq_tokens ?rs ?s) = 3"
      using userinfo_tok.tokens_match [OF nf] wf_info [OF assms] False by simp
    ultimately show ?thesis
      using tok False s(3) by simp
  qed
qed

text \<open>C23: the accessors of \<open>SIPURI\<close> read the parts of a URI. On the text
  \<open>scheme ":" [userinfo] hostport [params] [headers]\<close> made of parts the grammar accepts,
  \<open>getScheme\<close>, \<open>getUser\<close>, \<open>getHostPort\<close>, \<open>getParams\<close> and
  \<open>getHeaders\<close> return exactly these parts, without reading outside the string.\<close>

theorem uri_getters:
  assumes "uri_wf u"
  shows "SIPURI_getScheme (uri_text u) old = Some (True, scheme_part u) \<and>
    SIPURI_getUser (uri_text u) old =
      Some (if info_part u = [] then (False, old) else (True, user_of (info_part u))) \<and>
    SIPURI_getHostPort (uri_text u) old = Some (True, host_part u) \<and>
    SIPURI_getParams (uri_text u) old = Some (True, params_part u) \<and>
    SIPURI_getHeaders (uri_text u) old = Some (True, headers_part u)"
proof -
  have "take (length (scheme_part u)) (cstr (uri_text u)) = scheme_part u"
    by (simp add: uri_text_def cstr_def)
  moreover obtain ts n where "ABNFSIPUserInfo_parseTokens (drop (length (scheme_part u) + 1) (cstr (uri_text u))) = Some (ts, n)"
    "if info_part u = [] then length ts \<noteq> 3 else length ts = 3 \<and> ts ! 0 = user_of (info_part u) \<and> ts ! 0 \<noteq> []"
    using wf_user_tokens [OF assms] by blast
  ultimately show ?thesis
    using wf_scheme [OF assms] wf_hostPort(1) [OF assms] wf_uriParameters(1) [OF assms]
      wf_uriHeaders [OF assms] wf_colon [OF assms] wf_nonempty [OF assms]
    by (auto simp: SIPURI_getScheme_def SIPURI_getHostPort_def SIPURI_getParams_def
        SIPURI_getHeaders_def SIPURI_getUser_def split: if_splits)
qed

definition example_uri :: uri_parts where
  "example_uri = \<lparr>scheme_part = ''sip'', info_part = ''bob:pw@'', host_part = ''biloxi.com:5060'',
     params_part = '';lr'', headers_part = ''?a=b''\<rparr>"

lemma example_uri_wf: "uri_wf example_uri"
  by code_simp

theorem uri_getters_witness:
  "SIPURI_getUser (uri_text example_uri) [] = Some (True, ''bob'') \<and>
   SIPURI_getHostPort (uri_text example_uri) [] = Some (True, ''biloxi.com:5060'')"
  using uri_getters [OF example_uri_wf, of "[]"] by (simp add: example_uri_def user_of_def)

section \<open>Setters\<close>

lemma is_empty_cstr [simp]: "nul_free s \<Longrightarrow> is_empty (Some (cstr s)) = Some (s = [])"
  by (simp add: is_empty_def cstr_def)

lemma str_of_cstr0 [simp]: "nul_free s \<Longrightarrow> str_of (cstr s) = Some s"
  by (simp add: cstr_def)

lemma evaluate_cstr0: "abnf_rule r \<Longrightarrow> nul_free s \<Longrightarrow> ABNFEvaluate r (cstr s) = Some (consumed r s = length s)"
  using abnf_rule.evaluate_cstr [of r s "[]"] by (simp add: cstr_def)

lemma str_of_drop_cstr: "nul_free s \<Longrightarrow> n \<le> length s \<Longrightarrow> str_of (drop n (cstr s)) = Some (drop n s)"
  by (simp add: cstr_def)

lemma set_host:
  assumes "uri_wf u" "host_ok hp"
  shows "SIPURI_setHostPort (uri_text u) (Some (cstr hp)) = Some (True, uri_text (u\<lparr>host_part := hp\<rparr>))"
proof -
  have hp: "hp \<noteq> []" "nul_free hp" "consumed ABNFSIPHostPort hp = length hp"
    using assms(2) by (simp_all add: host_ok_def)
  have "str_of (drop (length (front_text u @ host_part u)) (cstr (uri_text u))) =
      Some (params_part u @ headers_part u)"
    using wf_nul_free [OF assms(1)] by (subst str_of_drop_cstr) (simp_all add: uri_text_front)
  then show ?thesis
    using wf_hostPort(1) [OF assms(1)] hp
    by (simp add: SIPURI_setHostPort_def evaluate_cstr0 [OF safe_ABNFSIPHostPort] uri_text_def front_text_def)
qed

lemma set_scheme:
  assumes "uri_wf u" "nul_free sc" "sc \<noteq> []"
  shows "SIPURI_setScheme (uri_text u) (Some (cstr sc)) = Some (True, uri_text (u\<lparr>scheme_part := sc\<rparr>))"
proof -
  have "str_of (drop (length (scheme_part u)) (cstr (uri_text u))) =
      Some (CHR '':'' # info_part u @ host_part u @ params_part u @ headers_part u)"
    using wf_nul_free [OF assms(1)] by (subst str_of_drop_cstr) (simp_all add: uri_text_def)
  then show ?thesis
    using wf_scheme [OF assms(1)] wf_nonempty [OF assms(1)] assms(2,3)
    by (simp add: SIPURI_setScheme_def uri_text_def)
qed

lemma set_headers:
  assumes "uri_wf u" "headers_ok hs"
  shows "SIPURI_setHeaders (uri_text u) hs = Some (True, uri_text (u\<lparr>headers_part := hs\<rparr>))"
proof -
  have "parse uriParametersParser (cstr (uri_text u)) =
      Some (length (front_text u @ host_part u @ params_part u))"
    using abnf_rule.parse_cstr [OF safe_uriParametersParser wf_nul_free(5) [OF assms(1)], of "[]"]
      wf_uriParameters(2) [OF assms(1)] by (simp add: cstr_def)
  moreover have "take (length (front_text u @ host_part u @ params_part u)) (cstr (uri_text u)) =
      front_text u @ host_part u @ params_part u"
    by (simp add: uri_text_front cstr_def)
  ultimately show ?thesis
    using assms(2) wf_nonempty [OF assms(1)]
    by (simp add: SIPURI_setHeaders_def evaluate_cstr0 [OF safe_ABNFSIPURIHeaders] headers_ok_def
        uri_text_def front_text_def)
qed

text \<open>What \<open>userInfoVerify\<close> accepts, with an at sign behind it, is user information.\<close>

lemma info_of_verified:
  assumes "nul_free s" "s \<noteq> []"
    and "consumed (ABNFLRSequence2 ABNFSIPUser userinfo_password) s = length s"
  shows "info_ok (s @ ''@'')"
proof -
  let ?n = "consumed ABNFSIPUser s"
  let ?u = "take ?n s" and ?p = "drop ?n s"
  let ?at = "ABNFCharComparison CHR ''@''"
  have n: "?n \<le> length s" by (rule user.consumed_le [OF assms(1)])
  have pn: "nul_free ?p" by (rule nul_free_drop [OF assms(1)])
  have "seq_take [ABNFSIPUser, userinfo_password] s = length s"
    using assms(1,3) consumed_LRSequence2 [OF safe_ABNFSIPUser safe_userinfo_password] by simp
  then have nz: "?n \<noteq> 0" and k: "consumed userinfo_password ?p = length ?p"
    using assms(2) n abnf_rule.consumed_le [OF safe_userinfo_password pn]
    by (auto simp: seq_take_def Let_def ABNFSIPUser_def split: if_splits)
  have up: "s = ?u @ ?p" "length ?u = ?n" using n by simp_all
  have "?p = [] \<or> hd ?p = CHR '':''"
    using consumed_password_hd [OF pn] k by auto
  then have d: "?p = [] \<or> hd ?p \<in> {CHR ''@'', CHR '':''}" "hd (?p @ ''@'') \<in> {CHR ''@'', CHR '':''}"
    by (auto simp: hd_append)
  have "consumed ABNFSIPUser (?u @ ?p @ ''@'') = length ?u"
    using d up assms(1) user.consumed_exchange [of ?u ?p "?p @ ''@''"] by auto
  moreover have "consumed userinfo_password (?p @ ''@'') = length ?p"
    using delimited.consumed_whole [OF delim_userinfo_password k, of "''@''"] pn by simp
  moreover have "consumed ?at ''@'' = 1" "isOptional userinfo_password"
    by (simp_all add: consumed_Comparison userinfo_password_def)
  ultimately have "seq_take userinfo_rules (?u @ ?p @ ''@'') = length s + 1"
    using nz n by (simp add: seq_take_def Let_def)
  moreover have "?u @ ?p @ ''@'' = s @ ''@''"
    by (simp flip: append_assoc)
  ultimately have "consumed ABNFSIPUserInfo (s @ ''@'') = length s + 1"
    using userinfo_tok.consumed_seq [of "s @ ''@''"] assms(1) by simp
  then show ?thesis
    using assms(1) by (simp add: info_ok_def)
qed

lemma set_info:
  assumes "uri_wf u" "nul_free s" "s \<noteq> []" "userInfoVerify (cstr s) = Some True"
  shows "SIPURI_setUserInfo (uri_text u) (Some (cstr s)) = Some (True, uri_text (u\<lparr>info_part := s @ ''@''\<rparr>))"
proof -
  let ?rest = "host_part u @ params_part u @ headers_part u"
  have nf: "nul_free (info_part u @ ?rest)"
    using wf_nul_free(5) [OF assms(1)] by (simp add: uri_text_def)
  have "parse ABNFSIPUserInfo (drop (length (scheme_part u) + 1) (cstr (uri_text u))) = Some (length (info_part u))"
    unfolding wf_after_colon [OF assms(1)]
    using abnf_rule.parse_cstr [OF safe_ABNFSIPUserInfo nf, of "[]"] wf_info [OF assms(1)] by simp
  moreover have "str_of (drop (length (scheme_part u) + 1 + length (info_part u)) (cstr (uri_text u))) = Some ?rest"
    using wf_nul_free [OF assms(1)] by (subst str_of_drop_cstr) (simp_all add: uri_text_def)
  moreover have "take (length (scheme_part u) + 1) (cstr (uri_text u)) = scheme_part u @ '':''"
    by (simp add: uri_text_def cstr_def)
  ultimately show ?thesis
    using assms wf_colon [OF assms(1)] by (simp add: SIPURI_setUserInfo_def uri_text_def)
qed

lemma verify_info:
  assumes "nul_free s" "userInfoVerify (cstr s) = Some True"
  shows "consumed (ABNFLRSequence2 ABNFSIPUser userinfo_password) s = length s"
  using assms evaluate_cstr0 [OF rule_LRSequence(1) [OF safe_ABNFSIPUser safe_userinfo_password] assms(1)]
  by (simp add: userInfoVerify_def userinfo_password_def)

text \<open>C24: the setters act on the parts like the update of a record. \<open>setScheme\<close>,
  \<open>setUserInfo\<close>, \<open>setHostPort\<close> and \<open>setHeaders\<close> with an argument the grammar
  accepts replace their part, keep every other part, and leave a well-formed URI, on which the
  getters return the new value.\<close>

theorem uri_setters:
  assumes "uri_wf u" "scheme_ok sc" "host_ok hp" "headers_ok hs"
    and "nul_free info" "info \<noteq> []" "userInfoVerify (cstr info) = Some True"
  shows "SIPURI_setScheme (uri_text u) (Some (cstr sc)) = Some (True, uri_text (u\<lparr>scheme_part := sc\<rparr>)) \<and>
    SIPURI_setUserInfo (uri_text u) (Some (cstr info)) = Some (True, uri_text (u\<lparr>info_part := info @ ''@''\<rparr>)) \<and>
    SIPURI_setHostPort (uri_text u) (Some (cstr hp)) = Some (True, uri_text (u\<lparr>host_part := hp\<rparr>)) \<and>
    SIPURI_setHeaders (uri_text u) hs = Some (True, uri_text (u\<lparr>headers_part := hs\<rparr>)) \<and>
    uri_wf (u\<lparr>scheme_part := sc\<rparr>) \<and> uri_wf (u\<lparr>info_part := info @ ''@''\<rparr>) \<and>
    uri_wf (u\<lparr>host_part := hp\<rparr>) \<and> uri_wf (u\<lparr>headers_part := hs\<rparr>)"
proof -
  have "info_ok (info @ ''@'')"
    by (rule info_of_verified [OF assms(5,6) verify_info [OF assms(5,7)]])
  moreover have "nul_free sc" "sc \<noteq> []"
    using assms(2) by (simp_all add: scheme_ok_def)
  ultimately show ?thesis
    using set_scheme [OF assms(1)] set_info [OF assms(1,5-7)] set_host [OF assms(1,3)]
      set_headers [OF assms(1,4)] assms(1-4) by (simp add: uri_wf_def)
qed

theorem uri_setters_witness:
  "SIPURI_setScheme (uri_text example_uri) (Some (cstr ''tel'')) =
     Some (True, uri_text (example_uri\<lparr>scheme_part := ''tel''\<rparr>)) \<and>
   SIPURI_setHostPort (uri_text example_uri) (Some (cstr ''[::1]:5061'')) =
     Some (True, uri_text (example_uri\<lparr>host_part := ''[::1]:5061''\<rparr>))"
proof -
  have "scheme_ok ''tel''" "host_ok ''[::1]:5061''" "headers_ok ''?x=y''"
    "userInfoVerify (cstr ''alice'') = Some True"
    by code_simp+
  then show ?thesis
    using uri_setters [OF example_uri_wf, of "''tel''" "''[::1]:5061''" "''?x=y''" "''alice''"] by simp
qed

section \<open>Parameters\<close>

lemma consumed_scheme_hd: "nul_free s \<Longrightarrow> s = [] \<or> \<not> is_alpha (hd s) \<Longrightarrow> consumed ABNFSIPScheme s = 0"
proof -
  assume s: "nul_free s" "s = [] \<or> \<not> is_alpha (hd s)"
  let ?r = "ABNFLoopUntil (ABNFAnyOfMultiple3 ABNFCharAlpha ABNFCharDigit (ABNFAnyOfChars ''+-.''))
    ABNFLoopExitIfNul 0 1024"
  have "abnf_rule ?r"
    by (rule rule_safe | rule abnf_rule_imp_ne | simp)+
  then have "consumed ABNFSIPScheme s = seq_take [ABNFCharAlpha, ?r] s"
    unfolding ABNFSIPScheme_def using s(1) by (simp add: consumed_LRSequence2 rule_safe)
  moreover have "consumed ABNFCharAlpha s = 0"
    using s by (auto simp: refines_consumed [OF class_Alpha] char_take_def)
  ultimately show ?thesis by (simp add: seq_take_def)
qed

lemma uriParametersParser_scheme:
  assumes "nul_free s" "consumed ABNFSIPScheme s = 0"
  shows "consumed uriParametersParser s = 0"
proof -
  have "consumed uri_prefix s = seq_take [ABNFSIPScheme, ABNFCharComparison CHR '':'', ABNFLROptional ABNFSIPUserInfo] s"
    unfolding uri_prefix_def ABNFLRSequence3_def using assms(1)
    by (intro refines_consumed [OF refines_lr_sequence]) (auto intro: rule_safe abnf_rule_imp_ne)
  then have "consumed uri_prefix s = 0"
    using assms(2) by (simp add: seq_take_def)
  then have "consumed hostPortParser s = 0"
    using hostPort_tok.consumed_seq [OF assms(1)] by (simp add: seq_take_def)
  then show ?thesis
    using uriParameters_tok.consumed_seq [OF assms(1)] by (simp add: seq_take_def)
qed

lemma headers_hd:
  assumes "nul_free s" "s = [] \<or> hd s \<noteq> CHR ''?''"
  shows "consumed ABNFSIPURIHeaders s = 0"
  using headers_tok.consumed_seq [OF assms(1)] assms consumed_Comparison [of "CHR ''?''" s]
  by (auto simp: seq_take_def)

lemma set_params:
  assumes "uri_wf u" "params_ok ps"
  shows "SIPURI_setParams (uri_text u) ps = Some (True, uri_text
    (u\<lparr>params_part := ps, headers_part := if params_part u = [] then headers_part u else []\<rparr>))"
proof -
  let ?tail = "params_part u @ headers_part u"
  define h where "h = length (front_text u @ host_part u)"
  have nf: "nul_free ?tail"
    using wf_nul_free [OF assms(1)] by simp
  have hd_tail: "?tail = [] \<or> hd ?tail = CHR '';'' \<or> hd ?tail = CHR ''?''"
    using assms(1) by (cases "params_part u") (auto simp: uri_wf_def part_ok_defs)
  have drop: "drop h (cstr (uri_text u)) = ?tail @ [NUL]"
    by (simp add: cstr_def uri_text_front h_def)
  have host: "parse hostPortParser (cstr (uri_text u)) = Some h" "h \<noteq> 0"
    using abnf_rule.parse_cstr [OF safe_hostPortParser wf_nul_free(5) [OF assms(1)], of "[]"]
      wf_hostPort(2) [OF assms(1)] wf_nonempty [OF assms(1)] by (simp_all add: cstr_def h_def)
  have "\<not> is_alpha CHR '';''" "\<not> is_alpha CHR ''?''"
    by (simp_all add: is_alpha_def schar_def)
  then have "consumed uriParametersParser ?tail = 0"
    using hd_tail nf by (intro uriParametersParser_scheme consumed_scheme_hd) auto
  then have skip: "parse uriParametersParser (?tail @ [NUL]) = Some 0"
    using abnf_rule.parse_cstr [OF safe_uriParametersParser nf, of "[]"] by simp
  have "consumed ABNFSIPURIHeaders ?tail = (if params_part u = [] then length (headers_part u) else 0)"
    using assms(1) headers_hd [OF nf] by (auto simp: uri_wf_def part_ok_defs hd_append)
  then have hs: "parse ABNFSIPURIHeaders (?tail @ [NUL]) =
      Some (if params_part u = [] then length (headers_part u) else 0)"
    using headers.parse_cstr [OF nf, of "[]"] by simp
  have valid: "(if ps \<noteq> [] then parse ABNFSIPURIParameters (cstr ps) else Some 1) = Some (max 1 (length ps))"
    using assms(2) params.parse_cstr [of ps "[]"] by (auto simp: params_ok_def cstr_def Suc_le_eq max_def)
  have front: "take h (cstr (uri_text u)) = front_text u @ host_part u"
    by (simp add: cstr_def uri_text_front h_def)
  have "SIPURI_setParams (uri_text u) ps = Some (True, front_text u @ host_part u @ ps @
      (if params_part u = [] then headers_part u else []))"
    unfolding SIPURI_setParams_def valid
    using host(2) by (simp add: host(1) drop front skip [simplified] hs [simplified])
  then show ?thesis
    by (simp add: uri_text_def front_text_def)
qed

lemma set_params_ok:
  "uri_wf u \<Longrightarrow> params_ok ps \<Longrightarrow> params_part u = [] \<Longrightarrow>
   SIPURI_setParams (uri_text u) ps = Some (True, uri_text (u\<lparr>params_part := ps\<rparr>))"
  by (simp add: set_params)

text \<open>\<open>setParams\<close> replaces the parameters of a URI and keeps scheme, user and host. It
  keeps the headers only when there were no parameters before: the old parameters are skipped
  with a parser for a whole URI, which never matches there, so the search for the headers starts
  at the old parameters and finds none.\<close>

theorem set_params_drops_headers:
  assumes "uri_wf u" "params_ok ps"
  shows "SIPURI_setParams (uri_text u) ps = Some (True, uri_text
    (u\<lparr>params_part := ps, headers_part := if params_part u = [] then headers_part u else []\<rparr>))"
  by (rule set_params [OF assms])

theorem set_params_drops_headers_witness:
  "SIPURI_setParams ''sip:a.b;x=1?h=v'' '';y=2'' = Some (True, ''sip:a.b;y=2'')"
proof -
  let ?u = "\<lparr>scheme_part = ''sip'', info_part = [], host_part = ''a.b'', params_part = '';x=1'',
    headers_part = ''?h=v''\<rparr>"
  have "uri_wf ?u" "params_ok '';y=2''"
    by code_simp+
  from set_params_drops_headers [OF this] show ?thesis
    by (simp add: uri_text_def)
qed

definition pname_ok :: "string \<Rightarrow> bool" where
  "pname_ok s = (s \<noteq> [] \<and> nul_free s \<and> consumed ABNF_SIP_pname s = length s)"

definition pvalue_ok :: "string \<Rightarrow> bool" where
  "pvalue_ok s = (s \<noteq> [] \<and> nul_free s \<and> consumed ABNF_SIP_pvalue s = length s)"

lemma consumed_parameter:
  assumes "pname_ok name" "pvalue_ok value"
  shows "consumed ABNFSIPURIParameter (name @ CHR ''='' # value) = length name + 1 + length value"
proof -
  let ?v = "ABNFLRSequence2 (ABNFCharComparison CHR ''='') ABNF_SIP_pvalue"
  have nf: "nul_free (name @ CHR ''='' # value)" "nul_free (CHR ''='' # value)"
    using assms by (auto simp: pname_ok_def pvalue_ok_def)
  have safe: "abnf_rule ?v" "abnf_rule (ABNFLROptional ?v)"
    by (rule rule_safe | rule abnf_rule_imp_ne | simp)+
  have "consumed ?v (CHR ''='' # value) = Suc (length value)"
    using assms nf(2) by (simp add: consumed_LRSequence2 rule_safe seq_take_def consumed_Comparison
        Let_def pvalue_ok_def)
  then have "consumed (ABNFLROptional ?v) (CHR ''='' # value) = Suc (length value)"
    using consumed_Optional [OF safe(1) nf(2)] by simp
  moreover have "consumed ABNF_SIP_pname (name @ CHR ''='' # value) = length name"
    using assms(1) nf(1) by (intro pname.consumed_whole) (auto simp: pname_ok_def)
  ultimately show ?thesis
    unfolding ABNFSIPURIParameter_def
    using assms(1) nf(1) consumed_LRSequence2 [OF safe_ABNF_SIP_pname safe(2) nf(1)]
    by (simp add: seq_take_def pname_ok_def)
qed

lemma single_param_ok:
  assumes "pname_ok name" "pvalue_ok value"
  shows "params_ok (CHR '';'' # name @ CHR ''='' # value)"
proof -
  let ?s = "CHR '';'' # name @ CHR ''='' # value"
  have nf: "nul_free ?s" "nul_free (name @ CHR ''='' # value)"
    using assms by (auto simp: pname_ok_def pvalue_ok_def)
  have "consumed uri_parameter_item ?s = length ?s"
    unfolding uri_parameter_item_def
    using nf consumed_parameter [OF assms]
    by (simp add: consumed_LRSequence2 rule_safe seq_take_def consumed_Comparison Let_def)
  then have "concat (rep_pieces uri_parameter_item ABNFLoopExitIfNul 1024 ?s) = ?s"
    by (simp add: numeral_eq_Suc exit_if_nul)
  moreover have "consumed ABNFSIPURIParameters ?s = rep_take uri_parameter_item ABNFLoopExitIfNul 0 1024 ?s"
    unfolding ABNFSIPURIParameters_def consumed_wrap
    using nf(1) by (intro refines_consumed [OF refines_LoopUntil] abnf_rule_imp_ne rule_safe) simp_all
  ultimately show ?thesis
    using nf(1) by (simp add: params_ok_def rep_take_def Let_def)
qed

lemma find_next_start:
  "nul_free key \<Longrightarrow> key \<noteq> [] \<Longrightarrow> findNextIterFromString key (cstr (key @ rest)) = Some (length key)"
  using find_next_prefix [of key 0 0 "rest @ [NUL]"] by (simp add: findNextIterFromString_def cstr_def)

lemma get_first_param:
  assumes "pname_ok name" "pvalue_ok value" "name \<noteq> ''lr''"
    and "nul_free rest" "rest = [] \<or> hd rest = CHR '';''"
  shows "SIPURI_getParamEx (CHR '';'' # name @ CHR ''='' # value @ rest) (cstr name) old = Some (True, value)"
proof -
  let ?key = "'';'' @ name @ ''=''"
  have nf: "nul_free name" "nul_free value"
    using assms by (auto simp: pname_ok_def pvalue_ok_def)
  have "findNextIterFromString ?key (cstr (?key @ value @ rest)) = Some (length ?key)"
    using nf by (intro find_next_start) simp_all
  moreover have "consumed ABNF_SIP_pvalue (value @ rest) = length value"
    using assms nf by (intro pvalue.consumed_whole) (auto simp: pvalue_ok_def)
  then have "parse ABNF_SIP_pvalue ((value @ rest) @ [NUL]) = Some (length value)"
    using pvalue.parse_cstr [of "value @ rest" "[]"] nf assms(4) by simp
  ultimately show ?thesis
    using assms(2,3) nf by (auto simp: SIPURI_getParamEx_def cstr_def pvalue_ok_def Let_def)
qed

text \<open>C25: a parameter that is set on a URI without parameters can be read back. Name and value
  the grammar accepts are appended as \<open>;name=value\<close>, the other parts of the URI including
  its headers stay as they were, and \<open>getParam\<close> then returns the value.\<close>

theorem set_get_param:
  assumes "uri_wf u" "params_part u = []" "pname_ok name" "pvalue_ok value"
    and "\<not> strcasecmp_eq name ''lr''"
  shows "SIPURI_setParam to_lower (uri_text u) (cstr name) (cstr value) =
      Some (True, uri_text (u\<lparr>params_part := CHR '';'' # name @ CHR ''='' # value\<rparr>)) \<and>
    uri_wf (u\<lparr>params_part := CHR '';'' # name @ CHR ''='' # value\<rparr>) \<and>
    SIPURI_getParam (uri_text (u\<lparr>params_part := CHR '';'' # name @ CHR ''='' # value\<rparr>)) (cstr name) old =
      Some (True, value)"
proof -
  let ?ps = "CHR '';'' # name @ CHR ''='' # value"
  let ?v = "u\<lparr>params_part := ?ps\<rparr>"
  have nf: "nul_free name" "nul_free value"
    using assms by (auto simp: pname_ok_def pvalue_ok_def)
  have ps: "params_ok ?ps"
    by (rule single_param_ok [OF assms(3,4)])
  then have wf: "uri_wf ?v"
    using assms(1) by (simp add: uri_wf_def)
  have "name \<noteq> ''lr''"
    using assms(5) by (auto simp: strcasecmp_eq_def)
  then have get: "SIPURI_getParam (uri_text ?v) (cstr name) old = Some (True, value)"
    using get_first_param [OF assms(3,4), of "[]" old] wf_uriParameters(1) [OF wf]
    by (simp add: SIPURI_getParam_def SIPURI_getParams_def)
  have "ABNFEvaluate ABNF_SIP_pname (cstr name) = Some True" "ABNFEvaluate ABNF_SIP_pvalue (cstr value) = Some True"
    using assms(3,4) evaluate_cstr0 [OF safe_ABNF_SIP_pname] evaluate_cstr0 [OF safe_ABNF_SIP_pvalue]
    by (simp_all add: pname_ok_def pvalue_ok_def)
  moreover have "findNextIterFromString key (cstr []) = Some 0" for key
    by (simp add: findNextIterFromString_def cstr_def)
  ultimately have "SIPURI_setParamEx to_lower [] (cstr name) (cstr value) = Some (True, ?ps)"
    using nf assms(5) by (simp add: SIPURI_setParamEx_def Let_def)
  moreover have "SIPURI_getParams (uri_text u) [] = Some (True, [])"
    using wf_uriParameters(1) [OF assms(1)] assms(2) by (simp add: SIPURI_getParams_def)
  ultimately show ?thesis
    using wf get set_params_ok [OF assms(1) ps assms(2)] by (simp add: SIPURI_setParam_def)
qed

theorem set_get_param_witness:
  "SIPURI_setParam id ''sip:a.b?h=v'' (cstr ''transport'') (cstr ''tcp'') =
     Some (True, ''sip:a.b;transport=tcp?h=v'') \<and>
   SIPURI_getParam ''sip:a.b;transport=tcp?h=v'' (cstr ''transport'') [] = Some (True, ''tcp'')"
proof -
  let ?u = "\<lparr>scheme_part = ''sip'', info_part = [], host_part = ''a.b'', params_part = [],
    headers_part = ''?h=v''\<rparr>"
  have "uri_wf ?u" "pname_ok ''transport''" "pvalue_ok ''tcp''" "\<not> strcasecmp_eq ''transport'' ''lr''"
    by code_simp+
  then show ?thesis
    using set_get_param [of ?u "''transport''" "''tcp''" id "[]"] by (simp add: uri_text_def)
qed

text \<open>A parameter can be there and not be found. When the parameter before it is a proper
  prefix of the name that is looked up, the search has matched that prefix, fails at the
  semicolon, and goes on behind it.\<close>

theorem get_param_misses:
  "params_ok '';tr;transport=tcp'' \<and> contains '';tr;transport=tcp'' '';transport=tcp'' \<and>
   SIPURI_getParamEx '';tr;transport=tcp'' (cstr ''transport'') [] = Some (False, [])"
  by code_simp

end
