(* ===== verification/SIP_StartLine.thy ===== *)
theory SIP_StartLine
  imports ABNF_Search ABNF_Delim SIP_Parser
begin

text \<open>
  The start lines of SIP messages: \<^verbatim>\<open>sipparser/SIPStatusLine.cpp\<close> and
  \<^verbatim>\<open>sipparser/SIPRequestLine.cpp\<close>. The state of both classes is the string
  \<open>_data\<close>. Both cut a line at its first two spaces; the locale \<open>start_line\<close> states
  what that means for the six accessors, and both classes are shown to implement it.
\<close>

section \<open>Status lines\<close>

definition EMPTY_STATUS_LINE :: string where
  "EMPTY_STATUS_LINE = ''SIP/2.0 0 INVALID''"

definition StatusLine_check_empty :: "string \<Rightarrow> string" where
  "StatusLine_check_empty sline = (if sline = [] then EMPTY_STATUS_LINE else sline)"

definition StatusLine_is_empty :: "mem option \<Rightarrow> bool option" where
  "StatusLine_is_empty str = (case str of None \<Rightarrow> Some True | Some m \<Rightarrow> map_option (\<lambda>s. s = []) (str_of m))"

definition SIPStatusLine_getVersion :: "string \<Rightarrow> string \<Rightarrow> (bool \<times> string) option" where
  "SIPStatusLine_getVersion sline version = do {
     v \<leftarrow> findNextIterFromString '' '' (cstr sline);
     Some (if v = 0 then (False, version) else (True, take (v - 1) (cstr sline)))
   }"

definition SIPStatusLine_setVersion :: "string \<Rightarrow> mem option \<Rightarrow> (bool \<times> string) option" where
  "SIPStatusLine_setVersion sline version = do {
     e \<leftarrow> StatusLine_is_empty version;
     if e then Some (False, sline)
     else do {
       v \<leftarrow> findNextIterFromString '' '' (cstr sline);
       if v = 0 then Some (False, sline)
       else do {
         ver \<leftarrow> str_of (the version);
         rest \<leftarrow> str_of (drop v (cstr sline));
         Some (True, ver @ '' '' @ rest)
       }
     }
   }"

definition SIPStatusLine_getStatusCode :: "string \<Rightarrow> string \<Rightarrow> (bool \<times> string) option" where
  "SIPStatusLine_getStatusCode sline statusCode = do {
     v \<leftarrow> findNextIterFromString '' '' (cstr sline);
     if v = 0 then Some (False, statusCode)
     else do {
       c \<leftarrow> findNextIterFromString '' '' (drop v (cstr sline));
       Some (if c = 0 then (False, statusCode) else (True, take (c - 1) (drop v (cstr sline))))
     }
   }"

text \<open>\<open>to_uint\<close> is \<open>lexical_cast<unsigned int>\<close>.\<close>

definition SIPStatusLine_getStatusCode_number :: "(string \<Rightarrow> nat option) \<Rightarrow> string \<Rightarrow> nat option" where
  "SIPStatusLine_getStatusCode_number to_uint data = do {
     (ok, scode) \<leftarrow> SIPStatusLine_getStatusCode data [];
     s \<leftarrow> str_of (cstr scode);
     Some (if \<not> ok then 0 else case to_uint s of Some n \<Rightarrow> n | None \<Rightarrow> 0)
   }"

definition SIPStatusLine_setStatusCode :: "string \<Rightarrow> mem \<Rightarrow> (bool \<times> string) option" where
  "SIPStatusLine_setStatusCode sline statusCode = do {
     v \<leftarrow> findNextIterFromString '' '' (cstr sline);
     if v = 0 then Some (False, sline)
     else do {
       code \<leftarrow> str_of statusCode;
       c \<leftarrow> findNextIterFromString '' '' (drop v (cstr sline));
       if c = 0 then Some (False, sline)
       else do {
         rest \<leftarrow> str_of (drop (v + c) (cstr sline));
         Some (True, take v (cstr sline) @ code @ '' '' @ rest)
       }
     }
   }"

definition SIPStatusLine_getReasonPhrase :: "string \<Rightarrow> string \<Rightarrow> (bool \<times> string) option" where
  "SIPStatusLine_getReasonPhrase sline reasonPhrase = do {
     v \<leftarrow> findNextIterFromString '' '' (cstr sline);
     if v = 0 then Some (False, reasonPhrase)
     else do {
       c \<leftarrow> findNextIterFromString '' '' (drop v (cstr sline));
       if c = 0 then Some (False, reasonPhrase)
       else do {
         reason \<leftarrow> str_of (drop (v + c) (cstr sline));
         Some (True, reason)
       }
     }
   }"

definition SIPStatusLine_setReasonPhrase :: "string \<Rightarrow> mem \<Rightarrow> (bool \<times> string) option" where
  "SIPStatusLine_setReasonPhrase sline reasonPhrase = do {
     v \<leftarrow> findNextIterFromString '' '' (cstr sline);
     if v = 0 then Some (False, sline)
     else do {
       c \<leftarrow> findNextIterFromString '' '' (drop v (cstr sline));
       if c = 0 then Some (False, sline)
       else do {
         reason \<leftarrow> str_of reasonPhrase;
         Some (True, take (v + c) (cstr sline) @ reason)
       }
     }
   }"

text \<open>The member functions guard against an empty argument and an empty object.\<close>

definition SIPStatusLine_setVersion_member :: "string \<Rightarrow> mem option \<Rightarrow> (bool \<times> string) option" where
  "SIPStatusLine_setVersion_member data version = do {
     e \<leftarrow> StatusLine_is_empty version;
     if e then Some (False, data)
     else SIPStatusLine_setVersion (StatusLine_check_empty data) version
   }"

definition SIPStatusLine_setStatusCode_member :: "string \<Rightarrow> mem option \<Rightarrow> (bool \<times> string) option" where
  "SIPStatusLine_setStatusCode_member data statusCode = do {
     e \<leftarrow> StatusLine_is_empty statusCode;
     if e then Some (False, data)
     else SIPStatusLine_setStatusCode (StatusLine_check_empty data) (the statusCode)
   }"

definition SIPStatusLine_setStatusCodeInt :: "(nat \<Rightarrow> string) \<Rightarrow> string \<Rightarrow> nat \<Rightarrow> (bool \<times> string) option" where
  "SIPStatusLine_setStatusCodeInt from_uint data statusCode =
     SIPStatusLine_setStatusCode_member data (Some (cstr (from_uint statusCode)))"

definition SIPStatusLine_setReasonPhrase_member :: "string \<Rightarrow> mem option \<Rightarrow> (bool \<times> string) option" where
  "SIPStatusLine_setReasonPhrase_member data reasonPhrase = do {
     e \<leftarrow> StatusLine_is_empty reasonPhrase;
     if e then Some (False, data)
     else SIPStatusLine_setReasonPhrase (StatusLine_check_empty data) (the reasonPhrase)
   }"

section \<open>Request lines\<close>

definition EMPTY_REQUEST_LINE :: string where
  "EMPTY_REQUEST_LINE = ''INVALID sip:invalid SIP/2.0''"

definition RequestLine_check_empty :: "string \<Rightarrow> string" where
  "RequestLine_check_empty rline = (if rline = [] then EMPTY_REQUEST_LINE else rline)"

definition RequestLine_is_empty :: "mem option \<Rightarrow> bool option" where
  "RequestLine_is_empty str = (case str of None \<Rightarrow> Some True | Some m \<Rightarrow> map_option (\<lambda>s. s = []) (str_of m))"

definition SIPRequestLine_getMethod :: "string \<Rightarrow> string \<Rightarrow> (bool \<times> string) option" where
  "SIPRequestLine_getMethod rline method = do {
     n \<leftarrow> findNextIterFromString '' '' (cstr rline);
     Some (if n = 0 then (False, method) else (True, take (n - 1) (cstr rline)))
   }"

definition SIPRequestLine_setMethod :: "string \<Rightarrow> mem \<Rightarrow> (bool \<times> string) option" where
  "SIPRequestLine_setMethod rline method = do {
     n \<leftarrow> findNextIterFromString '' '' (cstr rline);
     if n = 0 then Some (False, rline)
     else do {
       m \<leftarrow> str_of method;
       rest \<leftarrow> str_of (drop n (cstr rline));
       Some (True, m @ '' '' @ rest)
     }
   }"

definition SIPRequestLine_getURI :: "string \<Rightarrow> string \<Rightarrow> (bool \<times> string) option" where
  "SIPRequestLine_getURI rline uri = do {
     m \<leftarrow> findNextIterFromString '' '' (cstr rline);
     if m = 0 then Some (False, uri)
     else do {
       u \<leftarrow> findNextIterFromString '' '' (drop m (cstr rline));
       Some (if u = 0 then (False, uri) else (True, take (u - 1) (drop m (cstr rline))))
     }
   }"

definition SIPRequestLine_setURI :: "string \<Rightarrow> mem \<Rightarrow> (bool \<times> string) option" where
  "SIPRequestLine_setURI rline uri = do {
     m \<leftarrow> findNextIterFromString '' '' (cstr rline);
     if m = 0 then Some (False, rline)
     else do {
       new \<leftarrow> str_of uri;
       u \<leftarrow> findNextIterFromString '' '' (drop m (cstr rline));
       if u = 0 then Some (False, rline)
       else do {
         rest \<leftarrow> str_of (drop (m + u) (cstr rline));
         Some (True, take m (cstr rline) @ new @ '' '' @ rest)
       }
     }
   }"

definition SIPRequestLine_getVersion :: "string \<Rightarrow> string \<Rightarrow> (bool \<times> string) option" where
  "SIPRequestLine_getVersion rline version = do {
     m \<leftarrow> findNextIterFromString '' '' (cstr rline);
     if m = 0 then Some (False, version)
     else do {
       u \<leftarrow> findNextIterFromString '' '' (drop m (cstr rline));
       if u = 0 then Some (False, version)
       else do {
         v \<leftarrow> str_of (drop (m + u) (cstr rline));
         Some (True, v)
       }
     }
   }"

definition SIPRequestLine_setVersion :: "string \<Rightarrow> mem \<Rightarrow> (bool \<times> string) option" where
  "SIPRequestLine_setVersion rline version = do {
     m \<leftarrow> findNextIterFromString '' '' (cstr rline);
     if m = 0 then Some (False, rline)
     else do {
       u \<leftarrow> findNextIterFromString '' '' (drop m (cstr rline));
       if u = 0 then Some (False, rline)
       else do {
         v \<leftarrow> str_of version;
         Some (True, take (m + u) (cstr rline) @ v)
       }
     }
   }"

definition SIPRequestLine_setMethod_member :: "string \<Rightarrow> mem option \<Rightarrow> (bool \<times> string) option" where
  "SIPRequestLine_setMethod_member data method = do {
     e \<leftarrow> RequestLine_is_empty method;
     if e then Some (False, data)
     else SIPRequestLine_setMethod (RequestLine_check_empty data) (the method)
   }"

definition SIPRequestLine_setURI_member :: "string \<Rightarrow> mem option \<Rightarrow> (bool \<times> string) option" where
  "SIPRequestLine_setURI_member data uri = do {
     e \<leftarrow> RequestLine_is_empty uri;
     if e then Some (False, data)
     else SIPRequestLine_setURI (RequestLine_check_empty data) (the uri)
   }"

definition SIPRequestLine_setVersion_member :: "string \<Rightarrow> mem option \<Rightarrow> (bool \<times> string) option" where
  "SIPRequestLine_setVersion_member data version = do {
     e \<leftarrow> RequestLine_is_empty version;
     if e then Some (False, data)
     else SIPRequestLine_setVersion (RequestLine_check_empty data) (the version)
   }"

section \<open>Three fields\<close>

definition line3 :: "string \<Rightarrow> string \<Rightarrow> string \<Rightarrow> string" where
  "line3 a b c = a @ CHR '' '' # b @ CHR '' '' # c"

definition field_ok :: "string \<Rightarrow> bool" where
  "field_ok s = (nul_free s \<and> CHR '' '' \<notin> set s)"

text \<open>The contract of a start line class: three getters and three setters over the fields.\<close>

locale start_line =
  fixes get1 get2 get3 :: "string \<Rightarrow> string \<Rightarrow> (bool \<times> string) option"
    and set1 set2 set3 :: "string \<Rightarrow> mem \<Rightarrow> (bool \<times> string) option"
  assumes getters: "field_ok a \<Longrightarrow> field_ok b \<Longrightarrow> nul_free c \<Longrightarrow>
      get1 (line3 a b c) old = Some (True, a) \<and> get2 (line3 a b c) old = Some (True, b) \<and>
      get3 (line3 a b c) old = Some (True, c)"
    and setters: "field_ok a \<Longrightarrow> field_ok b \<Longrightarrow> nul_free c \<Longrightarrow> nul_free x \<Longrightarrow> x \<noteq> [] \<Longrightarrow>
      set1 (line3 a b c) (cstr x) = Some (True, line3 x b c) \<and>
      set2 (line3 a b c) (cstr x) = Some (True, line3 a x c) \<and>
      set3 (line3 a b c) (cstr x) = Some (True, line3 a b x)"
begin

text \<open>Writing all three fields and reading them back.\<close>

lemma write_read:
  assumes "field_ok a" "field_ok b" "nul_free c" "field_ok x" "x \<noteq> []" "field_ok y" "y \<noteq> []"
    "nul_free z" "z \<noteq> []"
  shows "\<exists>l. do { (_, l) \<leftarrow> set1 (line3 a b c) (cstr x); (_, l) \<leftarrow> set2 l (cstr y); set3 l (cstr z) } = Some (True, l) \<and>
    get1 l old = Some (True, x) \<and> get2 l old = Some (True, y) \<and> get3 l old = Some (True, z)"
proof -
  have nf: "nul_free x" "nul_free y"
    using assms by (simp_all add: field_ok_def)
  have "set1 (line3 a b c) (cstr x) = Some (True, line3 x b c)"
    "set2 (line3 x b c) (cstr y) = Some (True, line3 x y c)"
    "set3 (line3 x y c) (cstr z) = Some (True, line3 x y z)"
    using setters assms nf by blast+
  then show ?thesis
    using getters [OF assms(4,6,8)] by simp
qed

end

subsection \<open>Both classes implement it\<close>

lemma find_space1:
  assumes "field_ok a" "nul_free r"
  shows "findNextIterFromString '' '' (cstr (a @ CHR '' '' # r)) = Some (length a + 1)"
proof -
  have "takeWhile (\<lambda>c. c \<noteq> CHR '' '') (a @ CHR '' '' # r) = a"
    using assms(1) by (intro takeWhile_append_stop) (auto simp: field_ok_def)
  then show ?thesis
    using find_next_char_cong [of "a @ CHR '' '' # r" "CHR '' ''" "{CHR '' ''}" "[]"] assms
    by (simp add: flip_eq_space cstr_def field_ok_def)
qed

lemma line3_offsets:
  assumes "field_ok a" "field_ok b" "nul_free c"
  shows "findNextIterFromString '' '' (cstr (line3 a b c)) = Some (length a + 1)"
    and "findNextIterFromString '' '' (drop (length a + 1) (cstr (line3 a b c))) = Some (length b + 1)"
    and "str_of (drop (length a + 1) (cstr (line3 a b c))) = Some (b @ CHR '' '' # c)"
    and "str_of (drop (length a + 1 + (length b + 1)) (cstr (line3 a b c))) = Some c"
proof -
  have nf: "nul_free (b @ CHR '' '' # c)"
    using assms by (simp add: field_ok_def)
  show "findNextIterFromString '' '' (cstr (line3 a b c)) = Some (length a + 1)"
    unfolding line3_def by (rule find_space1 [OF assms(1) nf])
  have d: "drop (length a + 1) (cstr (line3 a b c)) = cstr (b @ CHR '' '' # c)"
    by (simp add: line3_def cstr_def)
  then show "findNextIterFromString '' '' (drop (length a + 1) (cstr (line3 a b c))) = Some (length b + 1)"
    using find_space1 [OF assms(2,3)] by simp
  show "str_of (drop (length a + 1) (cstr (line3 a b c))) = Some (b @ CHR '' '' # c)"
    using d nf str_of_cstr [of "b @ CHR '' '' # c" "[]"] by (simp add: cstr_def)
  show "str_of (drop (length a + 1 + (length b + 1)) (cstr (line3 a b c))) = Some c"
    using assms(3) by (simp add: line3_def cstr_def)
qed

lemma line3_takes:
  "take (length a) (cstr (line3 a b c)) = a"
  "take (length b) (drop (length a + 1) (cstr (line3 a b c))) = b"
  "take (length a + 1) (cstr (line3 a b c)) = a @ '' ''"
  "take (length a + 1 + (length b + 1)) (cstr (line3 a b c)) = a @ '' '' @ b @ '' ''"
  by (simp_all add: line3_def cstr_def)

lemma str_of_cstr_arg: "nul_free x \<Longrightarrow> str_of (cstr x) = Some x"
  by (simp add: cstr_def)

interpretation status_line: start_line SIPStatusLine_getVersion SIPStatusLine_getStatusCode
  SIPStatusLine_getReasonPhrase "\<lambda>l v. SIPStatusLine_setVersion l (Some v)" SIPStatusLine_setStatusCode
  SIPStatusLine_setReasonPhrase
proof
  fix a b c old :: string
  assume ok: "field_ok a" "field_ok b" "nul_free c"
  show "SIPStatusLine_getVersion (line3 a b c) old = Some (True, a) \<and>
      SIPStatusLine_getStatusCode (line3 a b c) old = Some (True, b) \<and>
      SIPStatusLine_getReasonPhrase (line3 a b c) old = Some (True, c)"
    unfolding SIPStatusLine_getVersion_def SIPStatusLine_getStatusCode_def
      SIPStatusLine_getReasonPhrase_def line3_offsets(1) [OF ok]
    using line3_offsets(2-4) [OF ok] line3_takes [where a = a and b = b and c = c] by simp
  fix x :: string
  assume x: "nul_free x" "x \<noteq> []"
  show "SIPStatusLine_setVersion (line3 a b c) (Some (cstr x)) = Some (True, line3 x b c) \<and>
      SIPStatusLine_setStatusCode (line3 a b c) (cstr x) = Some (True, line3 a x c) \<and>
      SIPStatusLine_setReasonPhrase (line3 a b c) (cstr x) = Some (True, line3 a b x)"
    unfolding SIPStatusLine_setVersion_def SIPStatusLine_setStatusCode_def
      SIPStatusLine_setReasonPhrase_def line3_offsets(1) [OF ok]
    using line3_offsets(2-4) [OF ok] line3_takes [where a = a and b = b and c = c] x str_of_cstr_arg [OF x(1)]
    by (simp add: StatusLine_is_empty_def) (simp add: line3_def)
qed

interpretation request_line: start_line SIPRequestLine_getMethod SIPRequestLine_getURI
  SIPRequestLine_getVersion SIPRequestLine_setMethod SIPRequestLine_setURI SIPRequestLine_setVersion
proof
  fix a b c old :: string
  assume ok: "field_ok a" "field_ok b" "nul_free c"
  show "SIPRequestLine_getMethod (line3 a b c) old = Some (True, a) \<and>
      SIPRequestLine_getURI (line3 a b c) old = Some (True, b) \<and>
      SIPRequestLine_getVersion (line3 a b c) old = Some (True, c)"
    unfolding SIPRequestLine_getMethod_def SIPRequestLine_getURI_def
      SIPRequestLine_getVersion_def line3_offsets(1) [OF ok]
    using line3_offsets(2-4) [OF ok] line3_takes [where a = a and b = b and c = c] by simp
  fix x :: string
  assume x: "nul_free x" "x \<noteq> []"
  show "SIPRequestLine_setMethod (line3 a b c) (cstr x) = Some (True, line3 x b c) \<and>
      SIPRequestLine_setURI (line3 a b c) (cstr x) = Some (True, line3 a x c) \<and>
      SIPRequestLine_setVersion (line3 a b c) (cstr x) = Some (True, line3 a b x)"
    unfolding SIPRequestLine_setMethod_def SIPRequestLine_setURI_def
      SIPRequestLine_setVersion_def line3_offsets(1) [OF ok]
    using line3_offsets(2-4) [OF ok] line3_takes [where a = a and b = b and c = c] str_of_cstr_arg [OF x(1)]
    by simp (simp add: line3_def)
qed

section \<open>Properties\<close>

text \<open>C26: a status line and a request line behave like three fields. Setting version, status code
  and reason phrase (method, URI and version) of any line with two spaces and reading them back
  gives the values that were set, whatever the line held before; only the last field may contain
  spaces.\<close>

theorem start_line_write_read:
  assumes "field_ok a" "field_ok b" "nul_free c" "field_ok x" "x \<noteq> []" "field_ok y" "y \<noteq> []"
    "nul_free z" "z \<noteq> []"
  shows "(\<exists>l. do { (_, l) \<leftarrow> SIPStatusLine_setVersion (line3 a b c) (Some (cstr x));
               (_, l) \<leftarrow> SIPStatusLine_setStatusCode l (cstr y);
               SIPStatusLine_setReasonPhrase l (cstr z) } = Some (True, l) \<and>
      SIPStatusLine_getVersion l old = Some (True, x) \<and>
      SIPStatusLine_getStatusCode l old = Some (True, y) \<and>
      SIPStatusLine_getReasonPhrase l old = Some (True, z)) \<and>
    (\<exists>l. do { (_, l) \<leftarrow> SIPRequestLine_setMethod (line3 a b c) (cstr x);
               (_, l) \<leftarrow> SIPRequestLine_setURI l (cstr y);
               SIPRequestLine_setVersion l (cstr z) } = Some (True, l) \<and>
      SIPRequestLine_getMethod l old = Some (True, x) \<and>
      SIPRequestLine_getURI l old = Some (True, y) \<and>
      SIPRequestLine_getVersion l old = Some (True, z))"
  using status_line.write_read [OF assms] request_line.write_read [OF assms] by blast

theorem start_line_write_read_witness:
  "(\<exists>l. do { (_, l) \<leftarrow> SIPStatusLine_setVersion (line3 ''SIP/2.0'' ''0'' ''INVALID'') (Some (cstr ''SIP/2.0''));
               (_, l) \<leftarrow> SIPStatusLine_setStatusCode l (cstr ''404'');
               SIPStatusLine_setReasonPhrase l (cstr ''Not Found'') } = Some (True, l) \<and>
      SIPStatusLine_getVersion l [] = Some (True, ''SIP/2.0'') \<and>
      SIPStatusLine_getStatusCode l [] = Some (True, ''404'') \<and>
      SIPStatusLine_getReasonPhrase l [] = Some (True, ''Not Found''))"
  using start_line_write_read [of "''SIP/2.0''" "''0''" "''INVALID''" "''SIP/2.0''" "''404''" "''Not Found''" "[]"]
  by (simp add: field_ok_def)

section \<open>Reason phrases in the grammar\<close>

text \<open>The characters the reason phrase rule takes one at a time.\<close>

definition reserved_char :: "char \<Rightarrow> bool" where
  "reserved_char c = (c \<in> set '';/?:@&=+$,'')"

definition unreserved_char :: "char \<Rightarrow> bool" where
  "unreserved_char c = ((is_alpha c \<or> is_digit c) \<or>
     c \<in> set [CHR ''-'', CHR ''_'', CHR ''.'', CHR ''!'', CHR ''~'', CHR ''*'', CHR 0x27, CHR ''/''])"

definition reason_char :: "char \<Rightarrow> bool" where
  "reason_char c = (reserved_char c \<or> unreserved_char c)"

abbreviation reason_text :: rule where
  "reason_text \<equiv> ABNFAnyOfMultiple5 ABNF_SIP_reserved ABNF_SIP_unreserved ABNF_SIP_escaped
     ABNFSIPUtf8NonAscii ABNF_SIP_UTF8_CONT"

abbreviation reason_item :: rule where
  "reason_item \<equiv> ABNFAnyOf reason_text (ABNFAnyOf ABNFCharSpace ABNFCharHTab)"

lemma reason_safe: "abnf_rule reason_item" "abnf_rule_ne reason_text"
  by (rule rule_safe | rule abnf_rule_imp_ne | simp)+

text \<open>Two characters or more are left: the first alternative of \<open>UTF8-NONASCII\<close> takes two,
  because both ranges accept every character.\<close>

lemma Utf8NonAscii_takes_two:
  "nul_free (a # b # s) \<Longrightarrow> consumed ABNFSIPUtf8NonAscii (a # b # s) = 2"
proof -
  assume "nul_free (a # b # s)"
  then have "b \<noteq> NUL" by auto
  moreover have "schar c \<ge> lo \<or> schar c \<le> hi" if "lo \<le> hi" for c and lo hi :: int
    using that by linarith
  ultimately show ?thesis
    by (simp add: consumed_def cstr_def ABNFSIPUtf8NonAscii_def ABNFAnyOfMultiple5_def
        ABNFLRSequence2_def ABNFRange_def ABNF_SIP_UTF8_CONT_def char_rule_def ABNFLoopUntil_def
        loop_until.simps [of _ _ _ 0] loop_until.simps [of _ _ _ 1] loop_until.simps [of _ _ _ "Suc 0"]
        exit_if_nul)
qed

lemma class_unreserved:
  "refines ABNF_SIP_unreserved (char_take unreserved_char)"
  unfolding ABNF_SIP_unreserved_def ABNF_SIP_mark_def unreserved_char_def
  by (intro class_AnyOf class_AlphaNumeric class_AnyOfChars) simp

lemma class_reserved: "refines ABNF_SIP_reserved (char_take reserved_char)"
  unfolding ABNF_SIP_reserved_def reserved_char_def by (rule class_AnyOfChars) simp

lemma escaped_consumed: "nul_free s \<Longrightarrow> consumed ABNF_SIP_escaped s \<in> {0, 2}"
proof -
  assume s: "nul_free s"
  have hex: "consumed ABNFCharHex (tl s) = char_take is_hex (tl s)"
    by (rule refines_consumed [OF class_Hex nul_free_tl [OF s]])
  have "consumed ABNF_SIP_escaped s = seq_take [ABNFCharComparison CHR ''%'', ABNFCharHex] s"
    unfolding ABNF_SIP_escaped_def using s by (intro consumed_LRSequence2 rule_safe) simp_all
  then show ?thesis
    using hex consumed_Comparison [OF _ s, of "CHR ''%''"]
    by (cases s; cases "tl s") (simp_all add: seq_take_def Let_def)
qed

lemma text_flags [simp]:
  "\<not> isNull ABNF_SIP_reserved" "\<not> isNull ABNF_SIP_unreserved" "\<not> isNull ABNF_SIP_escaped"
  "\<not> isNull ABNFSIPUtf8NonAscii" "\<not> isNull ABNF_SIP_UTF8_CONT"
  by (simp_all add: ABNF_SIP_reserved_def ABNF_SIP_unreserved_def ABNF_SIP_escaped_def
      ABNFSIPUtf8NonAscii_def ABNF_SIP_UTF8_CONT_def)

lemma reason_item_consumed:
  assumes "nul_free (a # b # s)"
  shows "consumed reason_item (a # b # s) = (if reason_char a then 1 else 2)"
proof -
  let ?s = "a # b # s"
  let ?rs = "[ABNF_SIP_reserved, ABNF_SIP_unreserved, ABNF_SIP_escaped, ABNFSIPUtf8NonAscii, ABNF_SIP_UTF8_CONT]"
  have "\<forall>r \<in> set ?rs. abnf_rule_ne r"
    by (auto intro: rule_safe abnf_rule_imp_ne)
  from any_of_ne [OF assms _ this, of "[]"] have "consumed reason_text ?s = choices_take ?rs ?s"
    by (simp add: consumed_def cstr_def ABNFAnyOfMultiple5_def)
  moreover have "choices_take ?rs ?s = (if reason_char a then 1 else 2)"
    using escaped_consumed [OF assms] Utf8NonAscii_takes_two [OF assms]
      refines_consumed [OF class_reserved assms] refines_consumed [OF class_unreserved assms]
    by (auto simp: reason_char_def)
  moreover have "consumed reason_item ?s = choice_take reason_text (ABNFAnyOf ABNFCharSpace ABNFCharHTab) ?s"
    using assms by (intro refines_consumed [OF refines_AnyOf] reason_safe)
      (auto intro: rule_safe abnf_rule_imp_ne)
  ultimately show ?thesis
    by (simp add: choice_take_def)
qed

lemma reason_body:
  "length s \<le> k \<Longrightarrow> nul_free (s @ CHR 0x0D # t) \<Longrightarrow> CHR 0x0D \<notin> set s \<Longrightarrow> CHR 0x0A \<notin> set s \<Longrightarrow>
   s = [] \<or> reason_char (last s) \<Longrightarrow>
   concat (rep_pieces reason_item (ABNFLoopExitChars [CHR 0x0D, CHR 0x0A]) k (s @ CHR 0x0D # t)) = s"
proof (induction k arbitrary: s)
  case (Suc k)
  show ?case
  proof (cases s)
    case Nil
    then show ?thesis by (simp add: ABNFLoopExitChars_def)
  next
    case (Cons a s')
    let ?n = "consumed reason_item (s @ CHR 0x0D # t)"
    obtain b r where br: "s' @ CHR 0x0D # t = b # r" by (cases s') auto
    then have n: "?n = (if reason_char a then 1 else 2)"
      using reason_item_consumed [of a b r] Suc.prems(2) Cons by auto
    have le: "?n \<le> length s" "?n \<noteq> 0"
      using n Suc.prems(5) Cons by (cases s'; auto)+
    have rest: "drop ?n s = [] \<or> reason_char (last (drop ?n s))"
      using Suc.prems(5) by (cases "drop ?n s = []") (auto simp: last_drop)
    have "length (drop ?n s) \<le> k" "nul_free (drop ?n s @ CHR 0x0D # t)"
        "CHR 0x0D \<notin> set (drop ?n s)" "CHR 0x0A \<notin> set (drop ?n s)"
      using le Suc.prems in_set_dropD [of _ ?n s] by auto
    from Suc.IH [OF this rest]
    have "concat (rep_pieces reason_item (ABNFLoopExitChars [CHR 0x0D, CHR 0x0A]) k (drop ?n s @ CHR 0x0D # t)) = drop ?n s" .
    moreover have "\<not> ABNFLoopExitChars [CHR 0x0D, CHR 0x0A] (hd s)" "s \<noteq> []"
      using Suc.prems Cons by (auto simp: ABNFLoopExitChars_def)
    ultimately show ?thesis
      using le by simp
  qed
qed simp

lemma ReasonPhrase_consumed:
  assumes "length s \<le> 1024" "nul_free s" "nul_free t" "CHR 0x0D \<notin> set s" "CHR 0x0A \<notin> set s"
    "s = [] \<or> reason_char (last s)"
  shows "consumed ABNFSIPReasonPhrase (s @ CHR 0x0D # t) = length s"
proof -
  let ?e = "ABNFLoopExitChars [CHR 0x0D, CHR 0x0A]"
  have nf: "nul_free (s @ CHR 0x0D # t)"
    using assms by simp
  have "consumed (ABNFLoopUntil reason_item ?e 0 1024) (s @ CHR 0x0D # t) =
      rep_take reason_item ?e 0 1024 (s @ CHR 0x0D # t)"
    using nf by (intro refines_consumed [OF refines_LoopUntil] abnf_rule_imp_ne reason_safe) simp_all
  then show ?thesis
    using reason_body [OF assms(1) nf assms(4-6)] unfolding ABNFSIPReasonPhrase_def consumed_wrap
    by (simp add: rep_take_def Let_def)
qed

lemma digits_loop:
  assumes "nul_free t" "\<forall>c \<in> set d. is_digit c" "length d \<le> maxSize" "minSize \<le> length d"
    "t = [] \<or> \<not> is_digit (hd t) \<or> length d = maxSize"
  shows "consumed (ABNFLoopUntil ABNFCharDigit ABNFLoopExitIfNul minSize maxSize) (d @ t) = length d"
proof -
  have nf: "nul_free (d @ t)"
    using assms(1,2) by auto
  have "takeWhile is_digit (take maxSize (d @ t)) = d"
  proof (cases "length d = maxSize")
    case False
    then have "take maxSize (d @ t) = d @ take (maxSize - length d) t"
      using assms(3) by simp
    then show ?thesis
      using assms False by (simp only:) (intro takeWhile_append_stop, auto simp: hd_take)
  qed (use assms in \<open>simp add: takeWhile_eq_all_conv\<close>)
  then show ?thesis
    using assms(4) by (simp add: loop_class_consumed [OF class_Digit nf])
qed

lemma Version_consumed:
  assumes "nul_free r"
  shows "consumed ABNFSIPVersion (''SIP/2.0 '' @ r) = 7"
proof -
  let ?d = "ABNFLoopUntil ABNFCharDigit ABNFLoopExitIfNul 1 20"
  let ?dot = "ABNFCharComparison CHR ''.''"
  let ?rs = "[ABNFStringLiteral ''SIP/'', ?d, ?dot, ?d]"
  have dig: "is_digit CHR ''2''" "is_digit CHR ''0''" "\<not> is_digit CHR '' ''"
    by (simp_all add: is_digit_def schar_def)
  have "consumed (ABNFStringLiteral ''SIP/'') (''SIP/2.0 '' @ r) = 4"
    using assms by (subst refines_consumed [OF refines_StringLiteral]) (auto simp: nocase_eq_def)
  moreover have "consumed ?d (''2.0 '' @ r) = 1" "consumed ?d (''0 '' @ r) = 1"
    using digits_loop [of "''.0 '' @ r" "''2''" 20 1] digits_loop [of "'' '' @ r" "''0''" 20 1] assms dig
    by simp_all
  moreover have "consumed ?dot (''.0 '' @ r) = 1"
    using assms by (subst consumed_Comparison) simp_all
  ultimately have "seq_take ?rs (''SIP/2.0 '' @ r) = 7"
    by (simp add: seq_take_def Let_def)
  moreover have "refines (ABNFBaseRule (lr_sequence ?rs 0)) (seq_take ?rs)"
    by (intro refines_lr_sequence) (auto intro!: rule_safe intro: abnf_rule_imp_ne)
  ultimately show ?thesis
    using refines_consumed [of "ABNFBaseRule (lr_sequence ?rs 0)" "seq_take ?rs" "''SIP/2.0 '' @ r"] assms
    unfolding ABNFSIPVersion_def Let_def consumed_wrap ABNFLRSequence4_def by simp
qed

text \<open>The status line parser takes a well-formed status line apart. For a status code of
  three digits and a reason phrase whose last character is a reserved or unreserved one of the
  grammar, the six tokens are the version, the code, the phrase, the spaces between them and the
  line end.\<close>

theorem status_line_tokens:
  assumes "length code = 3" "\<forall>c \<in> set code. is_digit c"
    and "reason \<noteq> []" "length reason \<le> 1024" "nul_free reason" "CHR 0x0D \<notin> set reason"
    "CHR 0x0A \<notin> set reason" "reason_char (last reason)"
  shows "ABNFSIPStatusLine_parseTokens
      (cstr (''SIP/2.0 '' @ code @ '' '' @ reason @ [CHR 0x0D, CHR 0x0A])) =
    Some ([''SIP/2.0'', '' '', code, '' '', reason, [CHR 0x0D, CHR 0x0A]], length reason + 14)"
proof -
  let ?rs = "[ABNFSIPVersion, ABNFCharSpace, ABNFSIPStatusCode, ABNFCharSpace, ABNFSIPReasonPhrase,
    ABNFLROptional ABNFCharCRLF]"
  let ?crlf = "[CHR 0x0D, CHR 0x0A]"
  let ?s = "''SIP/2.0 '' @ code @ '' '' @ reason @ ?crlf"
  have nfc: "nul_free code" using assms(2) by auto
  have nf: "nul_free ?s" using nfc assms(5) by simp
  have sp: "consumed ABNFCharSpace (CHR '' '' # r) = 1" if "nul_free r" for r
    unfolding ABNFCharSpace_def using that by (subst consumed_Comparison) simp_all
  have "consumed ABNFSIPVersion ?s = 7"
    using Version_consumed [of "code @ '' '' @ reason @ ?crlf"] nfc assms(5) by simp
  moreover have "consumed ABNFSIPStatusCode (code @ '' '' @ reason @ ?crlf) = 3"
    unfolding ABNFSIPStatusCode_def consumed_wrap
    using digits_loop [of "'' '' @ reason @ ?crlf" code 3 3] assms by simp
  moreover have "consumed ABNFSIPReasonPhrase (reason @ ?crlf) = length reason"
    using ReasonPhrase_consumed [of reason "[CHR 0x0A]"] assms by simp
  moreover have "consumed (ABNFLROptional ABNFCharCRLF) ?crlf = 2"
    by code_simp
  ultimately have "seq_pieces ?rs ?s = Some [''SIP/2.0'', '' '', code, '' '', reason, ?crlf]"
    using assms(1,3) nfc assms(5) sp by (simp add: Let_def)
  then show ?thesis
    using statline_tok.tokens_cstr [OF nf, of "[]"] statline_tok.consumed_seq [OF nf] assms(1)
      seq_tokens_pieces [of ?rs ?s]
    by (simp add: cstr_def seq_take_def del: seq_tokens.simps seq_pieces.simps)
qed

theorem status_line_tokens_witness:
  "ABNFSIPStatusLine_parseTokens (cstr (''SIP/2.0 '' @ ''404'' @ '' '' @ ''Not Found'' @ [CHR 0x0D, CHR 0x0A])) =
    Some ([''SIP/2.0'', '' '', ''404'', '' '', ''Not Found'', [CHR 0x0D, CHR 0x0A]], 23)"
  using status_line_tokens [of "''404''" "''Not Found''"]
  by (simp add: is_digit_def reason_char_def unreserved_char_def is_alpha_def schar_def)

text \<open>A reason phrase that ends in another character, such as a closing parenthesis, loses
  the line end: the two-byte alternative of the rule takes the carriage return along, so the
  phrase token ends in it and the line end token is empty.\<close>

theorem status_line_swallows_cr:
  "ABNFSIPStatusLine_parseTokens (cstr (''SIP/2.0 404 Gone (x)'' @ [CHR 0x0D, CHR 0x0A])) =
    Some ([''SIP/2.0'', '' '', ''404'', '' '', ''Gone (x)'' @ [CHR 0x0D], []], 21)"
  by code_simp

end
