(* ===== verification/SIP_Via.thy ===== *)
theory SIP_Via
  imports SIP_URI
begin

text \<open>
  The class \<open>SIPVia\<close>, \<^verbatim>\<open>sipparser/SIPVia.cpp\<close>: the static functions on the text of a
  \<open>Via\<close> header. The functions that take a message are in \<open>SIP_Message\<close>; those that return
  an \<open>IPAddress\<close> are not modelled. \<open>boost::to_lower\<close> and \<open>boost::to_upper\<close> are
  parameters.
\<close>

section \<open>Definitions\<close>

subsection \<open>Sent-by and transport\<close>

definition sent_protocol :: rule where
  "sent_protocol = ABNFLRSequence5 ABNFSIPToken ABNF_SIP_SLASH ABNFSIPToken ABNF_SIP_SLASH ABNFSIPToken"

definition sent_protocol_parseTokens :: "mem \<Rightarrow> (string list \<times> nat) option" where
  "sent_protocol_parseTokens =
     ABNFLRSequence5_parseTokens ABNFSIPToken ABNF_SIP_SLASH ABNFSIPToken ABNF_SIP_SLASH ABNFSIPToken"

definition sent_by_parser :: rule where
  "sent_by_parser = ABNFLRSequence3 sent_protocol ABNF_SIP_LWS ABNFSIPHostPort"

definition sent_by_parseTokens :: "mem \<Rightarrow> (string list \<times> nat) option" where
  "sent_by_parseTokens = ABNFLRSequence3_parseTokens sent_protocol ABNF_SIP_LWS ABNFSIPHostPort"

definition SIPVia_default :: string where
  "SIPVia_default = ''SIP/2.0/UDP invalid:0;branch=empty''"

definition SIPVia_getSentBy :: "string \<Rightarrow> string \<Rightarrow> (bool \<times> string) option" where
  "SIPVia_getSentBy via sentBy = do {
     (tokens, _) \<leftarrow> sent_by_parseTokens (cstr via);
     Some (if length tokens \<noteq> 3 then (False, sentBy) else (True, tokens ! 2))
   }"

definition SIPVia_setSentBy :: "string \<Rightarrow> mem \<Rightarrow> (bool \<times> string) option" where
  "SIPVia_setSentBy via hostPort = do {
     (tokens, _) \<leftarrow> sent_by_parseTokens (cstr via);
     if length tokens \<noteq> 3 then Some (False, via)
     else do {
       hp \<leftarrow> str_of hostPort;
       n \<leftarrow> findNextIterFromString '';'' (cstr via);
       params \<leftarrow> (if n \<noteq> 0 then map_option (\<lambda>s. '';'' @ s) (str_of (drop n (cstr via)))
                  else Some '';branch=unset'');
       Some (True, tokens ! 0 @ '' '' @ hp @ params)
     }
   }"

definition SIPVia_getTransport :: "(string \<Rightarrow> string) \<Rightarrow> string \<Rightarrow> string \<Rightarrow> (bool \<times> string) option" where
  "SIPVia_getTransport to_upper via transport = do {
     (tokens, _) \<leftarrow> sent_protocol_parseTokens (cstr via);
     Some (if length tokens \<noteq> 5 then (False, transport) else (True, to_upper (tokens ! 4)))
   }"

text \<open>\<open>string_right\<close> of \<^verbatim>\<open>CoreUtils.cpp\<close>; the subtraction of two \<open>size_t\<close> wraps.\<close>

definition size_minus :: "nat \<Rightarrow> nat \<Rightarrow> nat" where
  "size_minus a b = (if b \<le> a then a - b else a + 2 ^ 64 - b)"

definition string_right :: "string \<Rightarrow> nat \<Rightarrow> string" where
  "string_right str len =
     (if length str \<le> len then str else take len (drop (length str - len) str))"

definition SIPVia_setTransport :: "string \<Rightarrow> string \<Rightarrow> bool \<times> string" where
  "SIPVia_setTransport via transport =
     (let newData = ''SIP/2.0/'' @ transport;
          tail = string_right via (size_minus (length via) (length newData))
      in (True, newData @ tail))"

subsection \<open>Parameters\<close>

definition SIPVia_getParam :: "string \<Rightarrow> mem \<Rightarrow> string \<Rightarrow> (bool \<times> string) option" where
  "SIPVia_getParam via paramName paramValue =
     (if via = [] then Some (False, paramValue)
      else do {
        name \<leftarrow> str_of paramName;
        s \<leftarrow> findNextIterFromString (name @ ''='') (cstr via);
        if s = 0 then Some (False, paramValue)
        else do {
          n \<leftarrow> parse ABNF_SIP_pvalue (drop s (cstr via));
          Some (if n = 0 then (False, paramValue) else (True, take n (drop s (cstr via))))
        }
      })"

definition SIPVia_getBranch :: "string \<Rightarrow> string \<Rightarrow> (bool \<times> string) option" where
  "SIPVia_getBranch via paramValue = SIPVia_getParam via (cstr ''branch'') paramValue"

definition SIPVia_getReceived :: "string \<Rightarrow> string \<Rightarrow> (bool \<times> string) option" where
  "SIPVia_getReceived via paramValue = SIPVia_getParam via (cstr ''received'') paramValue"

definition SIPVia_hasParam :: "(string \<Rightarrow> string) \<Rightarrow> string \<Rightarrow> mem \<Rightarrow> bool option" where
  "SIPVia_hasParam to_lower via paramName = do {
     name \<leftarrow> str_of paramName;
     let key = to_lower name;
     n \<leftarrow> findNextIterFromString (if key \<noteq> ''rport'' then key @ ''='' else key) (cstr via);
     Some (n \<noteq> 0)
   }"

definition SIPVia_getRPort :: "(string \<Rightarrow> string) \<Rightarrow> string \<Rightarrow> string \<Rightarrow> (bool \<times> string) option" where
  "SIPVia_getRPort to_lower via paramValue = do {
     (ok, value) \<leftarrow> SIPVia_getParam via (cstr ''rport'') paramValue;
     if \<not> ok then map_option (\<lambda>b. (b, value)) (SIPVia_hasParam to_lower via (cstr ''rport''))
     else Some (True, value)
   }"

definition SIPVia_setParam ::
    "(string \<Rightarrow> string) \<Rightarrow> string \<Rightarrow> mem \<Rightarrow> mem \<Rightarrow> (parser_exception + bool \<times> string) option" where
  "SIPVia_setParam to_lower via paramName paramValue = do {
     nameOk \<leftarrow> ABNFEvaluate ABNF_SIP_pname paramName;
     valueOk \<leftarrow> (if nameOk then ABNFEvaluate ABNF_SIP_pvalue paramValue else Some False);
     if \<not> nameOk \<or> \<not> valueOk then Some (Inl (SIPParserException ''ABNF Syntax Exception''))
     else do {
       name \<leftarrow> str_of paramName;
       value \<leftarrow> str_of paramValue;
       let key = to_lower name;
       n \<leftarrow> findNextIterFromString (if key \<noteq> ''rport'' then key @ ''='' else key) (cstr via);
       if n = 0 then Some (Inr (True, via @ '';'' @ name @ ''='' @ value))
       else do {
         let front = take n (cstr via);
         let front = (if last front \<noteq> CHR ''='' then front @ ''='' else front) @ value;
         k \<leftarrow> findNextIterFromString '';'' (drop n (cstr via));
         if k = 0 then Some (Inr (True, front))
         else map_option (\<lambda>rest. Inr (True, front @ rest)) (str_of (drop (n + k - 1) (cstr via)))
       }
     }
   }"

subsection \<open>Lists of Via values\<close>

text \<open>The loops advance to the position behind the next comma. The offset they find lies in the
  text they search (\<open>find_next_bound\<close>), so the remaining text shrinks.\<close>

lemma find_next_bound: "find_next needle i k m = Some n \<Longrightarrow> n \<le> k + length m"
  by (induction needle i k m arbitrary: n rule: find_next.induct) (auto split: if_splits)

lemma findNext_bound: "findNextIterFromString needle m = Some n \<Longrightarrow> n \<le> length m"
  using find_next_bound [of needle 0 0 m n] by (simp add: findNextIterFromString_def)

function count_commas :: "nat \<Rightarrow> mem \<Rightarrow> nat option" where
  "count_commas count m = do {
     n \<leftarrow> findNextIterFromString '','' m;
     if n = 0 then Some count else count_commas (count + 1) (drop n m)
   }"
  by pat_completeness auto
termination
  by (relation "measure (\<lambda>(count, m). length m)") (auto dest!: findNext_bound)

definition SIPVia_countElements :: "string \<Rightarrow> nat option" where
  "SIPVia_countElements via = map_option (\<lambda>n. n + 1) (count_commas 0 (cstr via))"

text \<open>The inner loop skips white space; \<open>std::isspace\<close> of NUL is false, so it stops at the
  terminator.\<close>

fun skip_space :: "mem \<Rightarrow> mem option" where
  "skip_space [] = None"
| "skip_space (c # m) = (if isspace c \<and> c \<noteq> NUL then skip_space m else Some (c # m))"

lemma skip_space_length: "skip_space m = Some m' \<Longrightarrow> length m' \<le> length m"
  by (induction m) (auto split: if_splits)

function split_commas :: "mem \<Rightarrow> string list option" where
  "split_commas m = do {
     n \<leftarrow> findNextIterFromString '','' m;
     if n = 0 then map_option (\<lambda>s. [s]) (str_of m)
     else do {
       m' \<leftarrow> skip_space (drop n m);
       es \<leftarrow> split_commas m';
       Some (take (n - 1) m # es)
     }
   }"
  by pat_completeness auto
termination
  by (relation "measure length") (auto dest!: findNext_bound skip_space_length)

declare count_commas.simps [simp del] split_commas.simps [simp del]

definition SIPVia_splitElements :: "string \<Rightarrow> (nat \<times> string list) option" where
  "SIPVia_splitElements via = map_option (\<lambda>es. (length es, es)) (split_commas (cstr via))"

definition SIPVia_getTopVia :: "string \<Rightarrow> string option" where
  "SIPVia_getTopVia hVia = do {
     n \<leftarrow> findNextIterFromString '','' (cstr hVia);
     if n = 0 then str_of (cstr hVia) else Some (take (n - 1) (cstr hVia))
   }"

text \<open>The value returned and the new value of the output parameter.\<close>

definition SIPVia_popTopVia :: "string \<Rightarrow> (string \<times> string) option" where
  "SIPVia_popTopVia hVia = do {
     n \<leftarrow> findNextIterFromString '','' (cstr hVia);
     if n = 0 then map_option (\<lambda>v. ([], v)) (str_of (cstr hVia))
     else map_option (\<lambda>rest. (rest, take (n - 1) (cstr hVia))) (str_of (drop (n + 1) (cstr hVia)))
   }"

definition SIPVia_getBottomVia :: "string \<Rightarrow> string \<Rightarrow> (bool \<times> string) option" where
  "SIPVia_getBottomVia hVia bottomVia = do {
     n \<leftarrow> findNextIterFromString '','' (cstr hVia);
     if n = 0 then map_option (\<lambda>s. (True, string_trim s)) (str_of (cstr hVia))
     else do {
       k \<leftarrow> findLastIterFromString '','' (cstr hVia);
       if k \<noteq> 0 then map_option (\<lambda>s. (True, string_trim s)) (str_of (drop k (cstr hVia)))
       else Some (False, bottomVia)
     }
   }"

section \<open>Parameters\<close>

text \<open>A parameter behind a semicolon is found, whatever precedes it, unless the search finds its
  name earlier; a semicolon matches no character of the name but an opening bracket.\<close>

lemma flip_semicolon: "flip_eq CHR '';'' v \<longleftrightarrow> v \<in> {CHR '';'', CHR ''[''}"
  using schar_eq_iff [of "CHR ''[''" v] by (auto simp: flip_eq_def schar_literals)

lemma findNext_param:
  assumes "pname_ok name" "CHR ''['' \<notin> set name" "nul_free pre" "nul_free rest"
    and "findNextIterFromString (name @ ''='') (cstr pre) = Some 0"
  shows "findNextIterFromString (name @ ''='') (cstr (pre @ CHR '';'' # name @ CHR ''='' # rest)) =
    Some (length pre + length name + 2)"
proof -
  have "CHR '';'' \<notin> set name"
    using assms(1) pname.whole_no_delim [of name] by (auto simp: pname_ok_def)
  then show ?thesis
    using assms findNext_after [of "name @ ''=''" pre "CHR '';''" "rest @ [NUL]"]
    by (auto simp: cstr_def pname_ok_def flip_semicolon)
qed

lemma via_getParam:
  assumes "pname_ok name" "CHR ''['' \<notin> set name" "pvalue_ok value" "nul_free pre" "nul_free rest"
    and "findNextIterFromString (name @ ''='') (cstr pre) = Some 0" "rest = [] \<or> hd rest = CHR '';''"
  shows "SIPVia_getParam (pre @ CHR '';'' # name @ CHR ''='' # value @ rest) (cstr name) old = Some (True, value)"
proof -
  have nf: "nul_free name" "nul_free value"
    using assms by (auto simp: pname_ok_def pvalue_ok_def)
  have "consumed ABNF_SIP_pvalue (value @ rest) = length value"
    using assms nf by (intro pvalue.consumed_whole) (auto simp: pvalue_ok_def)
  then have "parse ABNF_SIP_pvalue ((value @ rest) @ [NUL]) = Some (length value)"
    using pvalue.parse_cstr [of "value @ rest" "[]"] nf assms(5) by simp
  moreover have "drop (length pre + length name + 2)
      (cstr (pre @ CHR '';'' # name @ CHR ''='' # value @ rest)) = (value @ rest) @ [NUL]"
    by (simp add: cstr_def)
  ultimately show ?thesis
    using assms(3) nf findNext_param [OF assms(1,2,4), of "value @ rest"] assms(5,6)
    by (auto simp: SIPVia_getParam_def pvalue_ok_def)
qed

lemma pname_evaluate: "pname_ok name \<Longrightarrow> ABNFEvaluate ABNF_SIP_pname (cstr name) = Some True"
  and pvalue_evaluate: "pvalue_ok value \<Longrightarrow> ABNFEvaluate ABNF_SIP_pvalue (cstr value) = Some True"
  using evaluate_cstr0 [OF safe_ABNF_SIP_pname] evaluate_cstr0 [OF safe_ABNF_SIP_pvalue]
  by (simp_all add: pname_ok_def pvalue_ok_def)

lemma semicolon_next:
  assumes "nul_free v" "nul_free rest" "set v \<inter> {CHR '';'', CHR ''['', CHR 0x1B} = {}" "rest = [] \<or> hd rest = CHR '';''"
  shows "findNextIterFromString '';'' ((v @ rest) @ [NUL]) = Some (if rest = [] then 0 else length v + 1)"
proof -
  have "takeWhile (\<lambda>c. c \<notin> {CHR '';'', CHR ''['', CHR 0x1B}) (v @ rest) = v" if "rest \<noteq> []"
    using assms(3,4) that by (intro takeWhile_append_stop) auto
  then show ?thesis
    using assms find_next_char_cong [of "v @ rest" "CHR '';''" "{CHR '';'', CHR ''['', CHR 0x1B}" "[]"]
    by (cases rest) (auto simp: flip_eq_semicolon)
qed

lemma via_setParam_replace:
  assumes "pname_ok name" "CHR ''['' \<notin> set name" "to_lower name = name" "name \<noteq> ''rport''"
    and "pvalue_ok value" "nul_free pre" "nul_free v" "nul_free rest"
    and "findNextIterFromString (name @ ''='') (cstr pre) = Some 0"
    and "set v \<inter> {CHR '';'', CHR ''['', CHR 0x1B} = {}" "rest = [] \<or> hd rest = CHR '';''"
  shows "SIPVia_setParam to_lower (pre @ CHR '';'' # name @ CHR ''='' # v @ rest) (cstr name) (cstr value) =
    Some (Inr (True, pre @ CHR '';'' # name @ CHR ''='' # value @ rest))"
proof -
  let ?via = "pre @ CHR '';'' # name @ CHR ''='' # v @ rest" and ?n = "length pre + length name + 2"
  have nf: "nul_free name" "nul_free value"
    using assms by (auto simp: pname_ok_def pvalue_ok_def)
  have "drop ?n (cstr ?via) = (v @ rest) @ [NUL]" "take ?n (cstr ?via) = pre @ CHR '';'' # name @ ''=''"
    "drop (?n + (length v + 1) - 1) (cstr ?via) = rest @ [NUL]"
    by (simp_all add: cstr_def)
  then show ?thesis
    using assms(3-5) nf pname_evaluate [OF assms(1)] pvalue_evaluate [OF assms(5)]
      findNext_param [OF assms(1,2,6), of "v @ rest"] assms(7-11) semicolon_next [OF assms(7,8,10,11)]
    by (auto simp: SIPVia_setParam_def Let_def)
qed

text \<open>C33: parameters of a \<open>Via\<close> header. \<open>setParam\<close> appends a parameter the header does
  not have and replaces the value of one it has, keeping everything around it, and
  \<open>getParam\<close> then returns the new value. The name is in lower case and without opening
  bracket, and the old value has no character the search takes for a semicolon.\<close>

theorem via_set_get_param:
  assumes "pname_ok name" "CHR ''['' \<notin> set name" "to_lower name = name" "name \<noteq> ''rport''" "pvalue_ok value"
    and "nul_free pre" "findNextIterFromString (name @ ''='') (cstr pre) = Some 0"
    and "nul_free v" "set v \<inter> {CHR '';'', CHR ''['', CHR 0x1B} = {}"
    and "nul_free rest" "rest = [] \<or> hd rest = CHR '';''"
  shows "SIPVia_setParam to_lower pre (cstr name) (cstr value) =
      Some (Inr (True, pre @ '';'' @ name @ ''='' @ value)) \<and>
    SIPVia_setParam to_lower (pre @ '';'' @ name @ ''='' @ v @ rest) (cstr name) (cstr value) =
      Some (Inr (True, pre @ '';'' @ name @ ''='' @ value @ rest)) \<and>
    SIPVia_getParam (pre @ '';'' @ name @ ''='' @ value @ rest) (cstr name) old = Some (True, value)"
proof -
  have nf: "nul_free name" "nul_free value"
    using assms by (auto simp: pname_ok_def pvalue_ok_def)
  have "SIPVia_setParam to_lower pre (cstr name) (cstr value) =
      Some (Inr (True, pre @ '';'' @ name @ ''='' @ value))"
    using assms(3,4,7) nf pname_evaluate [OF assms(1)] pvalue_evaluate [OF assms(5)]
    by (simp add: SIPVia_setParam_def Let_def)
  then show ?thesis
    using via_setParam_replace [where to_lower = to_lower, OF assms(1-5) assms(6,8,10,7,9,11)]
      via_getParam [OF assms(1,2,5,6,10,7,11)] by simp
qed

theorem via_set_get_param_witness:
  "SIPVia_setParam id ''SIP/2.0/UDP h'' (cstr ''received'') (cstr ''10.0.0.1'') =
     Some (Inr (True, ''SIP/2.0/UDP h;received=10.0.0.1'')) \<and>
   SIPVia_setParam id ''SIP/2.0/UDP h;received=1.1.1.1;branch=b'' (cstr ''received'') (cstr ''10.0.0.1'') =
     Some (Inr (True, ''SIP/2.0/UDP h;received=10.0.0.1;branch=b'')) \<and>
   SIPVia_getParam ''SIP/2.0/UDP h;received=10.0.0.1;branch=b'' (cstr ''received'') [] = Some (True, ''10.0.0.1'')"
proof -
  have "pname_ok ''received''" "pvalue_ok ''10.0.0.1''"
    "findNextIterFromString (''received'' @ ''='') (cstr ''SIP/2.0/UDP h'') = Some 0"
    by code_simp+
  then show ?thesis
    using via_set_get_param [of "''received''" id "''10.0.0.1''" "''SIP/2.0/UDP h''" "''1.1.1.1''" "'';branch=b''" "[]"]
    by simp
qed

section \<open>Lists of Via values\<close>

lemma flip_comma: "c \<noteq> NUL \<Longrightarrow> flip_eq c CHR '','' \<longleftrightarrow> c \<in> {CHR '','', CHR 0x0C}"
proof -
  have "(if schar c \<le> 90 then schar c + 32 else schar c - 32) = 44 \<longleftrightarrow> schar c = 12"
    by auto
  also have "\<dots> \<longleftrightarrow> c = CHR 0x0C"
    using schar_eq_iff [of c "CHR 0x0C"] by (simp add: schar_def)
  finally show ?thesis
    using schar_eq_iff [of c "CHR '',''"] by (auto simp: flip_eq_def schar_def)
qed

text \<open>A value without comma, and the text of a list of them.\<close>

definition via_ok :: "string \<Rightarrow> bool" where
  "via_ok v = (v \<noteq> [] \<and> nul_free v \<and> set v \<inter> {CHR '','', CHR 0x0C} = {} \<and> \<not> isspace (hd v))"

fun via_list :: "string list \<Rightarrow> string" where
  "via_list [] = []"
| "via_list [v] = v"
| "via_list (v # vs) = v @ '', '' @ via_list vs"

lemma comma_next:
  assumes "nul_free v" "set v \<inter> {CHR '','', CHR 0x0C} = {}" "nul_free rest" "rest = [] \<or> hd rest = CHR '',''"
  shows "findNextIterFromString '','' (v @ rest @ [NUL]) = Some (if rest = [] then 0 else length v + 1)"
proof -
  have "takeWhile (\<lambda>c. c \<notin> {CHR '','', CHR 0x0C}) (v @ rest) = v" if "rest \<noteq> []"
    using assms(2,4) that by (intro takeWhile_append_stop) auto
  then show ?thesis
    using assms find_next_char_cong [of "v @ rest" "CHR '',''" "{CHR '','', CHR 0x0C}" "[]"]
    by (cases rest) (auto simp: flip_comma)
qed

lemma via_list_ok:
  assumes "\<forall>v \<in> set vs. via_ok v" "vs \<noteq> []"
  shows "nul_free (via_list vs)" "via_list vs \<noteq> []" "\<not> isspace (hd (via_list vs))"
  using assms by (induction vs rule: via_list.induct) (auto simp: via_ok_def)

lemma comma_via_list:
  assumes "via_ok v" "\<forall>x \<in> set vs. via_ok x"
  shows "findNextIterFromString '','' (cstr (via_list (v # vs))) = Some (if vs = [] then 0 else length v + 1)"
proof (cases vs)
  case Nil
  then show ?thesis using assms comma_next [of v "[]"] by (auto simp: via_ok_def cstr_def)
next
  case (Cons w ws)
  then show ?thesis
    using assms comma_next [of v "'', '' @ via_list vs"] via_list_ok(1) [of vs] by (auto simp: via_ok_def cstr_def)
qed

lemma via_list_drop: "vs \<noteq> [] \<Longrightarrow> drop (Suc (Suc (length v))) (cstr (via_list (v # vs))) = cstr (via_list vs)"
  "vs \<noteq> [] \<Longrightarrow> drop (Suc (length v)) (cstr (via_list (v # vs))) = CHR '' '' # cstr (via_list vs)"
  "take (length v) (cstr (via_list (v # vs))) = v"
  by (cases vs; simp add: cstr_def)+

lemma via_list_str: "\<forall>v \<in> set vs. via_ok v \<Longrightarrow> vs \<noteq> [] \<Longrightarrow> str_of (cstr (via_list vs)) = Some (via_list vs)"
  using via_list_ok(1) by (simp add: cstr_def)

lemma count_via_list:
  "vs \<noteq> [] \<Longrightarrow> \<forall>v \<in> set vs. via_ok v \<Longrightarrow> nul_free pre \<Longrightarrow> set pre \<inter> {CHR '','', CHR 0x0C} = {} \<Longrightarrow>
   count_commas k (pre @ cstr (via_list vs)) = Some (k + length vs - 1)"
proof (induction vs arbitrary: k pre)
  case (Cons v vs)
  let ?rest = "if vs = [] then [] else '', '' @ via_list vs"
  have "cstr (via_list (v # vs)) = v @ ?rest @ [NUL]"
    by (cases vs) (simp_all add: cstr_def)
  moreover have "findNextIterFromString '','' ((pre @ v) @ ?rest @ [NUL]) = Some (if ?rest = [] then 0 else length (pre @ v) + 1)"
    using Cons.prems via_list_ok(1) [of vs] by (intro comma_next) (auto simp: via_ok_def)
  moreover have "count_commas (k + 1) ('' '' @ cstr (via_list vs)) = Some (k + 1 + length vs - 1)" if "vs \<noteq> []"
    using Cons.prems that by (intro Cons.IH) auto
  ultimately show ?case
    by (subst count_commas.simps) (auto simp: cstr_def Let_def)
qed simp

lemma skip_one_space: "s \<noteq> [] \<Longrightarrow> \<not> isspace (hd s) \<Longrightarrow> skip_space (CHR '' '' # s) = Some s"
  by (cases s) (auto simp: isspace_def)

lemma split_via_list:
  "vs \<noteq> [] \<Longrightarrow> \<forall>v \<in> set vs. via_ok v \<Longrightarrow> split_commas (cstr (via_list vs)) = Some vs"
proof (induction vs)
  case (Cons v vs)
  note via_list_drop = via_list_drop(1,2) [of vs v] via_list_drop(3) [of v vs]
  have c: "findNextIterFromString '','' (cstr (via_list (v # vs))) = Some (if vs = [] then 0 else length v + 1)"
    using Cons.prems by (intro comma_via_list) auto
  show ?case
  proof (cases "vs = []")
    case True
    then show ?thesis
      using c Cons.prems via_list_str [of "[v]"] by (subst split_commas.simps) simp
  next
    case False
    moreover from this have "skip_space (CHR '' '' # cstr (via_list vs)) = Some (cstr (via_list vs))"
      using Cons.prems via_list_ok(2,3) [of vs] by (intro skip_one_space) (auto simp: cstr_def)
    ultimately show ?thesis
      using c Cons via_list_drop by (subst split_commas.simps) simp
  qed
qed simp

lemma find_last_comma:
  "j \<le> p \<Longrightarrow> 0 < j \<Longrightarrow> m ! j = CHR '','' \<Longrightarrow> \<forall>i. j < i \<and> i \<le> p \<longrightarrow> m ! i \<noteq> CHR '','' \<Longrightarrow>
   find_last '','' m 0 p = j + 1"
proof (induction p)
  case (Suc p)
  then show ?case by (cases "j = Suc p") (auto simp: str_at_def)
qed simp

lemma via_list_snoc: "vs \<noteq> [] \<Longrightarrow> via_list (vs @ [v]) = via_list vs @ '', '' @ v"
proof (induction vs rule: via_list.induct)
  case (3 v' w vs)
  then show ?case by (cases vs) auto
qed simp_all

lemma bottom_via_list:
  assumes "vs \<noteq> []" "\<forall>x \<in> set (vs @ [v]). via_ok x"
  shows "findLastIterFromString '','' (cstr (via_list (vs @ [v]))) = Some (length (via_list vs) + 1)"
proof -
  let ?a = "via_list vs" and ?s = "via_list (vs @ [v])"
  have s: "?s = ?a @ '', '' @ v"
    using assms(1) by (rule via_list_snoc)
  have nf: "nul_free ?s" "?a \<noteq> []"
    using assms via_list_ok(1) [of "vs @ [v]"] via_list_ok(2) [of vs] by auto
  have "cstr ?s ! i \<noteq> CHR '',''" if "length ?a < i" "i \<le> length ?s" for i
  proof -
    have "cstr ?s ! i = (CHR '' '' # v @ [NUL]) ! (i - length ?a - 1)"
      using that by (auto simp: s cstr_def nth_append nth_Cons')
    moreover have "CHR '','' \<notin> set (CHR '' '' # v @ [NUL])"
      using assms(2) by (auto simp: via_ok_def)
    moreover have "i - length ?a - 1 < length (CHR '' '' # v @ [NUL])"
      using that by (simp add: s)
    ultimately show ?thesis
      using nth_mem by metis
  qed
  then have "find_last '','' (cstr ?s) 0 (length ?s) = length ?a + 1"
    using nf(2) by (intro find_last_comma) (auto simp: s cstr_def nth_append)
  then show ?thesis
    using nf(1) by (simp add: findLastIterFromString_def cstr_def)
qed

text \<open>C34: a list of \<open>Via\<close> values separated by a comma and a space is taken apart into
  exactly these values. \<open>splitElements\<close> returns them and their number, \<open>countElements\<close>
  the number, \<open>getTopVia\<close> the first and \<open>getBottomVia\<close> the last one, and
  \<open>popTopVia\<close> the first one with the text of the others.\<close>

theorem via_elements:
  assumes "\<forall>v \<in> set vs. via_ok v" "vs \<noteq> []"
  shows "SIPVia_splitElements (via_list vs) = Some (length vs, vs) \<and>
    SIPVia_countElements (via_list vs) = Some (length vs) \<and>
    SIPVia_getTopVia (via_list vs) = Some (hd vs) \<and>
    SIPVia_popTopVia (via_list vs) = Some (via_list (tl vs), hd vs) \<and>
    SIPVia_getBottomVia (via_list vs) old = Some (True, string_trim (last vs))"
proof -
  obtain v ws where vs: "vs = v # ws"
    using assms(2) by (cases vs) auto
  have nf: "str_of (cstr (via_list vs)) = Some (via_list vs)"
    using assms by (rule via_list_str)
  have c: "findNextIterFromString '','' (cstr (via_list vs)) = Some (if ws = [] then 0 else length v + 1)"
    unfolding vs using assms(1) by (intro comma_via_list) (auto simp: vs)
  have "SIPVia_splitElements (via_list vs) = Some (length vs, vs)"
    using split_via_list [OF assms(2,1)] by (simp add: SIPVia_splitElements_def)
  moreover have "SIPVia_countElements (via_list vs) = Some (length vs)"
    using count_via_list [OF assms(2,1), of "[]" 0] assms(2) by (cases vs) (simp_all add: SIPVia_countElements_def)
  moreover have "SIPVia_getTopVia (via_list vs) = Some (hd vs)"
    using nf c via_list_drop(3) [of v ws] by (auto simp: SIPVia_getTopVia_def vs)
  moreover have "SIPVia_popTopVia (via_list vs) = Some (via_list (tl vs), hd vs)"
    using nf c via_list_drop(1) [of ws v] via_list_drop(3) [of v ws] via_list_str [of ws] assms(1)
    by (auto simp: SIPVia_popTopVia_def vs)
  moreover have "SIPVia_getBottomVia (via_list vs) old = Some (True, string_trim (last vs))"
  proof (cases "ws = []")
    case False
    then have bl: "vs = butlast vs @ [last vs]" "butlast vs \<noteq> []"
      using vs by auto
    have "findLastIterFromString '','' (cstr (via_list vs)) = Some (length (via_list (butlast vs)) + 1)"
      using bottom_via_list [OF bl(2), of "last vs"] assms(1) bl(1) by metis
    moreover have "cstr (via_list vs) = via_list (butlast vs) @ '', '' @ cstr (last vs)"
      using via_list_snoc [OF bl(2), of "last vs"] bl(1) by (simp add: cstr_def)
    moreover have "str_of (('' '' @ last vs) @ NUL # []) = Some ('' '' @ last vs)"
      using assms by (intro str_of_cstr) (auto simp: via_ok_def)
    moreover have "string_trim ('' '' @ last vs) = string_trim (last vs)"
      by (simp add: string_trim_def isspace_def)
    ultimately show ?thesis
      using c False by (simp add: SIPVia_getBottomVia_def cstr_def)
  qed (use nf c vs in \<open>simp add: SIPVia_getBottomVia_def\<close>)
  ultimately show ?thesis by blast
qed

theorem via_elements_witness:
  "SIPVia_splitElements ''SIP/2.0/UDP a, SIP/2.0/TCP b'' = Some (2, [''SIP/2.0/UDP a'', ''SIP/2.0/TCP b'']) \<and>
   SIPVia_popTopVia ''SIP/2.0/UDP a, SIP/2.0/TCP b'' = Some (''SIP/2.0/TCP b'', ''SIP/2.0/UDP a'')"
  using via_elements [of "[''SIP/2.0/UDP a'', ''SIP/2.0/TCP b'']" "[]"] by (simp add: via_ok_def isspace_def)

text \<open>C35: \<open>popTopVia\<close> always skips the character behind the comma. Without the space the
  rest of the header loses its first character, and a comma at the end of the header makes it
  read behind the terminator.\<close>

theorem pop_top_via_skips:
  assumes "nul_free v" "set v \<inter> {CHR '','', CHR 0x0C} = {}" "c \<noteq> NUL" "nul_free rest"
  shows "SIPVia_popTopVia (v @ CHR '','' # c # rest) = Some (rest, v) \<and>
    SIPVia_popTopVia (v @ '','') = None"
  using assms comma_next [of v "CHR '','' # c # rest"] comma_next [of v "'',''"]
    takeWhile_nul_free [of rest "[]"]
  by (auto simp: SIPVia_popTopVia_def cstr_def str_of_def)

theorem pop_top_via_skips_witness:
  "SIPVia_popTopVia ''SIP/2.0/UDP a,SIP/2.0/UDP b'' = Some (''IP/2.0/UDP b'', ''SIP/2.0/UDP a'')"
  using pop_top_via_skips [of "''SIP/2.0/UDP a''" "CHR ''S''" "''IP/2.0/UDP b''"] by simp

end
