(* ===== verification/SIP_From.thy ===== *)
theory SIP_From
  imports SIP_Via SIP_CSeq
begin

text \<open>
  The class \<open>SIPFrom\<close>, \<^verbatim>\<open>sipparser/SIPFrom.cpp\<close>, which also serves the \<open>To\<close>
  header: the static functions on the text of the header, and the members that do more than
  forward to them. \<open>boost::split\<close> and \<open>boost::to_lower\<close> are parameters.
\<close>

section \<open>Definitions\<close>

definition laquotFinder_0 :: rule where
  "laquotFinder_0 = ABNFWhileNot ABNF_SIP_LAQUOT False"

definition laquotFinder_1 :: rule where
  "laquotFinder_1 = ABNFWhileNot ABNF_SIP_LAQUOT True"

definition raquotFinder_0 :: rule where
  "raquotFinder_0 = ABNFWhileNot ABNF_SIP_RAQUOT False"

definition raquotFinder_1 :: rule where
  "raquotFinder_1 = ABNFWhileNot ABNF_SIP_RAQUOT True"

definition uriParamsFinder :: rule where
  "uriParamsFinder = ABNFWhileNot ABNFSIPURIParameters False"

definition From_check_empty :: "string \<Rightarrow> string" where
  "From_check_empty header = (if header = [] then EMPTY_URI else header)"

definition From_is_empty :: "mem option \<Rightarrow> bool option" where
  "From_is_empty str = (case str of None \<Rightarrow> Some True | Some m \<Rightarrow> map_option (\<lambda>s. s = []) (str_of m))"

text \<open>The steps the functions share when the header has no angle brackets: the address of the
  \<open>from-spec\<close>, cut where its parameters begin. \<^term>\<open>Some None\<close> is \<open>return false\<close>.\<close>

definition from_addr_spec :: "string \<Rightarrow> (string \<times> nat) option option" where
  "from_addr_spec from = do {
     (fsTokens, _) \<leftarrow> ABNFSIPFromSpec_parseTokens (cstr from);
     if length fsTokens \<noteq> 2 then Some None
     else do {
       a \<leftarrow> parse ABNF_SIP_addr_spec (cstr (fsTokens ! 0));
       if a = 0 then Some None
       else do {
         let addrSpec = take a (cstr (fsTokens ! 0));
         p \<leftarrow> parse uriParamsFinder (cstr addrSpec);
         Some (Some (addrSpec, p))
       }
     }
   }"

subsection \<open>Display name\<close>

definition SIPFrom_getDisplayName :: "string \<Rightarrow> string \<Rightarrow> (bool \<times> string) option" where
  "SIPFrom_getDisplayName from displayName = do {
     n \<leftarrow> parse laquotFinder_0 (cstr from);
     Some (if n = 0 then (False, displayName) else (True, take n (cstr from)))
   }"

definition display_name_needs_quote :: "string \<Rightarrow> bool" where
  "display_name_needs_quote displayName =
     (displayName \<noteq> [] \<and> hd displayName \<noteq> CHR 0x22 \<and> list_ex isspace displayName)"

definition SIPFrom_setDisplayName :: "string \<Rightarrow> mem \<Rightarrow> (bool \<times> string) option" where
  "SIPFrom_setDisplayName from displayName = do {
     (fsTokens, _) \<leftarrow> ABNFSIPFromSpec_parseTokens (cstr from);
     if length fsTokens \<noteq> 2 then Some (False, from)
     else do {
       name \<leftarrow> str_of displayName;
       (naTokens, n) \<leftarrow> ABNFSIPNameAddr_parseTokens (cstr (fsTokens ! 0));
       let front = (if \<not> display_name_needs_quote name then name else CHR 0x22 # name @ [CHR 0x22]) @
                   (if name \<noteq> [] then '' <'' else ''<'');
       if n = 0 \<or> length naTokens \<noteq> 4 then do {
         p \<leftarrow> parse uriParamsFinder (cstr (fsTokens ! 0));
         if p = 0 then Some (True, front @ fsTokens ! 0 @ ''>'' @ fsTokens ! 1)
         else do {
           params \<leftarrow> str_of (drop p (cstr (fsTokens ! 0)));
           Some (True, front @ take p (cstr (fsTokens ! 0)) @ ''>'' @ params)
         }
       }
       else Some (True, front @ naTokens ! 2 @ ''>'' @ fsTokens ! 1)
     }
   }"

subsection \<open>URI\<close>

definition SIPFrom_getURI :: "string \<Rightarrow> string \<Rightarrow> (bool \<times> string) option" where
  "SIPFrom_getURI from uri = do {
     l \<leftarrow> parse laquotFinder_1 (cstr from);
     if l = 0 then do {
       spec \<leftarrow> from_addr_spec from;
       case spec of
         None \<Rightarrow> Some (False, uri)
       | Some (addrSpec, p) \<Rightarrow> Some (True, if p = 0 then addrSpec else take p (cstr addrSpec))
     }
     else do {
       r \<leftarrow> parse raquotFinder_0 (drop l (cstr from));
       Some (if r = 0 then (False, uri) else (True, take r (drop l (cstr from))))
     }
   }"

definition SIPFrom_setURI :: "string \<Rightarrow> mem option \<Rightarrow> (bool \<times> string) option" where
  "SIPFrom_setURI from uri = do {
     e \<leftarrow> From_is_empty uri;
     if e then Some (False, from)
     else do {
       l \<leftarrow> parse laquotFinder_1 (cstr from);
       u \<leftarrow> str_of (the uri);
       if l = 0 then do {
         spec \<leftarrow> from_addr_spec from;
         case spec of
           None \<Rightarrow> Some (False, from)
         | Some (addrSpec, p) \<Rightarrow>
             if p = 0 then Some (True, u)
             else do { headerParams \<leftarrow> str_of (drop p (cstr addrSpec)); Some (True, u @ headerParams) }
       }
       else do {
         (fsTokens, _) \<leftarrow> ABNFSIPFromSpec_parseTokens (cstr from);
         if length fsTokens \<noteq> 2 then Some (False, from)
         else do {
           enclosure \<leftarrow> parse laquotFinder_1 (the uri);
           if enclosure \<noteq> 0 then Some (True, u @ fsTokens ! 1)
           else do {
             r \<leftarrow> parse raquotFinder_0 (drop l (cstr from));
             if r = 0 then Some (False, from)
             else do {
               headerParams \<leftarrow> str_of (drop (l + r) (cstr from));
               Some (True, take l (cstr from) @ u @ headerParams)
             }
           }
         }
       }
     }
   }"

text \<open>The functions that read or replace a part of the URI; a URI they built is passed on as a
  C string.\<close>

definition SIPFrom_setUser :: "string \<Rightarrow> mem option \<Rightarrow> (bool \<times> string) option" where
  "SIPFrom_setUser from user = do {
     (ok, uri) \<leftarrow> SIPFrom_getURI from [];
     if \<not> ok then Some (False, from)
     else do {
       (ok, uri) \<leftarrow> SIPURI_setUserInfo uri user;
       if \<not> ok then Some (False, from) else SIPFrom_setURI from (Some (cstr uri))
     }
   }"

definition SIPFrom_getUser :: "string \<Rightarrow> string \<Rightarrow> (bool \<times> string) option" where
  "SIPFrom_getUser from user = do {
     (ok, uri) \<leftarrow> SIPFrom_getURI from [];
     if \<not> ok then Some (False, user) else SIPURI_getUser uri user
   }"

definition SIPFrom_setHostPort :: "string \<Rightarrow> mem option \<Rightarrow> (bool \<times> string) option" where
  "SIPFrom_setHostPort from hostPort = do {
     e \<leftarrow> From_is_empty hostPort;
     if e then Some (False, from)
     else do {
       (ok, uri) \<leftarrow> SIPFrom_getURI from [];
       if \<not> ok then Some (False, from)
       else do {
         (ok, uri) \<leftarrow> SIPURI_setHostPort uri hostPort;
         if \<not> ok then Some (False, from) else SIPFrom_setURI from (Some (cstr uri))
       }
     }
   }"

definition SIPFrom_getHostPort :: "string \<Rightarrow> string \<Rightarrow> (bool \<times> string) option" where
  "SIPFrom_getHostPort from hostPort = do {
     (ok, uri) \<leftarrow> SIPFrom_getURI from [];
     if \<not> ok then Some (False, hostPort) else SIPURI_getHostPort uri hostPort
   }"

definition SIPFrom_getHost ::
    "(string \<Rightarrow> string \<Rightarrow> string list) \<Rightarrow> string \<Rightarrow> string \<Rightarrow> (bool \<times> string) option" where
  "SIPFrom_getHost string_tokenize from host = do {
     (ok, uri) \<leftarrow> SIPFrom_getURI from [];
     if \<not> ok then Some (False, host) else SIPURI_getHost string_tokenize uri host
   }"

definition SIPFrom_getAor :: "(string \<Rightarrow> string \<Rightarrow> string list) \<Rightarrow> string \<Rightarrow> bool \<Rightarrow> string option" where
  "SIPFrom_getAor string_tokenize data includeScheme = do {
     (ok, uri) \<leftarrow> SIPFrom_getURI data [];
     if \<not> ok then Some []
     else map_option snd (SIPURI_getIdentity string_tokenize uri [] includeScheme False)
   }"

subsection \<open>Header parameters\<close>

definition SIPFrom_getHeaderParams :: "string \<Rightarrow> string \<Rightarrow> (bool \<times> string) option" where
  "SIPFrom_getHeaderParams from headerParams = do {
     r \<leftarrow> parse raquotFinder_1 (cstr from);
     if r \<noteq> 0 then map_option (\<lambda>s. (True, s)) (str_of (drop r (cstr from)))
     else do {
       spec \<leftarrow> from_addr_spec from;
       case spec of
         None \<Rightarrow> Some (False, headerParams)
       | Some (addrSpec, p) \<Rightarrow>
           if p = 0 then Some (False, headerParams)
           else map_option (\<lambda>s. (True, s)) (str_of (drop p (cstr addrSpec)))
     }
   }"

definition SIPFrom_setHeaderParams :: "string \<Rightarrow> mem \<Rightarrow> (bool \<times> string) option" where
  "SIPFrom_setHeaderParams from headerParams = do {
     ps \<leftarrow> str_of headerParams;
     r \<leftarrow> parse raquotFinder_1 (cstr from);
     if r \<noteq> 0 then Some (True, take r (cstr from) @ ps)
     else do {
       spec \<leftarrow> from_addr_spec from;
       case spec of
         None \<Rightarrow> Some (False, from)
       | Some (addrSpec, p) \<Rightarrow>
           Some (True, if p = 0 then from @ ps else take p (cstr addrSpec) @ ps)
     }
   }"

definition SIPFrom_getHeaderParamEx :: "string \<Rightarrow> mem \<Rightarrow> string \<Rightarrow> (bool \<times> string) option" where
  "SIPFrom_getHeaderParamEx headerParams paramName paramValue = do {
     name \<leftarrow> str_of paramName;
     s \<leftarrow> findNextIterFromString (name @ ''='') (cstr headerParams);
     if s = 0 then Some (False, paramValue)
     else do {
       n \<leftarrow> parse ABNF_SIP_pvalue (drop s (cstr headerParams));
       Some (if n = 0 then (False, paramValue) else (True, take n (drop s (cstr headerParams))))
     }
   }"

definition SIPFrom_getHeaderParam :: "string \<Rightarrow> mem \<Rightarrow> string \<Rightarrow> (bool \<times> string) option" where
  "SIPFrom_getHeaderParam from paramName paramValue = do {
     (ok, headerParams) \<leftarrow> SIPFrom_getHeaderParams from [];
     if \<not> ok then Some (False, paramValue)
     else SIPFrom_getHeaderParamEx headerParams paramName paramValue
   }"

definition SIPFrom_setHeaderParamEx ::
    "(string \<Rightarrow> string) \<Rightarrow> string \<Rightarrow> mem \<Rightarrow> mem \<Rightarrow> (parser_exception + bool \<times> string) option" where
  "SIPFrom_setHeaderParamEx to_lower headerParams paramName paramValue = do {
     nameOk \<leftarrow> ABNFEvaluate ABNF_SIP_pname paramName;
     valueOk \<leftarrow> (if nameOk then ABNFEvaluate ABNF_SIP_pvalue paramValue else Some False);
     if \<not> nameOk \<or> \<not> valueOk then Some (Inl (SIPParserException ''ABNF Syntax Error''))
     else do {
       name \<leftarrow> str_of paramName;
       value \<leftarrow> str_of paramValue;
       n \<leftarrow> findNextIterFromString (to_lower name @ ''='') (cstr headerParams);
       if n = 0 then Some (Inr (True, headerParams @ '';'' @ name @ ''='' @ value))
       else do {
         let front = take n (cstr headerParams);
         let front = (if last front \<noteq> CHR ''='' then front @ ''='' else front) @ value;
         k \<leftarrow> findNextIterFromString '';'' (drop n (cstr headerParams));
         if k = 0 then Some (Inr (True, front))
         else map_option (\<lambda>rest. Inr (True, front @ rest)) (str_of (drop (n + k - 1) (cstr headerParams)))
       }
     }
   }"

definition SIPFrom_setHeaderParam ::
    "(string \<Rightarrow> string) \<Rightarrow> string \<Rightarrow> mem \<Rightarrow> mem \<Rightarrow> (parser_exception + bool \<times> string) option" where
  "SIPFrom_setHeaderParam to_lower from paramName paramValue = do {
     (_, headerParams) \<leftarrow> SIPFrom_getHeaderParams from [];
     r \<leftarrow> SIPFrom_setHeaderParamEx to_lower headerParams paramName paramValue;
     case r of
       Inl e \<Rightarrow> Some (Inl e)
     | Inr (_, headerParams) \<Rightarrow> map_option Inr (SIPFrom_setHeaderParams from (cstr headerParams))
   }"

text \<open>\<open>getTag\<close> of \<^verbatim>\<open>SIPFrom.h\<close>.\<close>

definition SIPFrom_getTag :: "string \<Rightarrow> string option" where
  "SIPFrom_getTag from = map_option snd (SIPFrom_getHeaderParam from (cstr ''tag'') [])"

section \<open>Where the angle brackets are\<close>

lemma SWS_consumed: "nul_free s \<Longrightarrow> consumed ABNF_SIP_SWS s = consumed ABNF_SIP_LWS s"
  unfolding ABNF_SIP_SWS_def by (rule consumed_Optional [OF safe_ABNF_SIP_LWS])

lemma LAQUOT_consumed:
  assumes "nul_free s"
  shows "consumed ABNF_SIP_LAQUOT s =
    (let k = consumed ABNF_SIP_LWS s in if drop k s \<noteq> [] \<and> hd (drop k s) = CHR ''<'' then k + 1 else 0)"
proof -
  have "isOptional ABNF_SIP_SWS" "\<not> isOptional (ABNFCharComparison CHR ''<'')"
    by (simp_all add: ABNF_SIP_SWS_def)
  moreover have "consumed (ABNFCharComparison CHR ''<'') (drop k s) =
      (if drop k s \<noteq> [] \<and> hd (drop k s) = CHR ''<'' then 1 else 0)" for k
    using nul_free_drop [OF assms, of k] by (subst consumed_Comparison) (auto simp: char_take_def)
  ultimately show ?thesis
    unfolding ABNF_SIP_LAQUOT_def
    using assms abnf_rule.consumed_le [OF safe_ABNF_SIP_LWS assms]
    by (subst consumed_LRSequence2) (auto simp: rule_safe seq_take_def Let_def SWS_consumed min_def)
qed

lemma LAQUOT_hd:
  assumes "nul_free s" "consumed ABNF_SIP_LAQUOT s \<noteq> 0"
  shows "dropWhile is_lws s \<noteq> [] \<and> hd (dropWhile is_lws s) = CHR ''<''"
proof -
  let ?k = "consumed ABNF_SIP_LWS s"
  have "\<forall>c \<in> set (take ?k s). is_lws c"
    using over_LWS assms(1) by (auto simp: over_def)
  moreover have "drop ?k s \<noteq> [] \<and> hd (drop ?k s) = CHR ''<''"
    using assms(2) unfolding LAQUOT_consumed [OF assms(1)] Let_def by (rule contrapos_np) simp
  then obtain t where "drop ?k s = CHR ''<'' # t"
    by (cases "drop ?k s") auto
  ultimately have "dropWhile is_lws (take ?k s @ drop ?k s) = CHR ''<'' # t"
    by (subst dropWhile_append2) (auto simp: is_lws_def)
  then show ?thesis by simp
qed

lemma LAQUOT_open:
  assumes "sp = [] \<or> sp = '' ''" "nul_free t"
  shows "consumed ABNF_SIP_LAQUOT (sp @ CHR ''<'' # t) = length sp + 1"
proof -
  have "consumed ABNF_SIP_LWS (sp @ CHR ''<'' # t) = length sp"
    using assms LWS_single [of "CHR ''<'' # t"] LWS_stops [of "CHR ''<'' # t"] by (auto simp: is_lws_def)
  then show ?thesis
    using assms by (subst LAQUOT_consumed) (auto simp: Let_def)
qed

lemma RAQUOT_other:
  assumes "nul_free s" "s = [] \<or> hd s \<noteq> CHR ''>''"
  shows "consumed ABNF_SIP_RAQUOT s = 0"
proof -
  have "consumed (ABNFCharComparison CHR ''>'') s = 0"
    using assms by (subst consumed_Comparison) (auto simp: char_take_def)
  then show ?thesis
    unfolding ABNF_SIP_RAQUOT_def using assms(1)
    by (subst consumed_LRSequence2) (auto simp: rule_safe seq_take_def)
qed

lemma RAQUOT_close:
  assumes "nul_free t" "t = [] \<or> \<not> is_lws (hd t)"
  shows "consumed ABNF_SIP_RAQUOT (CHR ''>'' # t) = 1"
proof -
  have "consumed (ABNFCharComparison CHR ''>'') (CHR ''>'' # t) = 1"
    using assms by (subst consumed_Comparison) (auto simp: char_take_def)
  moreover have "consumed ABNF_SIP_SWS t = 0" "isOptional ABNF_SIP_SWS"
    using assms LWS_stops by (simp_all add: SWS_consumed) (simp add: ABNF_SIP_SWS_def)
  ultimately show ?thesis
    unfolding ABNF_SIP_RAQUOT_def using assms(1)
    by (subst consumed_LRSequence2) (auto simp: rule_safe seq_take_def Let_def)
qed

text \<open>A header with a display name, a URI in angle brackets and parameters.\<close>

record from_parts =
  name_part :: string
  gap_part :: string
  from_uri :: string
  from_params :: string

definition from_text :: "from_parts \<Rightarrow> string" where
  "from_text f = name_part f @ gap_part f @ CHR ''<'' # from_uri f @ CHR ''>'' # from_params f"

definition from_wf :: "from_parts \<Rightarrow> bool" where
  "from_wf f =
     (nul_free (name_part f) \<and> set (name_part f) \<inter> {CHR ''<'', CHR ''>''} = {} \<and>
      (name_part f = [] \<or> \<not> is_lws (last (name_part f))) \<and> gap_part f \<in> {[], '' ''} \<and>
      nul_free (from_uri f) \<and> from_uri f \<noteq> [] \<and> set (from_uri f) \<inter> {CHR ''<'', CHR ''>''} = {} \<and>
      \<not> is_lws (hd (from_uri f)) \<and>
      nul_free (from_params f) \<and> (from_params f = [] \<or> hd (from_params f) = CHR '';''))"

lemma from_nul_free: "from_wf f \<Longrightarrow> nul_free (from_text f)"
  by (auto simp: from_wf_def from_text_def)

text \<open>No position of the display name starts an opening bracket: it ends in a character that is
  neither white space nor a bracket.\<close>

lemma LAQUOT_name:
  assumes "nul_free (a @ t)" "a \<noteq> []" "CHR ''<'' \<notin> set a" "\<not> is_lws (last a)"
  shows "consumed ABNF_SIP_LAQUOT (a @ t) = 0"
proof (rule ccontr)
  assume "consumed ABNF_SIP_LAQUOT (a @ t) \<noteq> 0"
  then have "hd (dropWhile is_lws (a @ t)) = CHR ''<''"
    using LAQUOT_hd [OF assms(1)] by blast
  moreover have "dropWhile is_lws (a @ t) = dropWhile is_lws a @ t" "dropWhile is_lws a \<noteq> []"
    using assms(2,4) dropWhile_append1 [of "last a" a is_lws t] by (auto simp: dropWhile_eq_Nil_conv)
  ultimately have "CHR ''<'' \<in> set (dropWhile is_lws a)"
    by (metis hd_append2 hd_in_set)
  then show False
    using assms(3) set_dropWhileD by metis
qed

lemma from_laquot:
  assumes "from_wf f"
  shows "first_match ABNF_SIP_LAQUOT (from_text f) = Some (length (name_part f))"
    and "run_length ABNF_SIP_LAQUOT (drop (length (name_part f)) (from_text f)) = length (gap_part f) + 1"
proof -
  let ?t = "from_uri f @ CHR ''>'' # from_params f"
  have nf: "nul_free ?t" "nul_free (gap_part f @ CHR ''<'' # ?t)"
    using assms by (auto simp: from_wf_def)
  have d: "drop (length (name_part f)) (from_text f) = gap_part f @ CHR ''<'' # ?t"
    by (simp add: from_text_def)
  have o: "consumed ABNF_SIP_LAQUOT (gap_part f @ CHR ''<'' # ?t) = length (gap_part f) + 1"
    using assms nf(1) by (intro LAQUOT_open) (auto simp: from_wf_def)
  have "consumed ABNF_SIP_LAQUOT (drop j (from_text f)) = 0" if "j < length (name_part f)" for j
  proof -
    have "drop j (from_text f) = drop j (name_part f) @ gap_part f @ CHR ''<'' # ?t"
      using that by (simp add: from_text_def)
    then show ?thesis
      using assms that nul_free_drop [OF from_nul_free [OF assms], of j] in_set_dropD [of _ j "name_part f"]
      by (auto simp: from_wf_def intro!: LAQUOT_name)
  qed
  then show "first_match ABNF_SIP_LAQUOT (from_text f) = Some (length (name_part f))"
    using o d by (auto simp: first_match_least from_text_def)
  have "consumed ABNF_SIP_LAQUOT ?t = 0"
    using LAQUOT_name [of "take 1 ?t" "drop 1 ?t"] assms nf(1) by (cases "from_uri f") (auto simp: from_wf_def)
  then have "run_length ABNF_SIP_LAQUOT ?t = 0"
    by (simp add: run_length.simps)
  then show "run_length ABNF_SIP_LAQUOT (drop (length (name_part f)) (from_text f)) = length (gap_part f) + 1"
    unfolding d by (subst run_length.simps) (simp add: o)
qed

lemma raquot_first:
  assumes "nul_free a" "CHR ''>'' \<notin> set a" "nul_free ps" "ps = [] \<or> hd ps = CHR '';''"
  shows "first_match ABNF_SIP_RAQUOT (a @ CHR ''>'' # ps) = Some (length a)"
    and "run_length ABNF_SIP_RAQUOT (CHR ''>'' # ps) = 1"
proof -
  have c: "consumed ABNF_SIP_RAQUOT (CHR ''>'' # ps) = 1" "consumed ABNF_SIP_RAQUOT ps = 0"
    using assms RAQUOT_close [of ps] RAQUOT_other [of ps] by (auto simp: is_lws_def)
  have "consumed ABNF_SIP_RAQUOT (drop j (a @ CHR ''>'' # ps)) = 0" if "j < length a" for j
  proof (rule RAQUOT_other)
    show "nul_free (drop j (a @ CHR ''>'' # ps))"
      using assms by (intro nul_free_drop) simp
    show "drop j (a @ CHR ''>'' # ps) = [] \<or> hd (drop j (a @ CHR ''>'' # ps)) \<noteq> CHR ''>''"
      using assms(2) that by (simp add: hd_drop_conv_nth nth_append) (metis nth_mem)
  qed
  then show "first_match ABNF_SIP_RAQUOT (a @ CHR ''>'' # ps) = Some (length a)"
    using c(1) by (simp add: first_match_least)
  show "run_length ABNF_SIP_RAQUOT (CHR ''>'' # ps) = 1"
    using c by (simp add: run_length.simps [of _ "CHR ''>'' # ps"] run_length.simps [of _ ps])
qed

lemma from_finders:
  assumes "from_wf f"
  shows "parse laquotFinder_0 (cstr (from_text f)) = Some (length (name_part f))"
    and "parse laquotFinder_1 (cstr (from_text f)) = Some (length (name_part f) + length (gap_part f) + 1)"
    and "parse raquotFinder_0 (cstr (from_uri f @ CHR ''>'' # from_params f)) = Some (length (from_uri f))"
    and "parse raquotFinder_1 (cstr (from_text f)) =
      Some (length (name_part f) + length (gap_part f) + length (from_uri f) + 2)"
proof -
  let ?a = "name_part f @ gap_part f @ CHR ''<'' # from_uri f" and ?t = "from_uri f @ CHR ''>'' # from_params f"
  have nf: "nul_free (from_text f)" "nul_free ?t"
    using assms from_nul_free by (auto simp: from_wf_def)
  have t: "from_text f = ?a @ CHR ''>'' # from_params f"
    by (simp add: from_text_def)
  have ra: "first_match ABNF_SIP_RAQUOT (from_text f) = Some (length ?a)"
    "first_match ABNF_SIP_RAQUOT ?t = Some (length (from_uri f))"
    "run_length ABNF_SIP_RAQUOT (drop (length ?a) (from_text f)) = 1"
    unfolding t using assms raquot_first(1) [of ?a "from_params f"] raquot_first [of "from_uri f" "from_params f"]
    by (auto simp: from_wf_def)
  show "parse laquotFinder_0 (cstr (from_text f)) = Some (length (name_part f))"
    "parse laquotFinder_1 (cstr (from_text f)) = Some (length (name_part f) + length (gap_part f) + 1)"
    using refinesD [OF refines_WhileNot [OF safe_ABNF_SIP_LAQUOT] nf(1), of _ "[]"] from_laquot [OF assms]
    by (simp_all add: laquotFinder_0_def laquotFinder_1_def cstr_def while_not_take_def)
  show "parse raquotFinder_0 (cstr ?t) = Some (length (from_uri f))"
    using refinesD [OF refines_WhileNot [OF safe_ABNF_SIP_RAQUOT] nf(2), of _ "[]"] ra(2)
    by (simp add: raquotFinder_0_def cstr_def while_not_take_def)
  show "parse raquotFinder_1 (cstr (from_text f)) =
      Some (length (name_part f) + length (gap_part f) + length (from_uri f) + 2)"
    using refinesD [OF refines_WhileNot [OF safe_ABNF_SIP_RAQUOT] nf(1), of _ "[]"] ra(1,3)
    by (simp add: raquotFinder_1_def cstr_def while_not_take_def)
qed

lemma from_drops:
  "drop (length (name_part f) + length (gap_part f) + 1) (cstr (from_text f)) =
     cstr (from_uri f @ CHR ''>'' # from_params f)"
  "drop (length (name_part f) + length (gap_part f) + length (from_uri f) + 2) (cstr (from_text f)) =
     cstr (from_params f)"
  "take (length (name_part f) + length (gap_part f) + length (from_uri f) + 2) (cstr (from_text f)) =
     name_part f @ gap_part f @ CHR ''<'' # from_uri f @ ''>''"
  by (simp_all add: from_text_def cstr_def)

lemma from_access:
  assumes "from_wf f" "nul_free ps"
  shows "SIPFrom_getDisplayName (from_text f) old =
      Some (if name_part f = [] then (False, old) else (True, name_part f)) \<and>
    SIPFrom_getURI (from_text f) old = Some (True, from_uri f) \<and>
    SIPFrom_getHeaderParams (from_text f) old = Some (True, from_params f) \<and>
    SIPFrom_setHeaderParams (from_text f) (cstr ps) = Some (True, from_text (f\<lparr>from_params := ps\<rparr>))"
proof -
  have "str_of (cstr (from_params f)) = Some (from_params f)" "str_of (cstr ps) = Some ps" "from_uri f \<noteq> []"
    using assms by (simp_all add: from_wf_def cstr_def)
  moreover have "take (length (from_uri f)) (cstr (from_uri f @ CHR ''>'' # from_params f)) = from_uri f"
    "take (length (name_part f)) (cstr (from_text f)) = name_part f"
    by (simp_all add: cstr_def from_text_def)
  ultimately show ?thesis
    unfolding SIPFrom_getDisplayName_def SIPFrom_getURI_def SIPFrom_getHeaderParams_def SIPFrom_setHeaderParams_def
    using from_drops [of f]
    by (simp add: from_finders [OF assms(1)] del: take_append drop_append) (simp add: from_text_def)
qed

text \<open>C36: the accessors of a \<open>From\<close> or \<open>To\<close> header in the form with angle brackets around the URI,
  and with a display name and a URI that have no angle brackets of their own (\<open>from_wf\<close>). The display name
  is the text before the bracket, the URI the text between the brackets, the parameters the text
  behind them, and setting the parameters keeps name and URI.\<close>

theorem from_accessors:
  assumes "from_wf f" "nul_free ps"
  shows "SIPFrom_getDisplayName (from_text f) old =
      Some (if name_part f = [] then (False, old) else (True, name_part f)) \<and>
    SIPFrom_getURI (from_text f) old = Some (True, from_uri f) \<and>
    SIPFrom_getHeaderParams (from_text f) old = Some (True, from_params f) \<and>
    SIPFrom_setHeaderParams (from_text f) (cstr ps) = Some (True, from_text (f\<lparr>from_params := ps\<rparr>))"
  by (rule from_access [OF assms])

theorem from_accessors_witness:
  "SIPFrom_getDisplayName ''Bob <sip:bob@b.com>;tag=1'' [] = Some (True, ''Bob'') \<and>
   SIPFrom_getURI ''Bob <sip:bob@b.com>;tag=1'' [] = Some (True, ''sip:bob@b.com'') \<and>
   SIPFrom_getHeaderParams ''Bob <sip:bob@b.com>;tag=1'' [] = Some (True, '';tag=1'') \<and>
   SIPFrom_setHeaderParams ''Bob <sip:bob@b.com>;tag=1'' (cstr '';tag=2'') = Some (True, ''Bob <sip:bob@b.com>;tag=2'')"
  using from_accessors [of "\<lparr>name_part = ''Bob'', gap_part = '' '', from_uri = ''sip:bob@b.com'', from_params = '';tag=1''\<rparr>"
      "'';tag=2''" "[]"]
  by (simp add: from_wf_def from_text_def is_lws_def)

section \<open>The tag\<close>

lemma getHeaderParamEx_via:
  "h \<noteq> [] \<Longrightarrow> SIPFrom_getHeaderParamEx h paramName old = SIPVia_getParam h paramName old"
  by (simp add: SIPFrom_getHeaderParamEx_def SIPVia_getParam_def)

lemma append_param_ok: "pname_ok name \<Longrightarrow> pvalue_ok value \<Longrightarrow> from_wf f \<Longrightarrow>
  from_wf (f\<lparr>from_params := from_params f @ '';'' @ name @ ''='' @ value\<rparr>)"
  by (auto simp: from_wf_def pname_ok_def pvalue_ok_def hd_append)

lemma from_add_param:
  assumes "from_wf f" "pname_ok name" "CHR ''['' \<notin> set name" "to_lower name = name" "pvalue_ok value"
    and "findNextIterFromString (name @ ''='') (cstr (from_params f)) = Some 0"
  shows "SIPFrom_setHeaderParam to_lower (from_text f) (cstr name) (cstr value) =
      Some (Inr (True, from_text f @ '';'' @ name @ ''='' @ value)) \<and>
    SIPFrom_getHeaderParam (from_text f @ '';'' @ name @ ''='' @ value) (cstr name) old = Some (True, value) \<and>
    SIPFrom_getURI (from_text f @ '';'' @ name @ ''='' @ value) old = Some (True, from_uri f)"
proof -
  let ?p = "from_params f @ '';'' @ name @ ''='' @ value" and ?g = "f\<lparr>from_params := from_params f @ '';'' @ name @ ''='' @ value\<rparr>"
  have nf: "nul_free name" "nul_free value" "nul_free (from_params f)" "nul_free ?p"
    using assms by (auto simp: pname_ok_def pvalue_ok_def from_wf_def)
  have g: "from_wf ?g"
    by (rule append_param_ok [OF assms(2,5,1)])
  have tx: "from_text f @ '';'' @ name @ ''='' @ value = from_text ?g"
    by (simp add: from_text_def)
  note acc = from_access [OF assms(1) nf(4), of "[]"] from_access [OF g nf(4), of old] from_access [OF g nf(4), of "[]"]
  have "SIPFrom_setHeaderParamEx to_lower (from_params f) (cstr name) (cstr value) = Some (Inr (True, ?p))"
    using assms(4,6) nf pname_evaluate [OF assms(2)] pvalue_evaluate [OF assms(5)]
    by (simp add: SIPFrom_setHeaderParamEx_def)
  then have "SIPFrom_setHeaderParam to_lower (from_text f) (cstr name) (cstr value) = Some (Inr (True, from_text ?g))"
    using acc(1) by (simp add: SIPFrom_setHeaderParam_def)
  moreover have "SIPFrom_getHeaderParam (from_text ?g) (cstr name) old = Some (True, value)"
    using via_getParam [OF assms(2,3,5) nf(3), of "[]" old] assms(6) acc(3)
    by (simp add: SIPFrom_getHeaderParam_def getHeaderParamEx_via)
  ultimately show ?thesis
    using acc(2) tx by auto
qed

text \<open>C37: a parameter that a \<open>From\<close> or \<open>To\<close> header does not have is appended by
  \<open>setHeaderParam\<close>, which keeps the rest of the header, and is then returned by
  \<open>getHeaderParam\<close>; this is how the stack adds and reads the tag of a dialog.\<close>

theorem from_set_get_param:
  assumes "from_wf f" "pname_ok name" "CHR ''['' \<notin> set name" "to_lower name = name" "pvalue_ok value"
    and "findNextIterFromString (name @ ''='') (cstr (from_params f)) = Some 0"
  shows "\<exists>from'. SIPFrom_setHeaderParam to_lower (from_text f) (cstr name) (cstr value) = Some (Inr (True, from')) \<and>
    from' = from_text f @ '';'' @ name @ ''='' @ value \<and>
    SIPFrom_getHeaderParam from' (cstr name) old = Some (True, value) \<and>
    SIPFrom_getURI from' old = Some (True, from_uri f)"
  using from_add_param [where to_lower = to_lower, OF assms, of old] by blast

theorem from_set_get_param_witness:
  "\<exists>from'. SIPFrom_setHeaderParam id ''<sip:bob@b.com>'' (cstr ''tag'') (cstr ''a6c85cf'') = Some (Inr (True, from')) \<and>
    from' = ''<sip:bob@b.com>;tag=a6c85cf'' \<and> SIPFrom_getHeaderParam from' (cstr ''tag'') [] = Some (True, ''a6c85cf'')"
proof -
  let ?f = "\<lparr>name_part = [], gap_part = [], from_uri = ''sip:bob@b.com'', from_params = []\<rparr>"
  have "pname_ok ''tag''" "pvalue_ok ''a6c85cf''" "findNextIterFromString (''tag'' @ ''='') (cstr (from_params ?f)) = Some 0"
    by code_simp+
  then show ?thesis
    using from_set_get_param [of ?f "''tag''" id "''a6c85cf''" "[]"]
    by (simp add: from_wf_def from_text_def is_lws_def)
qed

text \<open>The search for a parameter does not look at the character in front of its name, so the
  tag of a header is taken from a parameter whose name ends in \<open>tag\<close>.\<close>

theorem tag_of_other_param:
  "SIPFrom_getTag ''<sip:bob@b.com>;xtag=1;tag=2'' = Some ''1''"
  by code_simp

end
