(* ===== verification/SIP_Message.thy ===== *)
theory SIP_Message
  imports SIP_From SIP_StartLine "HOL-Library.Multiset" "HOL-Library.List_Lexorder" "HOL-Library.Char_ord"
begin

text \<open>
  The class \<open>SIPMessage\<close>, \<^verbatim>\<open>sipparser/SIPMessage.cpp\<close>, with \<open>SIPHeaderTokens\<close> and the
  functions of \<open>SIPVia\<close> that work on a message. A message is a record of the members of the
  class; \<open>std::map\<close> is an association list. A \<open>boost::tribool\<close> is a \<^typ>\<open>bool option\<close>
  with \<^const>\<open>None\<close> for \<open>indeterminate\<close>. The functions of boost the class calls are the
  fields of a record; \<open>boost_ok\<close> states their documented behaviour. The reader-writer lock is
  not modelled.
\<close>

section \<open>Definitions\<close>

record boost_fns =
  to_lower :: "string \<Rightarrow> string"
  to_upper :: "string \<Rightarrow> string"
  trim :: "string \<Rightarrow> string"
  tokenizer :: "string \<Rightarrow> string \<Rightarrow> string list"

subsection \<open>Strings\<close>

text \<open>\<open>s.find(t)\<close>, with \<^const>\<open>None\<close> for \<open>npos\<close>.\<close>

fun string_find :: "string \<Rightarrow> string \<Rightarrow> nat option" where
  "string_find [] t = (if t = [] then Some 0 else None)"
| "string_find (c # s) t =
     (if take (length t) (c # s) = t then Some 0 else map_option Suc (string_find s t))"

definition string_starts_with :: "string \<Rightarrow> string \<Rightarrow> bool" where
  "string_starts_with str key = (string_find str key = Some 0)"

definition string_caseless_starts_with :: "boost_fns \<Rightarrow> string \<Rightarrow> string \<Rightarrow> bool" where
  "string_caseless_starts_with B str key = (string_find (to_lower B str) (to_lower B key) = Some 0)"

text \<open>\<open>rfind\<close> returns the last occurrence, so it is the end of the string exactly when the
  string ends in the key.\<close>

definition string_ends_with :: "string \<Rightarrow> string \<Rightarrow> bool" where
  "string_ends_with str key = (length key \<le> length str \<and> drop (length str - length key) str = key)"

definition string_caseless_ends_with :: "boost_fns \<Rightarrow> string \<Rightarrow> string \<Rightarrow> bool" where
  "string_caseless_ends_with B str key = string_ends_with (to_lower B str) key"

text \<open>\<open>operator<<\<close> of a stream on an integer.\<close>

fun nat_text :: "nat \<Rightarrow> string" where
  "nat_text n = (if n < 10 then [char_of (n + 48)] else nat_text (n div 10) @ [char_of (n mod 10 + 48)])"

declare nat_text.simps [simp del]

definition int_text :: "int \<Rightarrow> string" where
  "int_text i = (if i < 0 then CHR ''-'' # nat_text (nat (- i)) else nat_text (nat i))"

subsection \<open>Three-valued booleans\<close>

text \<open>\<open>if (t)\<close>, \<open>!t\<close> and \<open>t != u\<close>: a comparison with \<open>indeterminate\<close> is
  indeterminate.\<close>

definition tri_if :: "bool option \<Rightarrow> bool" where
  "tri_if t = (t = Some True)"

definition tri_not :: "bool option \<Rightarrow> bool option" where
  "tri_not t = map_option Not t"

definition tri_neq :: "bool option \<Rightarrow> bool option \<Rightarrow> bool option" where
  "tri_neq t u = (case (t, u) of (Some a, Some b) \<Rightarrow> Some (a \<noteq> b) | _ \<Rightarrow> None)"

subsection \<open>The message\<close>

record header_tokens =
  tok_values :: "string list"
  rawHeaderName :: string
  headerOffSet :: nat

definition npos :: nat where
  "npos = 2 ^ 64 - 1"

definition SIPHeaderTokens_empty :: header_tokens where
  "SIPHeaderTokens_empty = \<lparr>tok_values = [], rawHeaderName = [], headerOffSet = npos\<rparr>"

definition SIPHeaderTokens_push_front :: "string \<Rightarrow> header_tokens \<Rightarrow> header_tokens" where
  "SIPHeaderTokens_push_front h t = t\<lparr>tok_values := h # tok_values t\<rparr>"

datatype consume_state =
    IDLE | START_LINE_PARSE | EXPECTING_NEW_LINE_1 | HEADER_LINE_START | HEADER_LWS | HEADER_NAME
  | HEADER_VALUE | EXPECTING_NEW_LINE_2 | EXPECTING_NEW_LINE_3 | EXPECTING_BODY

record sip_message =
  m_finalized :: bool
  m_data :: string
  m_startLine :: string
  m_body :: string
  m_badHeaders :: "string list"
  m_headers :: "(string \<times> header_tokens) list"
  m_headerOffSet :: nat
  m_expectedBodyLen :: nat
  m_isResponse :: "bool option"
  m_isRequest :: "bool option"
  m_properties :: "(string \<times> string) list"
  m_consumeState :: consume_state
  m_idleBuffer :: string

definition SIPMessage_new :: sip_message where
  "SIPMessage_new = \<lparr>m_finalized = True, m_data = [], m_startLine = [], m_body = [], m_badHeaders = [],
     m_headers = [], m_headerOffSet = 0, m_expectedBodyLen = 0, m_isResponse = None, m_isRequest = None,
     m_properties = [], m_consumeState = IDLE, m_idleBuffer = []\<rparr>"

text \<open>The copy constructor leaves the properties behind and starts in \<open>IDLE\<close>; the assignment
  swaps the members with a copy, except properties, state and idle buffer.\<close>

definition SIPMessage_copy :: "sip_message \<Rightarrow> sip_message" where
  "SIPMessage_copy packet = packet\<lparr>m_properties := [], m_consumeState := IDLE, m_idleBuffer := []\<rparr>"

definition SIPMessage_assign :: "sip_message \<Rightarrow> sip_message \<Rightarrow> sip_message" where
  "SIPMessage_assign m packet =
     packet\<lparr>m_properties := m_properties m, m_consumeState := m_consumeState m, m_idleBuffer := m_idleBuffer m\<rparr>"

subsection \<open>Splitting a message\<close>

definition not_start_char :: "char \<Rightarrow> bool" where
  "not_start_char c = (\<not> SIPParser_isChar (schar c) \<or> c = CHR 0x0D \<or> c = CHR 0x0A)"

abbreviation CRLF :: string where "CRLF \<equiv> [CHR 0x0D, CHR 0x0A]"
abbreviation CRCR :: string where "CRCR \<equiv> [CHR 0x0D, CHR 0x0D]"
abbreviation LFLF :: string where "LFLF \<equiv> [CHR 0x0A, CHR 0x0A]"
abbreviation CRLFCRLF :: string where "CRLFCRLF \<equiv> [CHR 0x0D, CHR 0x0A, CHR 0x0D, CHR 0x0A]"

definition find_boundary :: "string \<Rightarrow> (nat \<times> nat) option" where
  "find_boundary message =
     (case string_find message CRLFCRLF of
        Some n \<Rightarrow> Some (n, 4)
      | None \<Rightarrow> (case string_find message CRCR of
          Some n \<Rightarrow> Some (n, 2)
        | None \<Rightarrow> map_option (\<lambda>n. (n, 2)) (string_find message LFLF)))"

text \<open>The two overloads of \<open>messageSplit\<close>: result, message without its leading characters,
  headers, and the body, which keeps its old value when there is none.\<close>

definition SIPMessage_messageSplit :: "string \<Rightarrow> string \<Rightarrow> (string \<times> string \<times> string) option" where
  "SIPMessage_messageSplit message body =
     (if message = [] then None
      else let message = dropWhile not_start_char message in
        case find_boundary message of
          None \<Rightarrow> Some (message, message, body)
        | Some (offSet, boundaryLen) \<Rightarrow>
            let headers = take offSet message in
            Some (message, headers,
              if length message > length headers + boundaryLen then drop (offSet + boundaryLen) message
              else body))"

fun header_lines :: "(string \<Rightarrow> string) \<Rightarrow> string list \<Rightarrow> string \<Rightarrow> string list \<Rightarrow> string list" where
  "header_lines tr [] previousLine lines = lines"
| "header_lines tr (currentLine # toks) previousLine lines =
     (if currentLine \<noteq> [] \<and> isspace (hd currentLine) then
        let current = tr previousLine @ '' '' @ tr currentLine
        in header_lines tr toks current (butlast lines @ [current])
      else header_lines tr toks currentLine (lines @ [currentLine]))"

definition SIPMessage_headerTokenize :: "boost_fns \<Rightarrow> string \<Rightarrow> string \<Rightarrow> string list \<Rightarrow> bool \<times> string list" where
  "SIPMessage_headerTokenize B theString lineBreakToken lines =
     (if theString = [] then (False, lines)
      else let lines = header_lines (trim B) (tokenizer B lineBreakToken theString) [] lines
           in (lines \<noteq> [], lines))"

definition SIPMessage_headerSplit :: "boost_fns \<Rightarrow> string \<Rightarrow> (string \<times> string) option" where
  "SIPMessage_headerSplit B header =
     (if CHR '':'' \<notin> set header then None
      else Some (trim B (takeWhile (\<lambda>c. c \<noteq> CHR '':'') header),
                 trim B (tl (dropWhile (\<lambda>c. c \<noteq> CHR '':'') header))))"

definition hdrGetExpandedForm :: "boost_fns \<Rightarrow> string \<Rightarrow> string" where
  "hdrGetExpandedForm B header =
     (case map_of [(''a'', ''Accept-Contact''), (''b'', ''Referred-By''), (''c'', ''Content-Type''),
          (''e'', ''Content-Encoding''), (''f'', ''From''), (''i'', ''Call-ID''), (''k'', ''Supported''),
          (''l'', ''Content-Length''), (''m'', ''Contact''), (''o'', ''Event''), (''r'', ''Refer-To''),
          (''s'', ''Subject''), (''t'', ''To''), (''u'', ''Allow-Events''), (''v'', ''Via'')]
        (to_lower B header) of
        Some h \<Rightarrow> h
      | None \<Rightarrow> header)"

definition add_header :: "boost_fns \<Rightarrow> string \<Rightarrow> string \<Rightarrow> sip_message \<Rightarrow> sip_message" where
  "add_header B name value m =
     (let key = to_lower B (hdrGetExpandedForm B name) in
      case map_of (m_headers m) key of
        None \<Rightarrow> m\<lparr>m_headers := AList.update key
            \<lparr>tok_values = [value], rawHeaderName = name, headerOffSet = m_headerOffSet m\<rparr> (m_headers m),
          m_headerOffSet := m_headerOffSet m + 1\<rparr>
      | Some t \<Rightarrow> m\<lparr>m_headers := AList.update key (t\<lparr>tok_values := tok_values t @ [value]\<rparr>) (m_headers m)\<rparr>)"

fun parse_headers :: "boost_fns \<Rightarrow> string list \<Rightarrow> sip_message \<Rightarrow> sip_message" where
  "parse_headers B [] m = m"
| "parse_headers B (header # hs) m =
     (case SIPMessage_headerSplit B header of
        None \<Rightarrow> parse_headers B hs (m\<lparr>m_badHeaders := m_badHeaders m @ [header]\<rparr>)
      | Some (name, value) \<Rightarrow> parse_headers B hs (add_header B name value m))"

text \<open>\<open>parse(_data)\<close>.\<close>

definition SIPMessage_parse :: "boost_fns \<Rightarrow> sip_message \<Rightarrow> sip_message" where
  "SIPMessage_parse B m =
     (if m_data m = [] then m
      else let m = m\<lparr>m_finalized := False, m_startLine := [], m_body := [], m_badHeaders := [],
                     m_headers := [], m_headerOffSet := 0, m_expectedBodyLen := 0, m_isResponse := None,
                     m_isRequest := None, m_data := dropWhile not_start_char (m_data m)\<rparr> in
        case SIPMessage_messageSplit (m_data m) (m_body m) of
          None \<Rightarrow> m\<lparr>m_finalized := True\<rparr>
        | Some (data, rawHeaders, body) \<Rightarrow>
            let m = m\<lparr>m_data := data, m_body := body\<rparr>;
                (ok, headers) = SIPMessage_headerTokenize B rawHeaders CRLF [] in
            if \<not> ok then m\<lparr>m_finalized := True\<rparr>
            else if headers = [] then m
            else (parse_headers B (tl headers) (m\<lparr>m_startLine := hd headers\<rparr>))\<lparr>m_finalized := True\<rparr>)"

subsection \<open>Headers\<close>

definition SIPMessage_hdrPresent :: "boost_fns \<Rightarrow> sip_message \<Rightarrow> string \<Rightarrow> nat" where
  "SIPMessage_hdrPresent B m headerName =
     (if \<not> m_finalized m then 0
      else case map_of (m_headers m) (to_lower B headerName) of
        None \<Rightarrow> 0
      | Some t \<Rightarrow> length (tok_values t))"

definition SIPMessage_hdrGet :: "boost_fns \<Rightarrow> sip_message \<Rightarrow> string \<Rightarrow> nat \<Rightarrow> string" where
  "SIPMessage_hdrGet B m headerName index =
     (if \<not> m_finalized m then []
      else case map_of (m_headers m) (to_lower B headerName) of
        None \<Rightarrow> []
      | Some t \<Rightarrow> if index \<ge> length (tok_values t) then [] else tok_values t ! index)"

definition new_header :: "string \<Rightarrow> string \<Rightarrow> string \<Rightarrow> sip_message \<Rightarrow> sip_message" where
  "new_header key name value m =
     m\<lparr>m_headers := AList.update key
         \<lparr>tok_values = [value], rawHeaderName = name, headerOffSet = m_headerOffSet m\<rparr> (m_headers m),
       m_headerOffSet := m_headerOffSet m + 1\<rparr>"

definition SIPMessage_hdrSet :: "boost_fns \<Rightarrow> sip_message \<Rightarrow> string \<Rightarrow> string \<Rightarrow> bool \<times> sip_message" where
  "SIPMessage_hdrSet B m headerName headerValue =
     (if \<not> m_finalized m \<or> headerValue = [] then (False, m)
      else let key = to_lower B headerName in
        case map_of (m_headers m) key of
          None \<Rightarrow> (True, new_header key headerName headerValue m)
        | Some t \<Rightarrow>
            if tok_values t = [] then (True, new_header key headerName headerValue m)
            else (True, m\<lparr>m_headers := AList.update key (t\<lparr>tok_values := (tok_values t)[0 := headerValue]\<rparr>) (m_headers m)\<rparr>))"

text \<open>The overload with an index; \<open>_headers[key]\<close> creates an empty entry when there is none.\<close>

definition SIPMessage_hdrSet_index ::
    "boost_fns \<Rightarrow> sip_message \<Rightarrow> string \<Rightarrow> string \<Rightarrow> nat \<Rightarrow> bool \<times> sip_message" where
  "SIPMessage_hdrSet_index B m headerName headerValue index =
     (if \<not> m_finalized m \<or> headerValue = [] then (False, m)
      else let key = to_lower B headerName in
        case map_of (m_headers m) key of
          None \<Rightarrow>
            if index = 0 then (True, new_header key headerName headerValue m)
            else (False, m\<lparr>m_headers := AList.update key SIPHeaderTokens_empty (m_headers m)\<rparr>)
        | Some t \<Rightarrow>
            if index \<ge> length (tok_values t) then (False, m)
            else (True, m\<lparr>m_headers := AList.update key (t\<lparr>tok_values := (tok_values t)[index := headerValue]\<rparr>) (m_headers m)\<rparr>))"

definition SIPMessage_hdrRemove :: "boost_fns \<Rightarrow> sip_message \<Rightarrow> string \<Rightarrow> bool \<times> sip_message" where
  "SIPMessage_hdrRemove B m headerName =
     (if \<not> m_finalized m then (False, m)
      else let key = to_lower B headerName in
        case map_of (m_headers m) key of
          None \<Rightarrow> (False, m)
        | Some t \<Rightarrow> if length (tok_values t) > 1 then (False, m)
                    else (True, m\<lparr>m_headers := AList.delete key (m_headers m)\<rparr>))"

definition SIPMessage_hdrListAppend :: "boost_fns \<Rightarrow> sip_message \<Rightarrow> string \<Rightarrow> string \<Rightarrow> bool \<times> sip_message" where
  "SIPMessage_hdrListAppend B m name value =
     (if \<not> m_finalized m \<or> value = [] then (False, m)
      else let key = to_lower B name in
        case map_of (m_headers m) key of
          None \<Rightarrow> (True, new_header key name value m)
        | Some t \<Rightarrow> (True, m\<lparr>m_headers := AList.update key (t\<lparr>tok_values := tok_values t @ [value]\<rparr>) (m_headers m)\<rparr>))"

definition SIPMessage_hdrListPrepend :: "boost_fns \<Rightarrow> sip_message \<Rightarrow> string \<Rightarrow> string \<Rightarrow> bool \<times> sip_message" where
  "SIPMessage_hdrListPrepend B m name value =
     (if \<not> m_finalized m \<or> value = [] then (False, m)
      else let key = to_lower B name in
        case map_of (m_headers m) key of
          None \<Rightarrow> (True, new_header key name value m)
        | Some t \<Rightarrow> (True, m\<lparr>m_headers := AList.update key (SIPHeaderTokens_push_front value t) (m_headers m)\<rparr>))"

definition SIPMessage_hdrListPopFront :: "boost_fns \<Rightarrow> sip_message \<Rightarrow> string \<Rightarrow> string \<times> sip_message" where
  "SIPMessage_hdrListPopFront B m headerName =
     (if \<not> m_finalized m then ([], m)
      else let key = to_lower B headerName in
        case map_of (m_headers m) key of
          None \<Rightarrow> ([], m)
        | Some t \<Rightarrow>
            (case tok_values t of
               [] \<Rightarrow> ([], m\<lparr>m_headers := AList.delete key (m_headers m)\<rparr>)
             | [front] \<Rightarrow> (front, m\<lparr>m_headers := AList.delete key (m_headers m)\<rparr>)
             | front # rest \<Rightarrow> (front, m\<lparr>m_headers := AList.update key (t\<lparr>tok_values := rest\<rparr>) (m_headers m)\<rparr>)))"

definition SIPMessage_hdrListRemove :: "boost_fns \<Rightarrow> sip_message \<Rightarrow> string \<Rightarrow> bool \<times> sip_message" where
  "SIPMessage_hdrListRemove B m headerName =
     (if \<not> m_finalized m then (False, m)
      else let key = to_lower B headerName in
        case map_of (m_headers m) key of
          None \<Rightarrow> (False, m)
        | Some _ \<Rightarrow> (True, m\<lparr>m_headers := AList.delete key (m_headers m)\<rparr>))"

definition SIPMessage_hdrListBottom :: "boost_fns \<Rightarrow> sip_message \<Rightarrow> string \<Rightarrow> string" where
  "SIPMessage_hdrListBottom B m headerName =
     (let count = SIPMessage_hdrPresent B m headerName in
      if count \<noteq> 0 then SIPMessage_hdrGet B m headerName (count - 1) else [])"

text \<open>The headers by their offset: \<open>_headers\<close> is traversed in the order of its keys and copied
  to a second map, whose entries are written in the order of its keys.\<close>

definition sorted_headers :: "(string \<times> header_tokens) list \<Rightarrow> header_tokens list" where
  "sorted_headers hs =
     map snd (sort_key fst (fold (\<lambda>(k, t) acc. AList.update (headerOffSet t) t acc) (sort_key fst hs) []))"

definition header_text :: "header_tokens \<Rightarrow> string" where
  "header_text t = concat (map (\<lambda>v. if v \<noteq> [] then rawHeaderName t @ '': '' @ v @ CRLF else []) (tok_values t))"

definition SIPMessage_commitData :: "sip_message \<Rightarrow> sip_message" where
  "SIPMessage_commitData m =
     m\<lparr>m_data := m_startLine m @ CRLF @ concat (map header_text (sorted_headers (m_headers m))) @ CRLF @ m_body m\<rparr>"

subsection \<open>What kind of message it is\<close>

text \<open>The functions return a value and the message with its cached flags updated; an exception is
  \<^const>\<open>Inl\<close>, an access outside a string \<^const>\<open>None\<close>.\<close>

definition requestLineVerify :: "mem \<Rightarrow> bool option" where
  "requestLineVerify = ABNFEvaluate ABNFSIPRequestLine"

definition statusLineVerify :: "mem \<Rightarrow> bool option" where
  "statusLineVerify = ABNFEvaluate ABNFSIPStatusLine"

definition SIPMessage_isRequest_method :: "boost_fns \<Rightarrow> sip_message \<Rightarrow> string \<Rightarrow> bool" where
  "SIPMessage_isRequest_method B m method = string_caseless_starts_with B (m_startLine m) method"

definition SIPMessage_isRequest :: "sip_message \<Rightarrow> (bool option \<times> sip_message) option" where
  "SIPMessage_isRequest m =
     (if tri_if (tri_neq (m_isRequest m) None) then Some (m_isRequest m, m)
      else if m_startLine m = [] then Some (Some False, m)
      else do {
        r \<leftarrow> requestLineVerify (cstr (m_startLine m));
        if r then Some (Some True, m\<lparr>m_isRequest := Some True\<rparr>)
        else do {
          s \<leftarrow> statusLineVerify (cstr (m_startLine m));
          Some (if \<not> s then (None, m) else (Some False, m\<lparr>m_isRequest := Some False\<rparr>))
        }
      })"

definition SIPMessage_isResponse :: "sip_message \<Rightarrow> (parser_exception + bool option \<times> sip_message) option" where
  "SIPMessage_isResponse m =
     (if tri_if (tri_neq (m_isResponse m) None) then Some (Inr (m_isResponse m, m))
      else if m_startLine m = [] then Some (Inl (SIPParserException ''ABNF Syntax Exception''))
      else do {
        s \<leftarrow> statusLineVerify (cstr (m_startLine m));
        if s then Some (Inr (Some True, m\<lparr>m_isResponse := Some True\<rparr>))
        else do {
          r \<leftarrow> requestLineVerify (cstr (m_startLine m));
          Some (Inr (if \<not> r then (None, m) else (Some False, m\<lparr>m_isResponse := Some False\<rparr>)))
        }
      })"

definition SIPMessage_isResponseTo :: "boost_fns \<Rightarrow> sip_message \<Rightarrow> string \<Rightarrow> (bool option \<times> sip_message) option" where
  "SIPMessage_isResponseTo B m meth =
     (if m_startLine m = [] then Some (Some False, m)
      else do {
        m \<leftarrow> (if tri_if (tri_not (m_isResponse m))
              then map_option (\<lambda>s. m\<lparr>m_isResponse := Some s\<rparr>) (statusLineVerify (cstr (m_startLine m)))
              else Some m);
        if tri_if (m_isResponse m) then
          let cseq = SIPMessage_hdrGet B m ''CSeq'' 0 in
          Some (if cseq = [] then None else Some (string_ends_with (to_lower B cseq) (to_lower B meth)), m)
        else do {
          r \<leftarrow> requestLineVerify (cstr (m_startLine m));
          Some (if \<not> r then (None, m) else (Some False, m\<lparr>m_isResponse := Some False\<rparr>))
        }
      })"

text \<open>\<open>_startLine[8]\<close>, the first digit of the status code. The three functions go on with it
  when \<open>isResponse\<close> is indeterminate.\<close>

definition status_digit ::
    "(char \<Rightarrow> bool) \<Rightarrow> sip_message \<Rightarrow> (parser_exception + bool option \<times> sip_message) option" where
  "status_digit P m = do {
     r \<leftarrow> SIPMessage_isResponse m;
     case r of
       Inl e \<Rightarrow> Some (Inl e)
     | Inr (t, m) \<Rightarrow>
         if tri_if (tri_not t) then Some (Inr (t, m))
         else map_option (\<lambda>c. Inr (Some (P c), m)) (string_index (m_startLine m) 8)
   }"

definition SIPMessage_isResponseFamily ::
    "sip_message \<Rightarrow> int \<Rightarrow> (parser_exception + bool option \<times> sip_message) option" where
  "SIPMessage_isResponseFamily m responseCode =
     (if \<not> (100 \<le> responseCode \<and> responseCode \<le> 699) then
        map_option (\<lambda>r. case r of Inl e \<Rightarrow> Inl e
          | Inr (t, m) \<Rightarrow> Inr (if tri_if (tri_not t) then t else Some False, m)) (SIPMessage_isResponse m)
      else status_digit (\<lambda>c.
       (responseCode \<ge> 100 \<and> responseCode \<le> 199 \<and> c = CHR ''1'') \<or>
       (responseCode \<ge> 200 \<and> responseCode \<le> 299 \<and> c = CHR ''2'') \<or>
       (responseCode \<ge> 300 \<and> responseCode \<le> 399 \<and> c = CHR ''3'') \<or>
       (responseCode \<ge> 400 \<and> responseCode \<le> 499 \<and> c = CHR ''4'') \<or>
       (responseCode \<ge> 500 \<and> responseCode \<le> 599 \<and> c = CHR ''5'') \<or>
       (responseCode \<ge> 600 \<and> responseCode \<le> 699 \<and> c = CHR ''6'')) m)"

definition SIPMessage_isErrorResponse :: "sip_message \<Rightarrow> (parser_exception + bool option \<times> sip_message) option" where
  "SIPMessage_isErrorResponse m = status_digit (\<lambda>c. c \<in> {CHR ''3'', CHR ''4'', CHR ''5'', CHR ''6''}) m"

definition SIPMessage_isFinalResponse :: "sip_message \<Rightarrow> (parser_exception + bool option \<times> sip_message) option" where
  "SIPMessage_isFinalResponse m =
     status_digit (\<lambda>c. c \<in> {CHR ''2'', CHR ''3'', CHR ''4'', CHR ''5'', CHR ''6''}) m"

text \<open>\<open>is1xx\<close> to \<open>is6xx\<close>; \<open>family\<close> is 100 to 600.\<close>

definition SIPMessage_isNxx ::
    "int \<Rightarrow> sip_message \<Rightarrow> int \<Rightarrow> (parser_exception + bool option \<times> sip_message) option" where
  "SIPMessage_isNxx family m code =
     (if code = 0 then SIPMessage_isResponseFamily m family
      else Some (Inr (Some (string_starts_with (m_startLine m) (''SIP/2.0 '' @ int_text code)), m)))"

abbreviation SIPMessage_is1xx where "SIPMessage_is1xx m \<equiv> SIPMessage_isNxx 100 m 0"
abbreviation SIPMessage_is2xx where "SIPMessage_is2xx m \<equiv> SIPMessage_isNxx 200 m 0"

subsection \<open>Identifiers\<close>

definition SIPMessage_getMethod :: "boost_fns \<Rightarrow> sip_message \<Rightarrow> string option" where
  "SIPMessage_getMethod B m =
     map_option snd (SIPCSeq_getMethod (to_upper B) (SIPMessage_hdrGet B m ''CSeq'' 0) [])"

definition SIPMessage_getTransactionId ::
    "boost_fns \<Rightarrow> sip_message \<Rightarrow> string option \<Rightarrow> string \<Rightarrow> (bool \<times> string) option" where
  "SIPMessage_getTransactionId B m methodArg transactionId =
     (let viaStr = SIPMessage_hdrGet B m ''Via'' 0; callIdStr = SIPMessage_hdrGet B m ''Call-ID'' 0;
          cseqStr = SIPMessage_hdrGet B m ''CSeq'' 0 in
      if viaStr = [] \<or> callIdStr = [] \<or> cseqStr = [] then Some (False, transactionId)
      else do {
        method \<leftarrow> (case methodArg of None \<Rightarrow> map_option snd (SIPCSeq_getMethod (to_upper B) cseqStr [])
                   | Some s \<Rightarrow> Some s);
        (_, number) \<leftarrow> SIPCSeq_getNumber cseqStr [];
        if method = [] \<or> number = [] then Some (False, transactionId)
        else do {
          (_, branch) \<leftarrow> SIPVia_getBranch viaStr [];
          let ident = (if branch = [] then callIdStr else branch);
          let lmethod = to_lower B method;
          let key = (if lmethod = ''ack'' then ''invite'' else lmethod);
          Some (True, key @ number @ ident)
        }
      })"

definition SIPMessage_getFromTag :: "boost_fns \<Rightarrow> sip_message \<Rightarrow> string option" where
  "SIPMessage_getFromTag B m =
     (let from = SIPMessage_hdrGet B m ''From'' 0 in if from \<noteq> [] then SIPFrom_getTag from else Some [])"

definition SIPMessage_getToTag :: "boost_fns \<Rightarrow> sip_message \<Rightarrow> string option" where
  "SIPMessage_getToTag B m =
     (let to = SIPMessage_hdrGet B m ''To'' 0 in if to \<noteq> [] then SIPFrom_getTag to else Some [])"

definition SIPMessage_getTopViaBranch :: "boost_fns \<Rightarrow> sip_message \<Rightarrow> string option" where
  "SIPMessage_getTopViaBranch B m =
     (let via = SIPMessage_hdrGet B m ''Via'' 0 in
      if via \<noteq> [] then map_option snd (SIPVia_getBranch via []) else Some [])"

definition SIPMessage_isMidDialog :: "boost_fns \<Rightarrow> sip_message \<Rightarrow> bool option option" where
  "SIPMessage_isMidDialog B m = do {
     (_, fromTag) \<leftarrow> SIPFrom_getHeaderParam (SIPMessage_hdrGet B m ''From'' 0) (cstr ''tag'') [];
     (_, toTag) \<leftarrow> SIPFrom_getHeaderParam (SIPMessage_hdrGet B m ''To'' 0) (cstr ''tag'') [];
     Some (if fromTag \<noteq> [] \<and> toTag \<noteq> [] then Some True
           else if fromTag \<noteq> [] then Some False else None)
   }"

definition SIPMessage_getDialogId ::
    "boost_fns \<Rightarrow> sip_message \<Rightarrow> bool \<Rightarrow> (parser_exception + string) option" where
  "SIPMessage_getDialogId B m asSender = do {
     (_, fromTag) \<leftarrow> SIPFrom_getHeaderParam (SIPMessage_hdrGet B m ''From'' 0) (cstr ''tag'') [];
     (_, toTag) \<leftarrow> SIPFrom_getHeaderParam (SIPMessage_hdrGet B m ''To'' 0) (cstr ''tag'') [];
     if fromTag = [] \<or> toTag = [] then Some (Inr [])
     else if asSender then do {
       r \<leftarrow> SIPMessage_isResponse m;
       Some (case r of Inl e \<Rightarrow> Inl e | Inr (t, _) \<Rightarrow> Inr (if tri_if t then toTag @ fromTag else fromTag @ toTag))
     }
     else do {
       (t, _) \<leftarrow> SIPMessage_isRequest m;
       Some (Inr (if tri_if t then toTag @ fromTag else fromTag @ toTag))
     }
   }"

subsection \<open>Properties and body\<close>

definition SIPMessage_setProperty :: "sip_message \<Rightarrow> string \<Rightarrow> string \<Rightarrow> sip_message" where
  "SIPMessage_setProperty m property value =
     (if property = [] then m else m\<lparr>m_properties := AList.update property value (m_properties m)\<rparr>)"

definition SIPMessage_getProperty :: "sip_message \<Rightarrow> string \<Rightarrow> string \<Rightarrow> bool \<times> string" where
  "SIPMessage_getProperty m property value =
     (if property = [] then (False, value)
      else case map_of (m_properties m) property of Some v \<Rightarrow> (True, v) | None \<Rightarrow> (False, value))"

definition SIPMessage_clearProperties :: "sip_message \<Rightarrow> sip_message" where
  "SIPMessage_clearProperties m = m\<lparr>m_properties := []\<rparr>"

definition SIPMessage_updateLength :: "boost_fns \<Rightarrow> sip_message \<Rightarrow> sip_message" where
  "SIPMessage_updateLength B m = snd (SIPMessage_hdrSet B m ''Content-Length'' (nat_text (length (m_body m))))"

subsection \<open>Via headers of a message\<close>

definition msgGetTopVia :: "boost_fns \<Rightarrow> sip_message \<Rightarrow> string \<Rightarrow> (bool \<times> string) option" where
  "msgGetTopVia B m topVia =
     (if SIPMessage_hdrPresent B m ''Via'' = 0 then Some (False, topVia)
      else map_option (\<lambda>v. (True, v)) (SIPVia_getTopVia (SIPMessage_hdrGet B m ''Via'' 0)))"

definition msgPopTopVia :: "boost_fns \<Rightarrow> sip_message \<Rightarrow> string \<Rightarrow> (bool \<times> string \<times> sip_message) option" where
  "msgPopTopVia B m topVia =
     (if SIPMessage_hdrPresent B m ''Via'' = 0 then Some (False, topVia, m)
      else do {
        (moreVia, topVia) \<leftarrow> SIPVia_popTopVia (SIPMessage_hdrGet B m ''Via'' 0);
        let m' = (if moreVia \<noteq> [] then snd (SIPMessage_hdrSet_index B m ''Via'' moreVia 0)
                  else snd (SIPMessage_hdrListPopFront B m ''Via''));
        Some (topVia \<noteq> [], topVia, m')
      })"

definition msgAddVia :: "boost_fns \<Rightarrow> sip_message \<Rightarrow> string \<Rightarrow> bool \<times> sip_message" where
  "msgAddVia B m via = SIPMessage_hdrListPrepend B m ''Via'' via"

definition msgClearVias :: "boost_fns \<Rightarrow> sip_message \<Rightarrow> bool \<times> sip_message" where
  "msgClearVias B m = SIPMessage_hdrListRemove B m ''Via''"

definition msgGetTopViaSentBy :: "boost_fns \<Rightarrow> sip_message \<Rightarrow> string \<Rightarrow> (bool \<times> string) option" where
  "msgGetTopViaSentBy B m sentBy = do {
     (ok, topVia) \<leftarrow> msgGetTopVia B m [];
     if \<not> ok then Some (False, sentBy) else SIPVia_getSentBy topVia sentBy
   }"

definition msgGetTopViaTransport :: "boost_fns \<Rightarrow> sip_message \<Rightarrow> string \<Rightarrow> (bool \<times> string) option" where
  "msgGetTopViaTransport B m transport = do {
     (ok, topVia) \<leftarrow> msgGetTopVia B m [];
     if \<not> ok then Some (False, transport) else SIPVia_getTransport (to_upper B) topVia transport
   }"

definition msgGetBottomVia :: "boost_fns \<Rightarrow> sip_message \<Rightarrow> string \<Rightarrow> (bool \<times> string) option" where
  "msgGetBottomVia B m via =
     (let count = SIPMessage_hdrPresent B m ''Via'' in
      if count = 0 then Some (False, via)
      else let hVia = SIPMessage_hdrGet B m ''Via'' (count - 1) in
        if hVia = [] then Some (False, via) else SIPVia_getBottomVia hVia via)"

definition msgGetBottomViaSentBy :: "boost_fns \<Rightarrow> sip_message \<Rightarrow> string \<Rightarrow> (bool \<times> string) option" where
  "msgGetBottomViaSentBy B m sentBy = do {
     (ok, hVia) \<leftarrow> msgGetBottomVia B m [];
     if \<not> ok then Some (False, sentBy) else SIPVia_getSentBy hVia sentBy
   }"

definition msgGetBottomViaReceived :: "boost_fns \<Rightarrow> sip_message \<Rightarrow> string \<Rightarrow> (bool \<times> string) option" where
  "msgGetBottomViaReceived B m received = do {
     (ok, hVia) \<leftarrow> msgGetBottomVia B m [];
     if \<not> ok then Some (False, received) else SIPVia_getReceived hVia received
   }"

definition msgGetBottomViaRPort :: "boost_fns \<Rightarrow> sip_message \<Rightarrow> string \<Rightarrow> (bool \<times> string) option" where
  "msgGetBottomViaRPort B m rport = do {
     (ok, hVia) \<leftarrow> msgGetBottomVia B m [];
     if \<not> ok then Some (False, rport) else SIPVia_getRPort (to_lower B) hVia rport
   }"

subsection \<open>Other members\<close>

definition SIPMessage_setData :: "sip_message \<Rightarrow> string \<Rightarrow> sip_message" where
  "SIPMessage_setData m data = m\<lparr>m_finalized := False, m_data := data\<rparr>"

definition SIPMessage_setBody :: "sip_message \<Rightarrow> string \<Rightarrow> sip_message" where
  "SIPMessage_setBody m body = m\<lparr>m_body := body\<rparr>"

definition SIPMessage_setStartLine :: "sip_message \<Rightarrow> string \<Rightarrow> sip_message" where
  "SIPMessage_setStartLine m startLine = m\<lparr>m_startLine := startLine\<rparr>"

text \<open>\<open>operator=\<close> from a string, and the constructor from a packet.\<close>

definition SIPMessage_assign_data :: "boost_fns \<Rightarrow> sip_message \<Rightarrow> string \<Rightarrow> sip_message" where
  "SIPMessage_assign_data B m data = SIPMessage_parse B (m\<lparr>m_data := data\<rparr>)"

definition SIPMessage_packet :: "boost_fns \<Rightarrow> string \<Rightarrow> sip_message" where
  "SIPMessage_packet B packet = SIPMessage_parse B (SIPMessage_new\<lparr>m_finalized := False, m_data := packet\<rparr>)"

definition SIPMessage_getFromHost :: "(string \<Rightarrow> string \<Rightarrow> string list) \<Rightarrow> boost_fns \<Rightarrow> sip_message \<Rightarrow> string option" where
  "SIPMessage_getFromHost string_tokenize B m = map_option snd (SIPFrom_getHost string_tokenize (SIPMessage_hdrGet B m ''From'' 0) [])"

definition SIPMessage_getFromHostPort :: "boost_fns \<Rightarrow> sip_message \<Rightarrow> string option" where
  "SIPMessage_getFromHostPort B m = map_option snd (SIPFrom_getHostPort (SIPMessage_hdrGet B m ''From'' 0) [])"

definition SIPMessage_getToHost :: "(string \<Rightarrow> string \<Rightarrow> string list) \<Rightarrow> boost_fns \<Rightarrow> sip_message \<Rightarrow> string option" where
  "SIPMessage_getToHost string_tokenize B m = map_option snd (SIPFrom_getHost string_tokenize (SIPMessage_hdrGet B m ''To'' 0) [])"

definition SIPMessage_getToHostPort :: "boost_fns \<Rightarrow> sip_message \<Rightarrow> string option" where
  "SIPMessage_getToHostPort B m = map_option snd (SIPFrom_getHostPort (SIPMessage_hdrGet B m ''To'' 0) [])"

definition SIPMessage_getHeaderNames :: "sip_message \<Rightarrow> string set \<Rightarrow> string set" where
  "SIPMessage_getHeaderNames m headers = headers \<union> fst ` set (m_headers m)"

text \<open>\<open>getRequestUri\<close> and \<open>setRequestUri\<close>: result, URI, message.\<close>

definition SIPMessage_getRequestUri ::
    "sip_message \<Rightarrow> string \<Rightarrow> (parser_exception + bool \<times> string \<times> sip_message) option" where
  "SIPMessage_getRequestUri m ruri =
     (if m_startLine m = [] then Some (Inr (False, ruri, m))
      else do {
        r \<leftarrow> SIPMessage_isResponse m;
        case r of
          Inl e \<Rightarrow> Some (Inl e)
        | Inr (t, m) \<Rightarrow>
            if tri_if t then Some (Inr (False, ruri, m))
            else map_option (\<lambda>(ok, uri). Inr (ok, uri, m)) (SIPRequestLine_getURI (m_startLine m) ruri)
      })"

definition SIPMessage_setRequestUri ::
    "sip_message \<Rightarrow> string \<Rightarrow> (parser_exception + bool \<times> sip_message) option" where
  "SIPMessage_setRequestUri m ruri =
     (if m_startLine m = [] then Some (Inr (False, m))
      else do {
        r \<leftarrow> SIPMessage_isResponse m;
        case r of
          Inl e \<Rightarrow> Some (Inl e)
        | Inr (t, m) \<Rightarrow>
            if tri_if t then Some (Inr (False, m))
            else map_option (\<lambda>(_, rline). Inr (True, m\<lparr>m_startLine := rline\<rparr>))
                   (SIPRequestLine_setURI_member (m_startLine m) (Some (cstr ruri)))
      })"

section \<open>The header map\<close>

text \<open>Every key has one entry, every entry has a value and an offset of its own, and the next offset
  is larger than all of them.\<close>

definition hdr_wf :: "sip_message \<Rightarrow> bool" where
  "hdr_wf m =
     (distinct (map fst (m_headers m)) \<and> distinct (map (headerOffSet \<circ> snd) (m_headers m)) \<and>
      (\<forall>(k, t) \<in> set (m_headers m). tok_values t \<noteq> [] \<and> headerOffSet t < m_headerOffSet m))"

text \<open>The abstract view: a list of values for each key.\<close>

definition hdr_vals :: "sip_message \<Rightarrow> string \<Rightarrow> string list" where
  "hdr_vals m key = (case map_of (m_headers m) key of None \<Rightarrow> [] | Some t \<Rightarrow> tok_values t)"

lemma update_new: "map_of al k = None \<Longrightarrow> AList.update k v al = al @ [(k, v)]"
  by (induction al) (auto split: if_splits)

lemma update_old:
  "map_of al k = Some t \<Longrightarrow> \<exists>xs ys. al = xs @ (k, t) # ys \<and> AList.update k v al = xs @ (k, v) # ys"
proof (induction al)
  case (Cons p al)
  obtain k' t' where p: "p = (k', t')" by (cases p)
  show ?case
  proof (cases "k' = k")
    case True
    then have "p # al = [] @ (k, t) # al \<and> AList.update k v (p # al) = [] @ (k, v) # al" using Cons.prems p by simp
    then show ?thesis by blast
  next
    case False
    then obtain xs ys where "al = xs @ (k, t) # ys" "AList.update k v al = xs @ (k, v) # ys"
      using Cons p by auto
    then have "p # al = (p # xs) @ (k, t) # ys \<and> AList.update k v (p # al) = (p # xs) @ (k, v) # ys"
      using False p by simp
    then show ?thesis by blast
  qed
qed simp

lemma delete_filter: "AList.delete k al = filter (\<lambda>p. fst p \<noteq> k) al"
  unfolding AList.delete_eq by (rule filter_cong) auto

lemma distinct_map_filter_fst: "distinct (map f xs) \<Longrightarrow> distinct (map f (filter P xs))"
  by (induction xs) auto

lemma hdr_wf_headers: "m_headers m' = m_headers m \<Longrightarrow> m_headerOffSet m' = m_headerOffSet m \<Longrightarrow> hdr_wf m' = hdr_wf m"
  by (simp add: hdr_wf_def)

lemma hdr_wf_empty: "m_headers m = [] \<Longrightarrow> hdr_wf m"
  by (simp add: hdr_wf_def)

lemma hdr_wf_present: "hdr_wf m \<Longrightarrow> map_of (m_headers m) k = Some t \<Longrightarrow> tok_values t \<noteq> []"
  unfolding hdr_wf_def by (auto dest: map_of_SomeD)

lemma hdr_wf_insert:
  assumes "hdr_wf m" "map_of (m_headers m) k = None" "vs \<noteq> []" "m_headerOffSet m' = m_headerOffSet m + 1"
    "m_headers m' = AList.update k \<lparr>tok_values = vs, rawHeaderName = n, headerOffSet = m_headerOffSet m\<rparr> (m_headers m)"
  shows "hdr_wf m'"
proof -
  have "k \<notin> fst ` set (m_headers m)" using assms(2) by (simp add: map_of_eq_None_iff)
  then show ?thesis using assms by (force simp: hdr_wf_def update_new less_Suc_eq)
qed

lemma hdr_wf_replace:
  assumes wf: "hdr_wf m" and k: "map_of (m_headers m) k = Some t" and v: "vs \<noteq> []"
  shows "hdr_wf (m\<lparr>m_headers := AList.update k (t\<lparr>tok_values := vs\<rparr>) (m_headers m)\<rparr>)"
proof -
  obtain xs ys where "m_headers m = xs @ (k, t) # ys"
    "AList.update k (t\<lparr>tok_values := vs\<rparr>) (m_headers m) = xs @ (k, t\<lparr>tok_values := vs\<rparr>) # ys"
    using update_old [OF k] by blast
  then show ?thesis using wf v by (auto simp: hdr_wf_def)
qed

lemma hdr_wf_delete: "hdr_wf m \<Longrightarrow> hdr_wf (m\<lparr>m_headers := AList.delete k (m_headers m)\<rparr>)"
  by (auto simp: hdr_wf_def delete_filter distinct_map_filter_fst)

text \<open>What the operations do to the abstract view.\<close>

lemma hdr_vals_update [simp]:
  "hdr_vals (m\<lparr>m_headers := AList.update k t (m_headers m)\<rparr>) = (hdr_vals m)(k := tok_values t)"
  by (rule ext) (simp add: hdr_vals_def update_conv')

lemma hdr_vals_delete [simp]:
  "hdr_vals (m\<lparr>m_headers := AList.delete k (m_headers m)\<rparr>) = (hdr_vals m)(k := [])"
  by (rule ext) (simp add: hdr_vals_def delete_conv')

lemma hdr_vals_new [simp]: "hdr_vals (new_header k n v m) = (hdr_vals m)(k := [v])"
  by (rule ext) (simp add: hdr_vals_def new_header_def update_conv')

lemma hdr_wf_new: "hdr_wf m \<Longrightarrow> map_of (m_headers m) k = None \<Longrightarrow> hdr_wf (new_header k n v m)"
  by (rule hdr_wf_insert [of m k "[v]" _ n]) (simp_all add: new_header_def)

lemma finalized_new [simp]: "m_finalized (new_header k n v m) = m_finalized m"
  by (simp add: new_header_def)

definition hdr_ok :: "sip_message \<Rightarrow> bool" where
  "hdr_ok m = (m_finalized m \<and> hdr_wf m)"

lemma vals_None: "map_of (m_headers m) k = None \<Longrightarrow> hdr_vals m k = []"
  by (simp add: hdr_vals_def)

lemma vals_Some: "map_of (m_headers m) k = Some t \<Longrightarrow> hdr_vals m k = tok_values t"
  by (simp add: hdr_vals_def)

lemma vals_empty: "hdr_ok m \<Longrightarrow> (hdr_vals m k = []) = (map_of (m_headers m) k = None)"
  by (auto simp: hdr_vals_def hdr_ok_def dest: hdr_wf_present split: option.splits)

lemma hdrPresent_vals: "hdr_ok m \<Longrightarrow> SIPMessage_hdrPresent B m h = length (hdr_vals m (to_lower B h))"
  by (simp add: SIPMessage_hdrPresent_def hdr_ok_def hdr_vals_def split: option.splits)

lemma hdrGet_vals:
  "hdr_ok m \<Longrightarrow> SIPMessage_hdrGet B m h i =
     (if i < length (hdr_vals m (to_lower B h)) then hdr_vals m (to_lower B h) ! i else [])"
  by (simp add: SIPMessage_hdrGet_def hdr_ok_def hdr_vals_def split: option.splits)

lemma set_vals:
  assumes "hdr_ok m" "v \<noteq> []"
  shows "fst (SIPMessage_hdrSet B m h v) \<and> hdr_ok (snd (SIPMessage_hdrSet B m h v)) \<and>
    hdr_vals (snd (SIPMessage_hdrSet B m h v)) = (hdr_vals m)(to_lower B h := v # tl (hdr_vals m (to_lower B h)))"
proof (cases "map_of (m_headers m) (to_lower B h)")
  case None
  then show ?thesis using assms
    by (simp add: SIPMessage_hdrSet_def Let_def hdr_ok_def vals_None hdr_wf_new)
next
  case (Some t)
  have ne: "tok_values t \<noteq> []" using assms(1) Some by (auto simp: hdr_ok_def dest: hdr_wf_present)
  then have "(tok_values t)[0 := v] = v # tl (tok_values t)" by (cases "tok_values t") simp_all
  then show ?thesis using assms Some ne
    by (simp add: SIPMessage_hdrSet_def Let_def hdr_ok_def vals_Some hdr_wf_replace)
qed

lemma append_vals:
  assumes "hdr_ok m" "v \<noteq> []"
  shows "fst (SIPMessage_hdrListAppend B m h v) \<and> hdr_ok (snd (SIPMessage_hdrListAppend B m h v)) \<and>
    hdr_vals (snd (SIPMessage_hdrListAppend B m h v)) =
      (hdr_vals m)(to_lower B h := hdr_vals m (to_lower B h) @ [v])"
  using assms
  by (cases "map_of (m_headers m) (to_lower B h)")
    (simp_all add: SIPMessage_hdrListAppend_def Let_def hdr_ok_def vals_None vals_Some hdr_wf_new hdr_wf_replace)

lemma prepend_vals:
  assumes "hdr_ok m" "v \<noteq> []"
  shows "fst (SIPMessage_hdrListPrepend B m h v) \<and> hdr_ok (snd (SIPMessage_hdrListPrepend B m h v)) \<and>
    hdr_vals (snd (SIPMessage_hdrListPrepend B m h v)) =
      (hdr_vals m)(to_lower B h := v # hdr_vals m (to_lower B h))"
  using assms
  by (cases "map_of (m_headers m) (to_lower B h)")
    (simp_all add: SIPMessage_hdrListPrepend_def SIPHeaderTokens_push_front_def Let_def hdr_ok_def vals_None
      vals_Some hdr_wf_new hdr_wf_replace)

lemma pop_vals:
  assumes "hdr_ok m"
  shows "fst (SIPMessage_hdrListPopFront B m h) = (case hdr_vals m (to_lower B h) of [] \<Rightarrow> [] | v # _ \<Rightarrow> v) \<and>
    hdr_ok (snd (SIPMessage_hdrListPopFront B m h)) \<and>
    hdr_vals (snd (SIPMessage_hdrListPopFront B m h)) =
      (hdr_vals m)(to_lower B h := tl (hdr_vals m (to_lower B h)))"
proof (cases "map_of (m_headers m) (to_lower B h)")
  case None
  then show ?thesis using assms
    by (auto simp: SIPMessage_hdrListPopFront_def Let_def hdr_ok_def vals_None fun_upd_idem)
next
  case (Some t)
  have ne: "tok_values t \<noteq> []" using assms(1) Some by (auto simp: hdr_ok_def dest: hdr_wf_present)
  then show ?thesis using assms Some
    by (auto simp: SIPMessage_hdrListPopFront_def Let_def hdr_ok_def vals_Some hdr_wf_replace hdr_wf_delete
        split: list.splits)
qed

lemma remove_vals:
  assumes "hdr_ok m"
  shows "fst (SIPMessage_hdrListRemove B m h) = (hdr_vals m (to_lower B h) \<noteq> []) \<and>
    hdr_ok (snd (SIPMessage_hdrListRemove B m h)) \<and>
    hdr_vals (snd (SIPMessage_hdrListRemove B m h)) = (hdr_vals m)(to_lower B h := [])"
  using assms vals_empty [OF assms, of "to_lower B h"]
  by (cases "map_of (m_headers m) (to_lower B h)")
    (auto simp: SIPMessage_hdrListRemove_def Let_def hdr_ok_def hdr_wf_delete)

lemma remove_one_vals:
  assumes "hdr_ok m"
  shows "fst (SIPMessage_hdrRemove B m h) = (length (hdr_vals m (to_lower B h)) = 1) \<and>
    hdr_ok (snd (SIPMessage_hdrRemove B m h)) \<and>
    hdr_vals (snd (SIPMessage_hdrRemove B m h)) =
      (if length (hdr_vals m (to_lower B h)) = 1 then (hdr_vals m)(to_lower B h := []) else hdr_vals m)"
proof (cases "map_of (m_headers m) (to_lower B h)")
  case None
  then show ?thesis using assms by (simp add: SIPMessage_hdrRemove_def Let_def hdr_ok_def vals_None)
next
  case (Some t)
  have ne: "tok_values t \<noteq> []" using assms(1) Some by (auto simp: hdr_ok_def dest: hdr_wf_present)
  then have "(length (tok_values t) = 1) = (\<not> length (tok_values t) > 1)" by (cases "tok_values t") auto
  then show ?thesis using assms Some
    by (simp add: SIPMessage_hdrRemove_def Let_def hdr_ok_def vals_Some hdr_wf_delete)
qed

lemma set_index_vals:
  assumes "hdr_ok m" "v \<noteq> []" "i = 0 \<or> i < length (hdr_vals m (to_lower B h))"
  shows "fst (SIPMessage_hdrSet_index B m h v i) \<and> hdr_ok (snd (SIPMessage_hdrSet_index B m h v i)) \<and>
    hdr_vals (snd (SIPMessage_hdrSet_index B m h v i)) = (hdr_vals m)(to_lower B h :=
      (if hdr_vals m (to_lower B h) = [] then [v] else (hdr_vals m (to_lower B h))[i := v]))"
proof (cases "map_of (m_headers m) (to_lower B h)")
  case None
  then show ?thesis using assms
    by (simp add: SIPMessage_hdrSet_index_def Let_def hdr_ok_def vals_None hdr_wf_new)
next
  case (Some t)
  have ne: "tok_values t \<noteq> []" using assms(1) Some by (auto simp: hdr_ok_def dest: hdr_wf_present)
  then show ?thesis using assms Some
    by (auto simp: SIPMessage_hdrSet_index_def Let_def hdr_ok_def vals_Some hdr_wf_replace)
qed

text \<open>The interface of a header store: a message of which the client sees the lists of values, and the
  operations that change them. Names that differ in case only are one name (\<open>norm\<close>).\<close>

locale header_store =
  fixes ok :: "'m \<Rightarrow> bool"
    and vals :: "'m \<Rightarrow> 'k \<Rightarrow> string list"
    and norm :: "'k \<Rightarrow> 'k"
    and get :: "'m \<Rightarrow> 'k \<Rightarrow> nat \<Rightarrow> string"
    and set_hdr :: "'m \<Rightarrow> 'k \<Rightarrow> string \<Rightarrow> 'm"
    and append_hdr :: "'m \<Rightarrow> 'k \<Rightarrow> string \<Rightarrow> 'm"
    and prepend_hdr :: "'m \<Rightarrow> 'k \<Rightarrow> string \<Rightarrow> 'm"
    and pop_hdr :: "'m \<Rightarrow> 'k \<Rightarrow> 'm"
  assumes get_law: "ok m \<Longrightarrow> get m k i = (if i < length (vals m (norm k)) then vals m (norm k) ! i else [])"
    and set_law: "ok m \<Longrightarrow> v \<noteq> [] \<Longrightarrow>
      ok (set_hdr m k v) \<and> vals (set_hdr m k v) = (vals m)(norm k := v # tl (vals m (norm k)))"
    and append_law: "ok m \<Longrightarrow> v \<noteq> [] \<Longrightarrow>
      ok (append_hdr m k v) \<and> vals (append_hdr m k v) = (vals m)(norm k := vals m (norm k) @ [v])"
    and prepend_law: "ok m \<Longrightarrow> v \<noteq> [] \<Longrightarrow>
      ok (prepend_hdr m k v) \<and> vals (prepend_hdr m k v) = (vals m)(norm k := v # vals m (norm k))"
    and pop_law: "ok m \<Longrightarrow> ok (pop_hdr m k) \<and> vals (pop_hdr m k) = (vals m)(norm k := tl (vals m (norm k)))"
begin

lemma get_set: "ok m \<Longrightarrow> v \<noteq> [] \<Longrightarrow>
    get (set_hdr m k v) k' i = (if norm k' = norm k \<and> i = 0 then v else get m k' i)"
  using set_law [of m v k]
  by (auto simp: get_law nth_Cons nth_tl split: nat.splits)

lemma pop_prepend: "ok m \<Longrightarrow> v \<noteq> [] \<Longrightarrow> vals (pop_hdr (prepend_hdr m k v) k) = vals m"
  using prepend_law [of m v k] pop_law [of "prepend_hdr m k v" k] by (simp add: fun_upd_idem)

lemma append_all:
  "ok m \<Longrightarrow> [] \<notin> set vs \<Longrightarrow>
   ok (foldl (\<lambda>m. append_hdr m k) m vs) \<and>
   vals (foldl (\<lambda>m. append_hdr m k) m vs) = (vals m)(norm k := vals m (norm k) @ vs)"
proof (induction vs arbitrary: m)
  case (Cons v vs)
  have l: "ok (append_hdr m k v)" "vals (append_hdr m k v) = (vals m)(norm k := vals m (norm k) @ [v])"
    using append_law [OF Cons.prems(1), of v k] Cons.prems(2) by auto
  have "[] \<notin> set vs" using Cons.prems(2) by simp
  from Cons.IH [OF l(1) this] show ?case unfolding l(2) by (auto simp: fun_eq_iff)
qed (simp add: fun_upd_idem)

end

interpretation msg_hdr: header_store hdr_ok hdr_vals "to_lower B" "SIPMessage_hdrGet B"
    "\<lambda>m h v. snd (SIPMessage_hdrSet B m h v)" "\<lambda>m h v. snd (SIPMessage_hdrListAppend B m h v)"
    "\<lambda>m h v. snd (SIPMessage_hdrListPrepend B m h v)" "\<lambda>m h. snd (SIPMessage_hdrListPopFront B m h)" for B
proof unfold_locales
  fix m k i
  show "hdr_ok m \<Longrightarrow> SIPMessage_hdrGet B m k i =
      (if i < length (hdr_vals m (to_lower B k)) then hdr_vals m (to_lower B k) ! i else [])"
    by (rule hdrGet_vals)
next
  fix m and v :: string and k
  assume "hdr_ok m" "v \<noteq> []"
  then show "hdr_ok (snd (SIPMessage_hdrSet B m k v)) \<and> hdr_vals (snd (SIPMessage_hdrSet B m k v)) =
      (hdr_vals m)(to_lower B k := v # tl (hdr_vals m (to_lower B k)))"
    "hdr_ok (snd (SIPMessage_hdrListAppend B m k v)) \<and> hdr_vals (snd (SIPMessage_hdrListAppend B m k v)) =
      (hdr_vals m)(to_lower B k := hdr_vals m (to_lower B k) @ [v])"
    "hdr_ok (snd (SIPMessage_hdrListPrepend B m k v)) \<and> hdr_vals (snd (SIPMessage_hdrListPrepend B m k v)) =
      (hdr_vals m)(to_lower B k := v # hdr_vals m (to_lower B k))"
    by (simp_all only: set_vals append_vals prepend_vals simp_thms)
next
  fix m k
  assume "hdr_ok m"
  then show "hdr_ok (snd (SIPMessage_hdrListPopFront B m k)) \<and>
      hdr_vals (snd (SIPMessage_hdrListPopFront B m k)) = (hdr_vals m)(to_lower B k := tl (hdr_vals m (to_lower B k)))"
    by (simp only: pop_vals simp_thms)
qed

subsection \<open>Reachable messages\<close>

text \<open>Everything that changes a message. Replacing a value by its index is done at an index that
  exists, or at 0.\<close>

inductive msg_step :: "boost_fns \<Rightarrow> sip_message \<Rightarrow> sip_message \<Rightarrow> bool" for B where
  "msg_step B m (SIPMessage_copy m)"
| "msg_step B m (SIPMessage_parse B m)"
| "msg_step B m (SIPMessage_setData m d)"
| "msg_step B m (SIPMessage_setBody m d)"
| "msg_step B m (SIPMessage_setStartLine m d)"
| "msg_step B m (SIPMessage_setProperty m p d)"
| "msg_step B m (SIPMessage_clearProperties m)"
| "msg_step B m (SIPMessage_commitData m)"
| "SIPMessage_isRequest m = Some (r, m') \<Longrightarrow> msg_step B m m'"
| "SIPMessage_isResponse m = Some (Inr (r, m')) \<Longrightarrow> msg_step B m m'"
| "SIPMessage_isResponseTo B m p = Some (r, m') \<Longrightarrow> msg_step B m m'"
| "msg_step B m (snd (SIPMessage_hdrSet B m h v))"
| "i = 0 \<or> i < SIPMessage_hdrPresent B m h \<Longrightarrow> msg_step B m (snd (SIPMessage_hdrSet_index B m h v i))"
| "msg_step B m (snd (SIPMessage_hdrRemove B m h))"
| "msg_step B m (snd (SIPMessage_hdrListAppend B m h v))"
| "msg_step B m (snd (SIPMessage_hdrListPrepend B m h v))"
| "msg_step B m (snd (SIPMessage_hdrListPopFront B m h))"
| "msg_step B m (snd (SIPMessage_hdrListRemove B m h))"

inductive msg_reachable :: "boost_fns \<Rightarrow> sip_message \<Rightarrow> bool" for B where
  msg_init: "msg_reachable B SIPMessage_new"
| msg_more: "msg_reachable B m \<Longrightarrow> msg_step B m m' \<Longrightarrow> msg_reachable B m'"

lemma hdr_wf_fields [simp]:
  "hdr_wf (m\<lparr>m_finalized := b\<rparr>) = hdr_wf m" "hdr_wf (m\<lparr>m_data := s\<rparr>) = hdr_wf m"
  "hdr_wf (m\<lparr>m_startLine := s\<rparr>) = hdr_wf m" "hdr_wf (m\<lparr>m_body := s\<rparr>) = hdr_wf m"
  "hdr_wf (m\<lparr>m_badHeaders := l\<rparr>) = hdr_wf m" "hdr_wf (m\<lparr>m_properties := ps\<rparr>) = hdr_wf m"
  "hdr_wf (m\<lparr>m_consumeState := st\<rparr>) = hdr_wf m" "hdr_wf (m\<lparr>m_idleBuffer := s\<rparr>) = hdr_wf m"
  by (simp_all add: hdr_wf_def)

lemma wf_hdrSet: "hdr_wf m \<Longrightarrow> hdr_wf (snd (SIPMessage_hdrSet B m h v))"
  using set_vals [of m v B h]
  by (cases "m_finalized m \<and> v \<noteq> []") (auto simp: hdr_ok_def SIPMessage_hdrSet_def)

lemma wf_hdrSet_index:
  "hdr_wf m \<Longrightarrow> i = 0 \<or> i < SIPMessage_hdrPresent B m h \<Longrightarrow> hdr_wf (snd (SIPMessage_hdrSet_index B m h v i))"
  using set_index_vals [of m v i B h] hdrPresent_vals [of m B h]
  by (cases "m_finalized m \<and> v \<noteq> []") (auto simp: hdr_ok_def SIPMessage_hdrSet_index_def)

lemma wf_hdrListAppend: "hdr_wf m \<Longrightarrow> hdr_wf (snd (SIPMessage_hdrListAppend B m h v))"
  using append_vals [of m v B h]
  by (cases "m_finalized m \<and> v \<noteq> []") (auto simp: hdr_ok_def SIPMessage_hdrListAppend_def)

lemma wf_hdrListPrepend: "hdr_wf m \<Longrightarrow> hdr_wf (snd (SIPMessage_hdrListPrepend B m h v))"
  using prepend_vals [of m v B h]
  by (cases "m_finalized m \<and> v \<noteq> []") (auto simp: hdr_ok_def SIPMessage_hdrListPrepend_def)

lemma wf_hdrListPopFront: "hdr_wf m \<Longrightarrow> hdr_wf (snd (SIPMessage_hdrListPopFront B m h))"
  using pop_vals [of m B h]
  by (cases "m_finalized m") (auto simp: hdr_ok_def SIPMessage_hdrListPopFront_def)

lemma wf_hdrListRemove: "hdr_wf m \<Longrightarrow> hdr_wf (snd (SIPMessage_hdrListRemove B m h))"
  using remove_vals [of m B h]
  by (cases "m_finalized m") (auto simp: hdr_ok_def SIPMessage_hdrListRemove_def)

lemma wf_hdrRemove: "hdr_wf m \<Longrightarrow> hdr_wf (snd (SIPMessage_hdrRemove B m h))"
  using remove_one_vals [of m B h]
  by (cases "m_finalized m") (auto simp: hdr_ok_def SIPMessage_hdrRemove_def)

lemma wf_add_header: "hdr_wf m \<Longrightarrow> hdr_wf (add_header B n v m)"
proof (cases "map_of (m_headers m) (to_lower B (hdrGetExpandedForm B n))")
  case None
  assume "hdr_wf m"
  then show ?thesis
    by (rule hdr_wf_insert [OF _ None, of "[v]" _ n]) (simp_all add: add_header_def None Let_def)
next
  case (Some t)
  assume "hdr_wf m"
  then show ?thesis using Some by (simp add: add_header_def Let_def hdr_wf_replace)
qed

lemma wf_parse_headers: "hdr_wf m \<Longrightarrow> hdr_wf (parse_headers B hs m)"
proof (induction B hs m rule: parse_headers.induct)
  case (2 B header hs m)
  then show ?case by (auto simp: wf_add_header split: option.splits)
qed simp

lemma wf_parse: "hdr_wf m \<Longrightarrow> hdr_wf (SIPMessage_parse B m)"
  unfolding SIPMessage_parse_def Let_def
  by (auto split: option.splits prod.splits
      intro!: hdr_wf_empty wf_parse_headers)

lemma isRequest_headers:
  "SIPMessage_isRequest m = Some (r, m') \<Longrightarrow> m_headers m' = m_headers m \<and> m_headerOffSet m' = m_headerOffSet m"
  by (auto simp: SIPMessage_isRequest_def bind_eq_Some_conv split: if_splits)

lemma isResponse_headers:
  "SIPMessage_isResponse m = Some (Inr (r, m')) \<Longrightarrow> m_headers m' = m_headers m \<and> m_headerOffSet m' = m_headerOffSet m"
  by (auto simp: SIPMessage_isResponse_def bind_eq_Some_conv split: if_splits)

lemma isResponseTo_headers:
  "SIPMessage_isResponseTo B m p = Some (r, m') \<Longrightarrow> m_headers m' = m_headers m \<and> m_headerOffSet m' = m_headerOffSet m"
proof (cases "m_startLine m = []")
  case False
  let ?pre = "if tri_if (tri_not (m_isResponse m))
    then map_option (\<lambda>s. m\<lparr>m_isResponse := Some s\<rparr>) (statusLineVerify (cstr (m_startLine m))) else Some m"
  assume *: "SIPMessage_isResponseTo B m p = Some (r, m')"
  obtain m1 where m1: "?pre = Some m1"
    using * False unfolding SIPMessage_isResponseTo_def by (cases ?pre) (simp_all only: if_False bind.simps option.simps)
  have "m_headers m1 = m_headers m \<and> m_headerOffSet m1 = m_headerOffSet m"
    using m1 by (cases "tri_if (tri_not (m_isResponse m))") auto
  moreover have "m_headers m' = m_headers m1 \<and> m_headerOffSet m' = m_headerOffSet m1"
    using * False unfolding SIPMessage_isResponseTo_def if_not_P [OF False] m1 bind.simps Let_def
    by (cases "tri_if (m_isResponse m1)") (auto simp: bind_eq_Some_conv split: if_splits)
  ultimately show ?thesis by simp
qed (simp add: SIPMessage_isResponseTo_def)

lemma msg_step_wf: "msg_step B m m' \<Longrightarrow> hdr_wf m \<Longrightarrow> hdr_wf m'"
proof (induction rule: msg_step.induct)
  case (9 m r m')
  then show ?case using isRequest_headers [OF 9(1)] hdr_wf_headers [of m' m] by simp
next
  case (10 m r m')
  then show ?case using isResponse_headers [OF 10(1)] hdr_wf_headers [of m' m] by simp
next
  case (11 m p r m')
  then show ?case using isResponseTo_headers [OF 11(1)] hdr_wf_headers [of m' m] by simp
qed (simp_all add: wf_hdrSet wf_hdrSet_index wf_hdrListAppend wf_hdrListPrepend wf_hdrListPopFront
      wf_hdrListRemove wf_hdrRemove wf_parse SIPMessage_copy_def SIPMessage_setData_def SIPMessage_setBody_def
      SIPMessage_setStartLine_def SIPMessage_setProperty_def SIPMessage_clearProperties_def SIPMessage_commitData_def)

lemma msg_reachable_wf: "msg_reachable B m \<Longrightarrow> hdr_wf m"
  by (induction rule: msg_reachable.induct) (simp_all add: SIPMessage_new_def hdr_wf_empty msg_step_wf)

subsection \<open>What is written\<close>

lemma fold_offsets:
  "distinct (map fst acc @ map (headerOffSet \<circ> snd) hs) \<Longrightarrow>
   fold (\<lambda>(k, t) acc. AList.update (headerOffSet t) t acc) hs acc =
     acc @ map (\<lambda>(k, t). (headerOffSet t, t)) hs"
proof (induction hs arbitrary: acc)
  case (Cons p hs)
  obtain k t where p: "p = (k, t)" by (cases p)
  have "map_of acc (headerOffSet t) = None" using Cons.prems p by (simp add: map_of_eq_None_iff)
  then show ?case using Cons.prems p by (simp add: update_new Cons.IH)
qed simp

lemma sort_key_pairs: "map snd (sort_key fst (map (\<lambda>(k, t). (f t, t)) hs)) = sort_key f (map snd hs)"
  if "distinct (map (f \<circ> snd) hs)"
proof -
  let ?ps = "map (\<lambda>(k, t). (f t, t)) hs"
  have m: "mset (map snd (sort_key fst ?ps)) = mset (map snd hs)"
    unfolding mset_map mset_sort by (simp add: multiset.map_comp comp_def case_prod_beta)
  have "\<forall>p \<in> set (sort_key fst ?ps). fst p = f (snd p)" by auto
  then have "map f (map snd (sort_key fst ?ps)) = map fst (sort_key fst ?ps)" by simp
  then have s: "sorted (map f (map snd (sort_key fst ?ps)))" by (simp only: sorted_sort_key)
  have "inj_on f (set (map snd hs))" using that by (simp add: distinct_map comp_inj_on_iff inj_on_def comp_def) blast
  then show ?thesis using sort_key_inj_key_eq [OF m [symmetric] _ s] by simp
qed

lemma sorted_headers_wf:
  assumes "hdr_wf m"
  shows "sorted_headers (m_headers m) = sort_key headerOffSet (map snd (m_headers m))"
proof -
  let ?hs = "sort_key fst (m_headers m)"
  have d: "distinct (map (headerOffSet \<circ> snd) (m_headers m))" using assms by (simp add: hdr_wf_def)
  have "mset (map (headerOffSet \<circ> snd) ?hs) = mset (map (headerOffSet \<circ> snd) (m_headers m))" by simp
  then have d': "distinct (map (headerOffSet \<circ> snd) ?hs)" using d by (metis mset_eq_imp_distinct_iff)
  have "sorted_headers (m_headers m) = sort_key headerOffSet (map snd ?hs)"
    using d' by (simp add: sorted_headers_def fold_offsets sort_key_pairs)
  also have "\<dots> = sort_key headerOffSet (map snd (m_headers m))"
  proof (rule sort_key_inj_key_eq)
    show "mset (map snd ?hs) = mset (sort_key headerOffSet (map snd (m_headers m)))" by simp
    show "inj_on headerOffSet (set (map snd ?hs))" using d by (simp add: distinct_map inj_on_def) blast
  qed simp
  finally show ?thesis .
qed

subsection \<open>The library functions\<close>

text \<open>The documented behaviour of \<open>boost::to_lower\<close>, \<open>boost::to_upper\<close>, \<open>boost::trim\<close>
  (in the classic locale) and of \<open>boost::tokenizer\<close> with a \<open>char_separator\<close>, which drops
  empty tokens.\<close>

definition ascii_upper :: "char \<Rightarrow> char" where
  "ascii_upper c = (if 97 \<le> (of_char c :: nat) \<and> (of_char c :: nat) \<le> 122 then char_of (of_char c - 32 :: nat) else c)"

fun char_fields :: "string \<Rightarrow> string \<Rightarrow> string list" where
  "char_fields seps [] = [[]]"
| "char_fields seps (c # s) =
     (if c \<in> set seps then [] # char_fields seps s
      else (c # hd (char_fields seps s)) # tl (char_fields seps s))"

definition boost_ok :: "boost_fns \<Rightarrow> bool" where
  "boost_ok B =
     (to_lower B = map ascii_lower \<and> to_upper B = map ascii_upper \<and> trim B = string_trim \<and>
      tokenizer B = (\<lambda>seps s. filter (\<lambda>t. t \<noteq> []) (char_fields seps s)))"

definition boost_model :: boost_fns where
  "boost_model = \<lparr>to_lower = map ascii_lower, to_upper = map ascii_upper, trim = string_trim,
     tokenizer = (\<lambda>seps s. filter (\<lambda>t. t \<noteq> []) (char_fields seps s))\<rparr>"

lemma boost_model_ok: "boost_ok boost_model"
  by (simp add: boost_ok_def boost_model_def)

lemma to_lower_model [simp]: "to_lower boost_model = map ascii_lower"
  by (simp add: boost_model_def)

lemma trim_model [simp]: "trim boost_model = string_trim"
  by (simp add: boost_model_def)

subsection \<open>Properties\<close>

lemma bottom_vals: "hdr_ok m \<Longrightarrow> SIPMessage_hdrListBottom B m h =
  (if hdr_vals m (to_lower B h) = [] then [] else last (hdr_vals m (to_lower B h)))"
  unfolding SIPMessage_hdrListBottom_def Let_def
  by (simp add: hdrPresent_vals hdrGet_vals last_conv_nth)

text \<open>C19: on a parsed message with a well-formed header map every operation on headers implements the
  operation of its name on a map from lower-case names to lists of values: it changes the list of its
  own name only, and keeps the message well-formed. The value to be stored is not empty.\<close>

theorem header_operations_refine:
  assumes "hdr_ok m" "v \<noteq> []" "k = to_lower B h"
  shows "SIPMessage_hdrPresent B m h = length (hdr_vals m k) \<and>
    SIPMessage_hdrGet B m h i = (if i < length (hdr_vals m k) then hdr_vals m k ! i else []) \<and>
    SIPMessage_hdrListBottom B m h = (if hdr_vals m k = [] then [] else last (hdr_vals m k)) \<and>
    (case SIPMessage_hdrSet B m h v of (r, m') \<Rightarrow>
      r \<and> hdr_ok m' \<and> hdr_vals m' = (hdr_vals m)(k := v # tl (hdr_vals m k))) \<and>
    (case SIPMessage_hdrListAppend B m h v of (r, m') \<Rightarrow>
      r \<and> hdr_ok m' \<and> hdr_vals m' = (hdr_vals m)(k := hdr_vals m k @ [v])) \<and>
    (case SIPMessage_hdrListPrepend B m h v of (r, m') \<Rightarrow>
      r \<and> hdr_ok m' \<and> hdr_vals m' = (hdr_vals m)(k := v # hdr_vals m k)) \<and>
    (case SIPMessage_hdrListPopFront B m h of (front, m') \<Rightarrow>
      front = (case hdr_vals m k of [] \<Rightarrow> [] | x # _ \<Rightarrow> x) \<and> hdr_ok m' \<and>
      hdr_vals m' = (hdr_vals m)(k := tl (hdr_vals m k))) \<and>
    (case SIPMessage_hdrListRemove B m h of (r, m') \<Rightarrow>
      r = (hdr_vals m k \<noteq> []) \<and> hdr_ok m' \<and> hdr_vals m' = (hdr_vals m)(k := [])) \<and>
    (case SIPMessage_hdrRemove B m h of (r, m') \<Rightarrow>
      r = (length (hdr_vals m k) = 1) \<and> hdr_ok m' \<and>
      hdr_vals m' = (if length (hdr_vals m k) = 1 then (hdr_vals m)(k := []) else hdr_vals m))"
  unfolding assms(3) case_prod_beta
  by (simp only: hdrPresent_vals [OF assms(1)] hdrGet_vals [OF assms(1)] bottom_vals [OF assms(1)]
      set_vals [OF assms(1,2)] append_vals [OF assms(1,2)] prepend_vals [OF assms(1,2)] pop_vals [OF assms(1)]
      remove_vals [OF assms(1)] remove_one_vals [OF assms(1)] simp_thms)

lemma lower_names [simp]:
  "map ascii_lower ''Via'' = ''via''" "map ascii_lower ''From'' = ''from''" "map ascii_lower ''To'' = ''to''"
  "map ascii_lower ''Call-ID'' = ''call-id''" "map ascii_lower ''CSeq'' = ''cseq''"
  "map ascii_lower ''Contact'' = ''contact''" "map ascii_lower ''Record-Route'' = ''record-route''"
  "map ascii_lower ''Content-Length'' = ''content-length''"
  by code_simp+

lemma ok_one_header:
  "hdr_ok (new_header k n v SIPMessage_new)" "hdr_vals (new_header k n v SIPMessage_new) k = [v]"
  by (simp_all add: hdr_ok_def hdr_wf_new SIPMessage_new_def hdr_wf_empty)

theorem header_operations_refine_witness:
  "\<exists>m. hdr_ok m \<and> hdr_vals m ''via'' = [''a''] \<and> SIPMessage_hdrListBottom boost_model m ''Via'' = ''a'' \<and>
     hdr_vals (snd (SIPMessage_hdrListPrepend boost_model m ''Via'' ''b'')) ''via'' = [''b'', ''a'']"
proof -
  let ?m = "new_header ''via'' ''Via'' ''a'' SIPMessage_new"
  have k: "''via'' = to_lower boost_model ''Via''" by code_simp
  show ?thesis
    using header_operations_refine [OF ok_one_header(1) [of "''via''" "''Via''" "''a''"] _ k, of "''b''" 0]
      ok_one_header [of "''via''" "''Via''" "''a''"]
    by (intro exI [of _ ?m]) (simp add: case_prod_beta)
qed

text \<open>C18: a message that came about by parsing and by any sequence of changes, where a value is set by index
  only at the index 0 or one that exists (\<open>msg_step\<close>), has one entry per name in its header map, and
  \<open>commitData\<close> writes every entry once, in the order in which the names were first added.\<close>

theorem commit_writes_every_header:
  assumes "msg_reachable B m"
  shows "hdr_wf m \<and> distinct (map headerOffSet (sorted_headers (m_headers m))) \<and>
    mset (sorted_headers (m_headers m)) = mset (map snd (m_headers m)) \<and>
    m_data (SIPMessage_commitData m) = m_startLine m @ CRLF @
      concat (map header_text (sort_key headerOffSet (map snd (m_headers m)))) @ CRLF @ m_body m"
proof -
  have wf: "hdr_wf m" by (rule msg_reachable_wf [OF assms])
  have "mset (map headerOffSet (sorted_headers (m_headers m))) = mset (map (headerOffSet \<circ> snd) (m_headers m))"
    by (simp add: sorted_headers_wf [OF wf] flip: map_map)
  then have "distinct (map headerOffSet (sorted_headers (m_headers m)))"
    using wf unfolding hdr_wf_def by (metis mset_eq_imp_distinct_iff)
  then show ?thesis using wf by (simp add: sorted_headers_wf SIPMessage_commitData_def)
qed

lemma reach_two_headers:
  "msg_reachable B (snd (SIPMessage_hdrListAppend B (snd (SIPMessage_hdrSet B SIPMessage_new ''b'' ''1'')) ''a'' ''2''))"
  by (rule msg_more [OF msg_more [OF msg_init msg_step.intros(12)] msg_step.intros(15)])

theorem commit_writes_every_header_witness:
  "m_data (SIPMessage_commitData (snd (SIPMessage_hdrListAppend boost_model
     (snd (SIPMessage_hdrSet boost_model SIPMessage_new ''b'' ''1'')) ''a'' ''2''))) =
     CRLF @ ''b: 1'' @ CRLF @ ''a: 2'' @ CRLF @ CRLF"
proof -
  have "ascii_lower CHR ''a'' = CHR ''a''" "ascii_lower CHR ''b'' = CHR ''b''" by code_simp+
  then show ?thesis
    using commit_writes_every_header [OF reach_two_headers [of boost_model]]
    by (simp add: SIPMessage_hdrListAppend_def SIPMessage_hdrSet_def SIPMessage_new_def new_header_def header_text_def
        Let_def)
qed

text \<open>Replacing a value at an index of a header that does not exist fails, but leaves an entry
  without name or offset behind. Values that are added to two such headers later are written without
  their name, and only one of the two headers is written at all.\<close>

theorem failed_set_loses_headers:
  "(let m = snd (SIPMessage_hdrSet_index boost_model SIPMessage_new ''x'' ''1'' 1);
        m = snd (SIPMessage_hdrSet_index boost_model m ''y'' ''1'' 1);
        (rx, m) = SIPMessage_hdrListAppend boost_model m ''x'' ''2'';
        (ry, m) = SIPMessage_hdrListAppend boost_model m ''y'' ''3''
    in rx \<and> ry \<and> hdr_vals m ''x'' = [''2''] \<and> hdr_vals m ''y'' = [''3''] \<and>
       m_data (SIPMessage_commitData m) = CRLF @ '': 3'' @ CRLF @ CRLF)"
proof -
  have "ascii_lower CHR ''x'' = CHR ''x''" "ascii_lower CHR ''y'' = CHR ''y''" by code_simp+
  then show ?thesis
    by (simp add: SIPMessage_hdrSet_index_def SIPMessage_hdrListAppend_def SIPMessage_new_def SIPHeaderTokens_empty_def
        hdr_vals_def SIPMessage_commitData_def sorted_headers_def header_text_def Let_def)
qed

end
