(* ===== verification/SIP_MessageText.thy ===== *)
theory SIP_MessageText
  imports SIP_Message
begin

text \<open>
  The text of a message: what \<open>SIPMessage::parse\<close> makes of a start line, header lines and a body,
  and that it reads back what \<open>commitData\<close> writes.
\<close>

section \<open>Finding the end of the headers\<close>

definition plain_line :: "string \<Rightarrow> bool" where
  "plain_line l = (l \<noteq> [] \<and> CHR 0x0D \<notin> set l \<and> CHR 0x0A \<notin> set l \<and> \<not> isspace (hd l))"

fun join_lines :: "string \<Rightarrow> string list \<Rightarrow> string" where
  "join_lines sl [] = sl"
| "join_lines sl (l # ls) = sl @ CRLF @ join_lines l ls"

lemma find_skip:
  assumes "CHR 0x0D \<notin> set l"
  shows "string_find (l @ s) CRLFCRLF = map_option ((+) (length l)) (string_find s CRLFCRLF)"
  using assms by (induction l; cases "string_find s CRLFCRLF") auto

lemma find_separator:
  "c \<noteq> CHR 0x0D \<Longrightarrow>
   string_find (CHR 0x0D # CHR 0x0A # c # s) CRLFCRLF = map_option ((+) 2) (string_find (c # s) CRLFCRLF)"
  by (simp add: option.map_comp comp_def)

lemma plain_line_Cons: "plain_line l \<Longrightarrow> \<exists>c r. l = c # r \<and> c \<noteq> CHR 0x0D"
  by (cases l) (auto simp: plain_line_def)

lemma join_lines_Cons: "plain_line l \<Longrightarrow> \<exists>c r. join_lines l ls = c # r \<and> c \<noteq> CHR 0x0D"
  by (cases ls) (auto dest: plain_line_Cons)

lemma find_end_of_headers:
  assumes "plain_line sl" "\<forall>l \<in> set ls. plain_line l"
  shows "string_find (join_lines sl ls @ CRLFCRLF @ b) CRLFCRLF = Some (length (join_lines sl ls))"
  using assms
proof (induction sl ls rule: join_lines.induct)
  case (1 sl)
  have "CHR 0x0D \<notin> set sl" using 1 by (simp add: plain_line_def)
  moreover have "string_find (CRLFCRLF @ b) CRLFCRLF = Some 0" by simp
  ultimately show ?case by (simp add: find_skip del: string_find.simps)
next
  case (2 sl l ls)
  have sl: "CHR 0x0D \<notin> set sl" using 2 by (simp add: plain_line_def)
  obtain c r where c: "join_lines l ls = c # r" "c \<noteq> CHR 0x0D" using join_lines_Cons [of l ls] 2 by auto
  have IH: "string_find (join_lines l ls @ CRLFCRLF @ b) CRLFCRLF = Some (length (join_lines l ls))" using 2 by simp
  show ?case
    using IH c(2) by (simp add: find_skip [OF sl] find_separator c(1) del: string_find.simps)
qed

lemma fields_skip:
  assumes "set l \<inter> set seps = {}"
  shows "char_fields seps (l @ s) = (l @ hd (char_fields seps s)) # tl (char_fields seps s)"
proof -
  have "char_fields seps s \<noteq> []" by (cases s) simp_all
  then show ?thesis using assms by (induction l) auto
qed

lemma fields_lines:
  assumes "plain_line sl" "\<forall>l \<in> set ls. plain_line l"
  shows "filter (\<lambda>t. t \<noteq> []) (char_fields CRLF (join_lines sl ls)) = sl # ls"
  using assms
proof (induction sl ls rule: join_lines.induct)
  case (1 sl)
  have "set sl \<inter> set CRLF = {}" "sl \<noteq> []" using 1 by (auto simp: plain_line_def)
  then show ?case using fields_skip [of sl CRLF "[]"] by simp
next
  case (2 sl l ls)
  have "set sl \<inter> set CRLF = {}" "sl \<noteq> []" using 2 by (auto simp: plain_line_def)
  then show ?case using 2 by (simp add: fields_skip)
qed

lemma header_lines_plain:
  "\<forall>l \<in> set ls. plain_line l \<Longrightarrow> header_lines tr ls prev acc = acc @ ls"
  by (induction ls arbitrary: prev acc) (auto simp: plain_line_def)

section \<open>Parsing\<close>

text \<open>The first character of a start line that the parser does not skip.\<close>

definition start_ok :: "string \<Rightarrow> bool" where
  "start_ok sl = (plain_line sl \<and> \<not> not_start_char (hd sl))"

lemma parse_text:
  assumes B: "boost_ok B" and sl: "start_ok sl" and ls: "\<forall>l \<in> set ls. plain_line l"
    and d: "m_data m = join_lines sl ls @ CRLFCRLF @ b"
  shows "SIPMessage_parse B m =
    (parse_headers B ls (m\<lparr>m_finalized := False, m_startLine := sl, m_body := b, m_badHeaders := [],
       m_headers := [], m_headerOffSet := 0, m_expectedBodyLen := 0, m_isResponse := None,
       m_isRequest := None\<rparr>))\<lparr>m_finalized := True\<rparr>"
proof -
  let ?j = "join_lines sl ls"
  have p: "plain_line sl" and s: "\<not> not_start_char (hd sl)" using sl by (simp_all add: start_ok_def)
  have j: "?j \<noteq> []" "hd ?j = hd sl" using p by (cases ls; auto simp: plain_line_def)+
  have dw: "dropWhile not_start_char (?j @ CRLFCRLF @ b) = ?j @ CRLFCRLF @ b"
    using j s by (cases ?j) simp_all
  have f: "find_boundary (?j @ CRLFCRLF @ b) = Some (length ?j, 4)"
    unfolding find_boundary_def find_end_of_headers [OF p ls] by simp
  have split: "SIPMessage_messageSplit (?j @ CRLFCRLF @ b) [] = Some (?j @ CRLFCRLF @ b, ?j, b)"
    unfolding SIPMessage_messageSplit_def Let_def dw f using j by simp
  have tok: "SIPMessage_headerTokenize B ?j CRLF [] = (True, sl # ls)"
    using j B p ls
    by (simp add: SIPMessage_headerTokenize_def boost_ok_def fields_lines header_lines_plain del: header_lines.simps)
  show ?thesis
    unfolding SIPMessage_parse_def d Let_def using j d
    by (cases m) (simp add: dw split tok del: char_fields.simps append.simps append_assoc)
qed
text \<open>A header line: a name without colon and outer white space, and a value without outer white
  space.\<close>

definition trimmed :: "string \<Rightarrow> bool" where
  "trimmed s = (s \<noteq> [] \<and> \<not> isspace (hd s) \<and> \<not> isspace (last s) \<and> CHR 0x0D \<notin> set s \<and> CHR 0x0A \<notin> set s)"

definition header_line :: "string \<times> string \<Rightarrow> string" where
  "header_line p = fst p @ '': '' @ snd p"

definition header_pair_ok :: "string \<times> string \<Rightarrow> bool" where
  "header_pair_ok p = (trimmed (fst p) \<and> CHR '':'' \<notin> set (fst p) \<and> trimmed (snd p))"

definition header_key :: "boost_fns \<Rightarrow> string \<Rightarrow> string" where
  "header_key B name = to_lower B (hdrGetExpandedForm B name)"

lemma header_line_plain: "header_pair_ok p \<Longrightarrow> plain_line (header_line p)"
  by (auto simp: header_pair_ok_def trimmed_def plain_line_def header_line_def)

lemma header_line_split:
  assumes "boost_ok B" "header_pair_ok p"
  shows "SIPMessage_headerSplit B (header_line p) = Some p"
proof -
  obtain n v where p: "p = (n, v)" by (cases p)
  have ok: "trimmed n" "CHR '':'' \<notin> set n" "trimmed v" using assms p by (simp_all add: header_pair_ok_def)
  have tw: "takeWhile (\<lambda>c. c \<noteq> CHR '':'') (n @ '': '' @ v) = n" using ok(2) by (induction n) auto
  have dw: "dropWhile (\<lambda>c. c \<noteq> CHR '':'') (n @ '': '' @ v) = '': '' @ v" using ok(2) by (induction n) auto
  have "string_trim ('' '' @ v) = string_trim v" by (simp add: string_trim_def isspace_def)
  also have "\<dots> = v" using ok(3) by (intro string_trim_id) (simp_all add: trimmed_def)
  finally have v: "string_trim ('' '' @ v) = v" .
  have n: "string_trim n = n" using ok(1) by (intro string_trim_id) (simp_all add: trimmed_def)
  have "CHR '':'' \<in> set (header_line p)" by (simp add: header_line_def)
  then show ?thesis
    using tw dw n v assms(1) by (simp add: SIPMessage_headerSplit_def header_line_def p boost_ok_def)
qed

lemma add_header_vals:
  "hdr_vals (add_header B n v m) = (hdr_vals m)(header_key B n := hdr_vals m (header_key B n) @ [v])"
  by (rule ext) (simp add: add_header_def header_key_def Let_def hdr_vals_def update_conv' split: option.split)

lemma add_header_fields [simp]:
  "m_badHeaders (add_header B n v m) = m_badHeaders m" "m_startLine (add_header B n v m) = m_startLine m"
  "m_body (add_header B n v m) = m_body m" "m_data (add_header B n v m) = m_data m"
  "m_consumeState (add_header B n v m) = m_consumeState m" "m_idleBuffer (add_header B n v m) = m_idleBuffer m"
  "m_expectedBodyLen (add_header B n v m) = m_expectedBodyLen m" "m_properties (add_header B n v m) = m_properties m"
  by (simp_all add: add_header_def Let_def split: option.split)

lemma parse_headers_fields [simp]:
  "m_startLine (parse_headers B ls m) = m_startLine m" "m_body (parse_headers B ls m) = m_body m"
  "m_data (parse_headers B ls m) = m_data m" "m_consumeState (parse_headers B ls m) = m_consumeState m"
  "m_idleBuffer (parse_headers B ls m) = m_idleBuffer m" "m_properties (parse_headers B ls m) = m_properties m"
  by (induction B ls m rule: parse_headers.induct) (auto split: option.splits)

lemma parse_headers_pairs:
  assumes "boost_ok B" "\<forall>p \<in> set ps. header_pair_ok p"
  shows "parse_headers B (map header_line ps) m = fold (\<lambda>(n, v). add_header B n v) ps m"
  using assms(2) by (induction ps arbitrary: m) (auto simp: header_line_split [OF assms(1)] split: prod.splits)

definition vals_of :: "boost_fns \<Rightarrow> (string \<times> string) list \<Rightarrow> string \<Rightarrow> string list" where
  "vals_of B ps k = map snd (filter (\<lambda>p. header_key B (fst p) = k) ps)"

lemma add_headers_vals:
  "hdr_vals (fold (\<lambda>(n, v). add_header B n v) ps m) k = hdr_vals m k @ vals_of B ps k"
  by (induction ps arbitrary: m) (auto simp: add_header_vals vals_of_def)

lemma add_headers_bad: "m_badHeaders (fold (\<lambda>(n, v). add_header B n v) ps m) = m_badHeaders m"
  by (induction ps arbitrary: m) auto

text \<open>A message text is parsed into its parts: the values of a header are those of the lines with its
  name or the short form of it, in their order.\<close>

lemma parse_message:
  assumes B: "boost_ok B" and sl: "start_ok sl" and ps: "\<forall>p \<in> set ps. header_pair_ok p"
    and d: "m_data m = join_lines sl (map header_line ps) @ CRLFCRLF @ b"
  shows "m_startLine (SIPMessage_parse B m) = sl" "m_body (SIPMessage_parse B m) = b"
    "hdr_vals (SIPMessage_parse B m) = vals_of B ps" "hdr_ok (SIPMessage_parse B m)"
    "m_badHeaders (SIPMessage_parse B m) = []" "m_data (SIPMessage_parse B m) = m_data m"
    "m_consumeState (SIPMessage_parse B m) = m_consumeState m"
proof -
  let ?m = "m\<lparr>m_finalized := False, m_startLine := sl, m_body := b, m_badHeaders := [],
       m_headers := [], m_headerOffSet := 0, m_expectedBodyLen := 0, m_isResponse := None, m_isRequest := None\<rparr>"
  have e: "SIPMessage_parse B m = (parse_headers B (map header_line ps) ?m)\<lparr>m_finalized := True\<rparr>"
    using ps by (intro parse_text [OF B sl _ d]) (auto simp: header_line_plain)
  have h: "hdr_vals (m'\<lparr>m_finalized := True\<rparr>) = hdr_vals m'" for m' by (rule ext) (simp add: hdr_vals_def)
  have h0: "hdr_vals ?m k = []" for k by (simp add: hdr_vals_def)
  have "hdr_wf ?m" by (rule hdr_wf_empty) simp
  then show "hdr_ok (SIPMessage_parse B m)" unfolding e hdr_ok_def by (simp add: wf_parse_headers)
  show "hdr_vals (SIPMessage_parse B m) = vals_of B ps"
    unfolding e h parse_headers_pairs [OF B ps] by (rule ext) (simp only: add_headers_vals h0 append.simps)
  show "m_startLine (SIPMessage_parse B m) = sl" "m_body (SIPMessage_parse B m) = b"
    "m_data (SIPMessage_parse B m) = m_data m" "m_consumeState (SIPMessage_parse B m) = m_consumeState m"
    unfolding e by simp_all
  show "m_badHeaders (SIPMessage_parse B m) = []"
    unfolding e parse_headers_pairs [OF B ps] by (simp add: add_headers_bad)
qed

section \<open>Writing and reading back\<close>

definition header_pairs :: "sip_message \<Rightarrow> (string \<times> string) list" where
  "header_pairs m =
     concat (map (\<lambda>t. map (Pair (rawHeaderName t)) (tok_values t)) (sort_key headerOffSet (map snd (m_headers m))))"

definition msg_text_ok :: "boost_fns \<Rightarrow> sip_message \<Rightarrow> bool" where
  "msg_text_ok B m =
     (hdr_wf m \<and> start_ok (m_startLine m) \<and>
      (\<forall>(k, t) \<in> set (m_headers m). k = header_key B (rawHeaderName t) \<and>
         (\<forall>v \<in> set (tok_values t). header_pair_ok (rawHeaderName t, v))))"

lemma commit_same [simp]:
  "hdr_vals (SIPMessage_commitData m) = hdr_vals m" "m_startLine (SIPMessage_commitData m) = m_startLine m"
  "m_body (SIPMessage_commitData m) = m_body m" "hdr_wf (SIPMessage_commitData m) = hdr_wf m"
  "m_finalized (SIPMessage_commitData m) = m_finalized m"
  by (simp_all add: SIPMessage_commitData_def hdr_vals_def fun_eq_iff)

lemma join_lines_CRLF: "join_lines sl ls @ CRLF = sl @ CRLF @ concat (map (\<lambda>l. l @ CRLF) ls)"
  by (induction sl ls rule: join_lines.induct) simp_all

lemma header_text_lines:
  "\<forall>v \<in> set (tok_values t). v \<noteq> [] \<Longrightarrow>
   header_text t = concat (map (\<lambda>l. l @ CRLF) (map header_line (map (Pair (rawHeaderName t)) (tok_values t))))"
  unfolding header_text_def by (rule arg_cong [of _ _ concat]) (simp add: header_line_def)

lemma lines_of_tokens:
  "concat (map f (map header_line (concat (map (\<lambda>t. map (Pair (rawHeaderName t)) (tok_values t)) ts)))) =
   concat (map (\<lambda>t. concat (map f (map header_line (map (Pair (rawHeaderName t)) (tok_values t))))) ts)"
  by (induction ts) simp_all

lemma vals_of_tokens:
  "vals_of B (concat (map (\<lambda>t. map (Pair (rawHeaderName t)) (tok_values t)) ts)) k =
   concat (map (\<lambda>t. if header_key B (rawHeaderName t) = k then tok_values t else []) ts)"
  by (induction ts) (simp_all add: vals_of_def filter_map comp_def)

lemma commit_text:
  assumes "msg_text_ok B m"
  shows "m_data (SIPMessage_commitData m) =
    join_lines (m_startLine m) (map header_line (header_pairs m)) @ CRLFCRLF @ m_body m"
proof -
  have wf: "hdr_wf m" using assms by (simp add: msg_text_ok_def)
  let ?ts = "sort_key headerOffSet (map snd (m_headers m))"
  have "\<forall>t \<in> set ?ts. \<forall>v \<in> set (tok_values t). v \<noteq> []"
    using assms by (fastforce simp: msg_text_ok_def header_pair_ok_def trimmed_def)
  then have "map header_text ?ts =
      map (\<lambda>t. concat (map (\<lambda>l. l @ CRLF) (map header_line (map (Pair (rawHeaderName t)) (tok_values t))))) ?ts"
    by (intro map_cong refl header_text_lines) blast
  moreover have "concat (map (\<lambda>l. l @ CRLF) (map header_line (header_pairs m))) =
      concat (map (\<lambda>t. concat (map (\<lambda>l. l @ CRLF) (map header_line (map (Pair (rawHeaderName t)) (tok_values t))))) ?ts)"
    unfolding header_pairs_def by (rule lines_of_tokens)
  ultimately have "concat (map header_text ?ts) = concat (map (\<lambda>l. l @ CRLF) (map header_line (header_pairs m)))"
    by (simp only:)
  then show ?thesis
    using join_lines_CRLF [of "m_startLine m" "map header_line (header_pairs m)"]
    by (simp add: SIPMessage_commitData_def sorted_headers_wf [OF wf])
qed

lemma concat_unselected: "\<forall>u \<in> set ts. f u \<noteq> k \<Longrightarrow> concat (map (\<lambda>u. if f u = k then g u else []) ts) = []"
  by (induction ts) simp_all

lemma concat_selected:
  assumes "distinct (map f ts)" "t \<in> set ts"
  shows "concat (map (\<lambda>u. if f u = f t then g u else []) ts) = g t"
proof -
  obtain xs ys where ts: "ts = xs @ t # ys" using assms(2) by (meson split_list)
  then have "\<forall>u \<in> set xs \<union> set ys. f u \<noteq> f t" using assms(1) by (force dest: sym)
  then show ?thesis using ts by (simp add: concat_unselected)
qed

lemma header_pairs_vals:
  assumes ok: "msg_text_ok B m"
  shows "vals_of B (header_pairs m) = hdr_vals m"
proof
  fix k
  let ?ts = "sort_key headerOffSet (map snd (m_headers m))" and ?f = "\<lambda>t. header_key B (rawHeaderName t)"
  have keys: "\<forall>(k, t) \<in> set (m_headers m). k = ?f t" and wf: "hdr_wf m" using ok by (auto simp: msg_text_ok_def)
  have "map (?f \<circ> snd) (m_headers m) = map fst (m_headers m)" using keys by (intro map_cong) auto
  then have "mset (map ?f (map snd (m_headers m))) = mset (map fst (m_headers m))" by (simp only: map_map)
  then have "mset (map ?f ?ts) = mset (map fst (m_headers m))" by (simp only: mset_map mset_sort)
  then have d: "distinct (map ?f ?ts)" using wf unfolding hdr_wf_def by (metis mset_eq_imp_distinct_iff)
  have v: "vals_of B (header_pairs m) k = concat (map (\<lambda>u. if ?f u = k then tok_values u else []) ?ts)"
    unfolding header_pairs_def by (rule vals_of_tokens)
  show "vals_of B (header_pairs m) k = hdr_vals m k"
  proof (cases "map_of (m_headers m) k")
    case None
    then have "\<forall>t \<in> set ?ts. ?f t \<noteq> k" using keys by (force simp: map_of_eq_None_iff)
    then have "vals_of B (header_pairs m) k = []" unfolding v by (rule concat_unselected)
    then show ?thesis using None by (simp add: vals_None)
  next
    case (Some t)
    then have "(k, t) \<in> set (m_headers m)" by (rule map_of_SomeD)
    then have t: "t \<in> set ?ts" "k = ?f t" using keys by force+
    have "vals_of B (header_pairs m) k = tok_values t"
      unfolding v using concat_selected [OF d t(1), of tok_values] t(2) by simp
    then show ?thesis using vals_Some [OF Some] by simp
  qed
qed

lemma header_pairs_ok: "msg_text_ok B m \<Longrightarrow> \<forall>p \<in> set (header_pairs m). header_pair_ok p"
  by (auto simp: msg_text_ok_def header_pairs_def)

text \<open>C17: \<open>parse\<close> reads back what \<open>commitData\<close> writes: the start line, the values of every
  header and the body. The start line and the header names and values have no line breaks and no outer
  white space, and each header is stored under its lower-case, long name.\<close>

theorem commit_parse_roundtrip:
  assumes B: "boost_ok B" and ok: "msg_text_ok B m"
  shows "(let m' = SIPMessage_parse B (SIPMessage_commitData m) in
     m_startLine m' = m_startLine m \<and> hdr_vals m' = hdr_vals m \<and> m_body m' = m_body m \<and>
     m_badHeaders m' = [] \<and> hdr_ok m')"
proof -
  have "start_ok (m_startLine m)" using ok by (simp add: msg_text_ok_def)
  note parse_message [OF B this header_pairs_ok [OF ok] commit_text [OF ok]]
  then show ?thesis by (simp add: Let_def header_pairs_vals [OF ok])
qed

text \<open>A message with a start line, two values of one header and a body, for the witnesses.\<close>

definition sample_message :: sip_message where
  "sample_message = SIPMessage_new\<lparr>m_startLine := ''OPTIONS sip:a SIP/2.0'', m_body := ''x'', m_headerOffSet := 1,
     m_headers := [(''via'', \<lparr>tok_values = [''1'', ''2''], rawHeaderName = ''v'', headerOffSet = 0\<rparr>)]\<rparr>"

lemma sample_message_ok: "msg_text_ok boost_model sample_message"
proof -
  have "start_ok ''OPTIONS sip:a SIP/2.0''" "header_key boost_model ''v'' = ''via''"
    "header_pair_ok (''v'', ''1'')" "header_pair_ok (''v'', ''2'')"
    by code_simp+
  then show ?thesis by (simp add: msg_text_ok_def sample_message_def hdr_wf_def)
qed

theorem commit_parse_roundtrip_witness:
  "hdr_vals (SIPMessage_parse boost_model (SIPMessage_commitData sample_message)) ''via'' = [''1'', ''2'']"
  using commit_parse_roundtrip [OF boost_model_ok sample_message_ok]
  by (simp add: Let_def) (simp add: hdr_vals_def sample_message_def)

end
