(* ===== verification/SIP_Consume.thy ===== *)
theory SIP_Consume
  imports SIP_MessageText
begin

text \<open>
  Reading a message from a stream, one character after the other: \<open>SIPMessage::consumeOne\<close> and
  \<open>SIPMessage::consume\<close>. The result is a \<open>tribool\<close>: true when the message is complete, false
  for a syntax error, indeterminate when more characters are needed.
\<close>

section \<open>Definitions\<close>

text \<open>\<open>atoi\<close>; the behaviour is undefined (\<^const>\<open>None\<close>) when the value is not an \<open>int\<close>.\<close>

definition decimal :: "string \<Rightarrow> nat" where
  "decimal s = foldl (\<lambda>n c. 10 * n + (of_char c - 48)) 0 s"

definition atoi :: "string \<Rightarrow> int option" where
  "atoi s =
     (let s = dropWhile isspace s;
          (neg, s) = (case s of c # r \<Rightarrow> if c = CHR ''-'' then (True, r) else if c = CHR ''+'' then (False, r) else (False, s)
                      | [] \<Rightarrow> (False, []));
          n = int (decimal (takeWhile is_digit s));
          v = (if neg then - n else n)
      in if - (2 ^ 31) \<le> v \<and> v < 2 ^ 31 then Some v else None)"

text \<open>Assigning an \<open>int\<close> to a \<open>size_t\<close>.\<close>

definition size_of_int :: "int \<Rightarrow> nat" where
  "size_of_int i = nat (i mod 2 ^ 64)"

definition plain_char :: "char \<Rightarrow> bool" where
  "plain_char c = (SIPParser_isChar (schar c) \<and> \<not> SIPParser_isCtl (schar c))"

definition push_data :: "char \<Rightarrow> consume_state \<Rightarrow> sip_message \<Rightarrow> (bool option \<times> sip_message) option" where
  "push_data input st m = Some (None, m\<lparr>m_data := m_data m @ [input], m_consumeState := st\<rparr>)"

definition end_of_headers :: "boost_fns \<Rightarrow> sip_message \<Rightarrow> (bool option \<times> sip_message) option" where
  "end_of_headers B m =
     (let m = SIPMessage_parse B m; clen = SIPMessage_hdrGet B m ''Content-Length'' 0 in
      if clen \<noteq> [] then do {
        n \<leftarrow> atoi clen;
        let m = m\<lparr>m_expectedBodyLen := size_of_int n\<rparr>;
        if m_expectedBodyLen m > 0
        then Some (None, m\<lparr>m_consumeState := EXPECTING_BODY, m_finalized := False\<rparr>)
        else Some (Some (m_finalized m), m)
      }
      else Some (Some (m_finalized m), m))"

definition SIPMessage_consumeOne :: "boost_fns \<Rightarrow> sip_message \<Rightarrow> char \<Rightarrow> (bool option \<times> sip_message) option" where
  "SIPMessage_consumeOne B m input =
     (if m_consumeState m = IDLE \<and> not_start_char input
      then Some (None, m\<lparr>m_idleBuffer := m_idleBuffer m @ [input]\<rparr>)
      else let m = (if m_consumeState m = IDLE then m\<lparr>m_data := [], m_consumeState := START_LINE_PARSE\<rparr> else m) in
        case m_consumeState m of
          START_LINE_PARSE \<Rightarrow>
            if input = CHR 0x0D then push_data input EXPECTING_NEW_LINE_1 m
            else if \<not> plain_char input then Some (Some False, m)
            else push_data input START_LINE_PARSE m
        | EXPECTING_NEW_LINE_1 \<Rightarrow>
            if input = CHR 0x0A then push_data input HEADER_LINE_START m else Some (Some False, m)
        | HEADER_LINE_START \<Rightarrow>
            if input = CHR 0x0D then push_data input EXPECTING_NEW_LINE_3 m
            else if input = CHR '' '' \<or> input = CHR 0x09 then push_data input HEADER_LWS m
            else if \<not> plain_char input then Some (Some False, m)
            else push_data input HEADER_NAME m
        | HEADER_LWS \<Rightarrow>
            if input = CHR 0x0D then push_data input EXPECTING_NEW_LINE_2 m
            else if input = CHR '' '' \<or> input = CHR 0x09 then push_data input HEADER_LWS m
            else if SIPParser_isCtl (schar input) then Some (Some False, m)
            else push_data input HEADER_VALUE m
        | HEADER_NAME \<Rightarrow>
            if input = CHR '':'' then push_data input HEADER_VALUE m
            else if \<not> plain_char input then Some (Some False, m)
            else push_data input HEADER_NAME m
        | HEADER_VALUE \<Rightarrow>
            if input = CHR 0x0D then push_data input EXPECTING_NEW_LINE_2 m
            else if \<not> plain_char input then Some (Some False, m)
            else push_data input HEADER_VALUE m
        | EXPECTING_NEW_LINE_2 \<Rightarrow>
            if input = CHR 0x0A then push_data input HEADER_LINE_START m else Some (Some False, m)
        | EXPECTING_NEW_LINE_3 \<Rightarrow>
            let m = m\<lparr>m_data := m_data m @ [input]\<rparr> in
            if input = CHR 0x0A then end_of_headers B m else Some (Some False, m)
        | EXPECTING_BODY \<Rightarrow>
            let m = m\<lparr>m_body := m_body m @ [input]\<rparr> in
            if length (m_body m) < m_expectedBodyLen m then Some (None, m)
            else Some (Some True, (SIPMessage_commitData m)\<lparr>m_finalized := True\<rparr>)
        | IDLE \<Rightarrow> Some (Some False, m))"

text \<open>\<open>consume(begin, end)\<close>: the result, the characters left over, the message.\<close>

fun consume_loop :: "boost_fns \<Rightarrow> sip_message \<Rightarrow> string \<Rightarrow> (bool option \<times> string \<times> sip_message) option" where
  "consume_loop B m [] = Some (None, [], m)"
| "consume_loop B m (input # rest) = do {
     (result, m) \<leftarrow> SIPMessage_consumeOne B m input;
     if result \<noteq> None then Some (result, rest, m) else consume_loop B m rest
   }"

definition SIPMessage_consume :: "boost_fns \<Rightarrow> sip_message \<Rightarrow> string \<Rightarrow> (bool option \<times> string \<times> sip_message) option" where
  "SIPMessage_consume B m bytes = consume_loop B (m\<lparr>m_finalized := False\<rparr>) bytes"

text \<open>\<open>read(strm, totalRead)\<close> on a stream of which \<open>avail\<close> is what can be read now: result,
  \<open>totalRead\<close>, what is left in the stream, the message. A chunk has at most 1024 characters.\<close>

function SIPMessage_read :: "boost_fns \<Rightarrow> sip_message \<Rightarrow> string \<Rightarrow> nat \<Rightarrow> (bool \<times> nat \<times> string \<times> sip_message) option" where
  "SIPMessage_read B m avail totalRead =
     (if avail = [] then Some (False, totalRead, [], m)
      else let buff = take 1024 avail; more = drop 1024 avail; totalRead = totalRead + length buff in
        case SIPMessage_consume B m buff of
          None \<Rightarrow> None
        | Some (Some True, left, m) \<Rightarrow>
            if left \<noteq> [] then Some (True, totalRead - (length buff - length left), left @ more, m)
            else Some (True, totalRead, more, m)
        | Some (Some False, left, m) \<Rightarrow> Some (False, 0, more, m)
        | Some (None, left, m) \<Rightarrow> SIPMessage_read B m more totalRead)"
  by pat_completeness auto
termination by (relation "measure (\<lambda>(B, m, avail, n). length avail)") (auto simp: Let_def)

declare SIPMessage_read.simps [simp del]

section \<open>Chunks\<close>

lemma push_unfinished: "push_data c st m = Some (None, m') \<Longrightarrow> m_finalized m' = m_finalized m"
  by (auto simp: push_data_def)

lemma end_unfinished: "end_of_headers B m = Some (None, m') \<Longrightarrow> \<not> m_finalized m'"
  by (auto simp: end_of_headers_def Let_def bind_eq_Some_conv split: if_splits)

lemma consumeOne_unfinished:
  assumes "SIPMessage_consumeOne B m c = Some (None, m')" "\<not> m_finalized m"
  shows "\<not> m_finalized m'"
  using assms unfolding SIPMessage_consumeOne_def
  by (cases "m_consumeState m")
    (auto simp: Let_def dest!: push_unfinished end_unfinished split: if_split_asm)

lemma consume_loop_chunks:
  assumes "consume_loop B m xs = Some (None, l, m1)" "\<not> m_finalized m"
  shows "l = [] \<and> \<not> m_finalized m1 \<and> consume_loop B m (xs @ ys) = consume_loop B m1 ys"
  using assms
proof (induction xs arbitrary: m)
  case (Cons c xs)
  obtain m2 where m2: "SIPMessage_consumeOne B m c = Some (None, m2)" "consume_loop B m2 xs = Some (None, l, m1)"
    using Cons.prems(1) by (auto simp: bind_eq_Some_conv split: if_splits)
  have "\<not> m_finalized m2" using m2(1) Cons.prems(2) by (rule consumeOne_unfinished)
  from Cons.IH [OF m2(2) this] show ?case using m2(1) by simp
qed auto
lemma unfinished_id: "\<not> m_finalized m \<Longrightarrow> m\<lparr>m_finalized := False\<rparr> = m"
  by (cases m) simp

section \<open>Framing\<close>

text \<open>What is sent for a message: characters outside the control and eight-bit ranges.\<close>

definition wire_ok :: "string \<Rightarrow> (string \<times> string) list \<Rightarrow> bool" where
  "wire_ok sl ps =
     (start_ok sl \<and> list_all plain_char sl \<and>
      (\<forall>p \<in> set ps. header_pair_ok p \<and> list_all plain_char (fst p) \<and> list_all plain_char (snd p)))"

definition header_bytes :: "string \<Rightarrow> (string \<times> string) list \<Rightarrow> string" where
  "header_bytes sl ps = join_lines sl (map header_line ps) @ CRLFCRLF"

lemma plain_char_cases: "plain_char c \<Longrightarrow> c \<noteq> CHR 0x0D \<and> c \<noteq> CHR 0x0A \<and> c \<noteq> CHR 0x09"
  by (auto simp: plain_char_def SIPParser_isCtl_def schar_def)

lemma consumeOne_state:
  "m_consumeState m = START_LINE_PARSE \<Longrightarrow> plain_char c \<Longrightarrow>
     SIPMessage_consumeOne B m c = push_data c START_LINE_PARSE m"
  "m_consumeState m = START_LINE_PARSE \<Longrightarrow>
     SIPMessage_consumeOne B m (CHR 0x0D) = push_data (CHR 0x0D) EXPECTING_NEW_LINE_1 m"
  "m_consumeState m = EXPECTING_NEW_LINE_1 \<Longrightarrow>
     SIPMessage_consumeOne B m (CHR 0x0A) = push_data (CHR 0x0A) HEADER_LINE_START m"
  "m_consumeState m = HEADER_LINE_START \<Longrightarrow> plain_char c \<Longrightarrow> c \<noteq> CHR '' '' \<Longrightarrow>
     SIPMessage_consumeOne B m c = push_data c HEADER_NAME m"
  "m_consumeState m = HEADER_LINE_START \<Longrightarrow>
     SIPMessage_consumeOne B m (CHR 0x0D) = push_data (CHR 0x0D) EXPECTING_NEW_LINE_3 m"
  "m_consumeState m = HEADER_NAME \<Longrightarrow> plain_char c \<Longrightarrow> c \<noteq> CHR '':'' \<Longrightarrow>
     SIPMessage_consumeOne B m c = push_data c HEADER_NAME m"
  "m_consumeState m = HEADER_NAME \<Longrightarrow>
     SIPMessage_consumeOne B m (CHR '':'') = push_data (CHR '':'') HEADER_VALUE m"
  "m_consumeState m = HEADER_VALUE \<Longrightarrow> plain_char c \<Longrightarrow>
     SIPMessage_consumeOne B m c = push_data c HEADER_VALUE m"
  "m_consumeState m = HEADER_VALUE \<Longrightarrow>
     SIPMessage_consumeOne B m (CHR 0x0D) = push_data (CHR 0x0D) EXPECTING_NEW_LINE_2 m"
  "m_consumeState m = EXPECTING_NEW_LINE_2 \<Longrightarrow>
     SIPMessage_consumeOne B m (CHR 0x0A) = push_data (CHR 0x0A) HEADER_LINE_START m"
  "m_consumeState m = EXPECTING_NEW_LINE_3 \<Longrightarrow>
     SIPMessage_consumeOne B m (CHR 0x0A) = end_of_headers B (m\<lparr>m_data := m_data m @ [CHR 0x0A]\<rparr>)"
  by (auto simp: SIPMessage_consumeOne_def dest: plain_char_cases)

text \<open>The characters \<open>s\<close> take the message from one state to the next and are kept in its data.\<close>

definition takes :: "boost_fns \<Rightarrow> consume_state \<Rightarrow> string \<Rightarrow> consume_state \<Rightarrow> bool" where
  "takes B st s st' =
     (\<forall>m ys. m_consumeState m = st \<longrightarrow>
        consume_loop B m (s @ ys) = consume_loop B (m\<lparr>m_data := m_data m @ s, m_consumeState := st'\<rparr>) ys)"

lemma takes_Nil: "takes B st [] st"
  by (auto simp: takes_def)

lemma takes_Cons:
  assumes "\<And>m. m_consumeState m = st \<Longrightarrow> SIPMessage_consumeOne B m c = push_data c st' m" "takes B st' s st''"
  shows "takes B st (c # s) st''"
  unfolding takes_def
proof (intro allI impI)
  fix m :: sip_message and ys
  assume "m_consumeState m = st"
  then show "consume_loop B m ((c # s) @ ys) =
      consume_loop B (m\<lparr>m_data := m_data m @ c # s, m_consumeState := st''\<rparr>) ys"
    using assms(2) by (simp add: assms(1) push_data_def takes_def)
qed

lemma takes_append: "takes B st s st' \<Longrightarrow> takes B st' t st'' \<Longrightarrow> takes B st (s @ t) st''"
  by (simp add: takes_def)

lemma takes_run:
  assumes "\<And>m c. m_consumeState m = st \<Longrightarrow> c \<in> set s \<Longrightarrow> SIPMessage_consumeOne B m c = push_data c st m"
  shows "takes B st s st"
  using assms
proof (induction s)
  case (Cons c s)
  then show ?case by (intro takes_Cons [of st B c st]) simp_all
qed (rule takes_Nil)

lemma takes_start_line: "list_all plain_char s \<Longrightarrow> takes B START_LINE_PARSE (s @ CRLF) HEADER_LINE_START"
proof (rule takes_append [of _ _ _ START_LINE_PARSE])
  show "list_all plain_char s \<Longrightarrow> takes B START_LINE_PARSE s START_LINE_PARSE"
    by (rule takes_run) (simp add: consumeOne_state list_all_iff)
  show "takes B START_LINE_PARSE CRLF HEADER_LINE_START"
    by (intro takes_Cons [of _ _ _ EXPECTING_NEW_LINE_1] takes_Cons [of EXPECTING_NEW_LINE_1 _ _ HEADER_LINE_START] takes_Nil)
      (simp_all add: consumeOne_state)
qed

lemma takes_header_line:
  assumes "header_pair_ok p" "list_all plain_char (fst p)" "list_all plain_char (snd p)"
  shows "takes B HEADER_LINE_START (header_line p @ CRLF) HEADER_LINE_START"
proof -
  obtain c n v where p: "p = (c # n, v)" using assms(1) by (cases p; cases "fst p") (auto simp: header_pair_ok_def trimmed_def)
  have c: "plain_char c" "c \<noteq> CHR '' ''" using assms p by (auto simp: header_pair_ok_def trimmed_def isspace_def)
  have sp: "plain_char (CHR '' '')" by code_simp
  have "takes B HEADER_NAME n HEADER_NAME"
    using assms p by (intro takes_run consumeOne_state(6)) (auto simp: header_pair_ok_def list_all_iff)
  moreover have "takes B HEADER_NAME '':'' HEADER_VALUE"
    by (intro takes_Cons [of _ _ _ HEADER_VALUE] takes_Nil) (simp add: consumeOne_state)
  moreover have "takes B HEADER_VALUE ('' '' @ v) HEADER_VALUE"
    using assms p sp by (intro takes_run) (auto simp: consumeOne_state list_all_iff)
  moreover have "takes B HEADER_VALUE CRLF HEADER_LINE_START"
    by (intro takes_Cons [of _ _ _ EXPECTING_NEW_LINE_2] takes_Cons [of EXPECTING_NEW_LINE_2 _ _ HEADER_LINE_START] takes_Nil)
      (simp_all add: consumeOne_state)
  ultimately have "takes B HEADER_NAME (n @ '':'' @ ('' '' @ v) @ CRLF) HEADER_LINE_START"
    by (blast intro: takes_append)
  then have "takes B HEADER_LINE_START (c # n @ '':'' @ ('' '' @ v) @ CRLF) HEADER_LINE_START"
    using c by (intro takes_Cons [of HEADER_LINE_START _ _ HEADER_NAME]) (simp_all add: consumeOne_state)
  then show ?thesis by (simp add: header_line_def p)
qed

lemma takes_header_lines:
  assumes "wire_ok sl ps"
  shows "takes B START_LINE_PARSE (join_lines sl (map header_line ps) @ CRLF) HEADER_LINE_START"
proof -
  have "takes B HEADER_LINE_START (concat (map (\<lambda>l. l @ CRLF) (map header_line qs))) HEADER_LINE_START"
    if "set qs \<subseteq> set ps" for qs
    using that
  proof (induction qs)
    case (Cons p qs)
    then have "takes B HEADER_LINE_START (header_line p @ CRLF) HEADER_LINE_START"
      using assms by (intro takes_header_line) (auto simp: wire_ok_def)
    then show ?case using Cons takes_append by fastforce
  qed (simp add: takes_Nil)
  moreover have "takes B START_LINE_PARSE (sl @ CRLF) HEADER_LINE_START"
    using assms by (intro takes_start_line) (simp add: wire_ok_def)
  ultimately show ?thesis using takes_append unfolding join_lines_CRLF by fastforce
qed

lemma consume_headers:
  assumes ok: "wire_ok sl ps" and st: "m_consumeState m = IDLE"
  shows "\<exists>m'. consume_loop B m (header_bytes sl ps @ ys) =
      consume_loop B m' (CHR 0x0A # ys) \<and> m_consumeState m' = EXPECTING_NEW_LINE_3 \<and>
      m_data m' @ [CHR 0x0A] = header_bytes sl ps"
proof -
  let ?h = "join_lines sl (map header_line ps) @ CRLF"
  let ?m = "m\<lparr>m_data := [], m_consumeState := START_LINE_PARSE\<rparr>"
  let ?m1 = "m\<lparr>m_data := ?h, m_consumeState := HEADER_LINE_START\<rparr>"
  let ?m2 = "m\<lparr>m_data := ?h @ [CHR 0x0D], m_consumeState := EXPECTING_NEW_LINE_3\<rparr>"
  have "sl \<noteq> []" "\<not> not_start_char (hd sl)" using ok by (simp_all add: wire_ok_def start_ok_def plain_line_def)
  then obtain c r where h: "?h = c # r" "\<not> not_start_char c" by (cases sl; cases ps) simp_all
  have idle: "consume_loop B m (c # xs) = consume_loop B ?m (c # xs)" for xs
    using st h(2) by (simp add: SIPMessage_consumeOne_def)
  have "consume_loop B m (?h @ CRLF @ ys) = consume_loop B ?m (?h @ CRLF @ ys)"
    unfolding h(1) using idle [of "r @ CRLF @ ys"] by simp
  also have "\<dots> = consume_loop B ?m1 (CRLF @ ys)"
    using takes_header_lines [OF ok, of B] by (simp add: takes_def)
  also have "\<dots> = consume_loop B ?m2 (CHR 0x0A # ys)"
    by (simp add: consumeOne_state push_data_def del: append_assoc)
  finally show ?thesis by (intro exI [of _ ?m2]) (simp add: header_bytes_def)
qed

lemma consume_idle:
  assumes "list_all not_start_char j" "m_consumeState m = IDLE"
  shows "consume_loop B m (j @ ys) = consume_loop B (m\<lparr>m_idleBuffer := m_idleBuffer m @ j\<rparr>) ys"
  using assms by (induction j arbitrary: m) (simp_all add: SIPMessage_consumeOne_def)

lemma consume_body:
  assumes "m_consumeState m = EXPECTING_BODY" "b \<noteq> []" "length (m_body m) + length b = m_expectedBodyLen m"
  shows "consume_loop B m (b @ ys) =
    Some (Some True, ys, (SIPMessage_commitData (m\<lparr>m_body := m_body m @ b\<rparr>))\<lparr>m_finalized := True\<rparr>)"
  using assms
proof (induction b arbitrary: m)
  case (Cons c b)
  show ?case
  proof (cases "b = []")
    case True
    then show ?thesis using Cons.prems by (simp add: SIPMessage_consumeOne_def del: not_None_eq)
  next
    case False
    then have "SIPMessage_consumeOne B m c = Some (None, m\<lparr>m_body := m_body m @ [c]\<rparr>)"
      using Cons.prems by (cases b) (simp_all add: SIPMessage_consumeOne_def)
    then show ?thesis using Cons.IH [of "m\<lparr>m_body := m_body m @ [c]\<rparr>"] Cons.prems False by simp
  qed
qed simp

lemma size_of_nat: "n < 2 ^ 31 \<Longrightarrow> size_of_int (int n) = n"
  by (simp add: size_of_int_def)

lemma atoi_range: "atoi s = Some i \<Longrightarrow> i < 2 ^ 31"
  by (auto simp: atoi_def Let_def split: if_splits prod.splits)

text \<open>The length of the body that the headers announce: that of the first \<open>Content-Length\<close>, or 0.\<close>

definition content_length :: "boost_fns \<Rightarrow> (string \<times> string) list \<Rightarrow> int option" where
  "content_length B ps = (case vals_of B ps ''content-length'' of [] \<Rightarrow> Some 0 | v # _ \<Rightarrow> atoi v)"

lemma vals_of_ne: "\<forall>p \<in> set ps. header_pair_ok p \<Longrightarrow> v \<in> set (vals_of B ps k) \<Longrightarrow> v \<noteq> []"
  by (auto simp: vals_of_def header_pair_ok_def trimmed_def)

lemma end_of_headers_message:
  assumes B: "boost_ok B" and ok: "wire_ok sl ps" and d: "m_data m = header_bytes sl ps"
    and len: "content_length B ps = Some (int n)"
  shows "\<exists>m'. m_startLine m' = sl \<and> hdr_vals m' = vals_of B ps \<and> m_body m' = [] \<and> hdr_wf m' \<and>
     (if n = 0 then end_of_headers B m = Some (Some True, m') \<and> m_finalized m'
      else end_of_headers B m = Some (None, m') \<and> m_consumeState m' = EXPECTING_BODY \<and> m_expectedBodyLen m' = n)"
proof -
  let ?p = "SIPMessage_parse B m"
  have "\<forall>p \<in> set ps. header_pair_ok p" "start_ok sl" using ok by (auto simp: wire_ok_def)
  note P = parse_message [OF B this(2,1), of m "[]"]
  have p: "m_startLine ?p = sl" "m_body ?p = []" "hdr_vals ?p = vals_of B ps" "hdr_ok ?p"
    using P(1-4) d by (simp_all add: header_bytes_def)
  have cl: "to_lower B ''Content-Length'' = ''content-length''" using B by (simp add: boost_ok_def del: list.map)
  have g: "SIPMessage_hdrGet B ?p ''Content-Length'' 0 =
      (case vals_of B ps ''content-length'' of [] \<Rightarrow> [] | v # _ \<Rightarrow> v)"
    unfolding hdrGet_vals [OF p(4)] cl p(3) by (simp split: list.split)
  have fin: "m_finalized ?p" "hdr_wf ?p" using p(4) by (simp_all add: hdr_ok_def)
  have hv: "hdr_vals (?p\<lparr>m_expectedBodyLen := e\<rparr>) = hdr_vals ?p" "hdr_wf (?p\<lparr>m_expectedBodyLen := e\<rparr>) = hdr_wf ?p"
    "hdr_vals (?p\<lparr>m_expectedBodyLen := e, m_consumeState := s, m_finalized := f\<rparr>) = hdr_vals ?p" for e s f
    by (simp_all add: hdr_vals_def fun_eq_iff hdr_wf_def)
  show ?thesis
  proof (cases "vals_of B ps ''content-length''")
    case Nil
    then show ?thesis using len g p fin
      by (intro exI [of _ ?p]) (simp add: end_of_headers_def Let_def content_length_def)
  next
    case (Cons v vs)
    have "v \<noteq> []" using vals_of_ne [of ps v B "''content-length''"] ok Cons by (auto simp: wire_ok_def)
    moreover have a: "atoi v = Some (int n)" using len Cons by (simp add: content_length_def)
    moreover have "size_of_int (int n) = n" using atoi_range [OF a] by (intro size_of_nat) simp
    ultimately show ?thesis using g Cons p fin hv
      by (cases "n = 0")
        (intro exI [of _ "?p\<lparr>m_expectedBodyLen := n\<rparr>"]
           exI [of _ "?p\<lparr>m_expectedBodyLen := n, m_consumeState := EXPECTING_BODY, m_finalized := False\<rparr>"];
         simp add: end_of_headers_def Let_def)+
  qed
qed

text \<open>C3: a message on the wire is delivered exactly: after line breaks and other characters that do
  not start a message, the start line, the headers and the announced number of body characters are
  consumed and no more; the message is complete, and has this start line, these headers and this body.\<close>

theorem consume_framing:
  assumes B: "boost_ok B" and ok: "wire_ok sl ps" and len: "content_length B ps = Some (int (length b))"
    and j: "list_all not_start_char j" and st: "m_consumeState m = IDLE"
  shows "\<exists>m'. SIPMessage_consume B m (j @ header_bytes sl ps @ b @ rest) = Some (Some True, rest, m') \<and>
     m_startLine m' = sl \<and> hdr_vals m' = vals_of B ps \<and> m_body m' = b \<and> hdr_ok m'"
proof -
  let ?i = "m\<lparr>m_finalized := False, m_idleBuffer := m_idleBuffer m @ j\<rparr>"
  have i: "SIPMessage_consume B m (j @ ys) = consume_loop B ?i ys" for ys
    unfolding SIPMessage_consume_def using consume_idle [OF j, of "m\<lparr>m_finalized := False\<rparr>"] st by simp
  obtain m1 where m1: "consume_loop B ?i (header_bytes sl ps @ b @ rest) = consume_loop B m1 (CHR 0x0A # b @ rest)"
    "m_consumeState m1 = EXPECTING_NEW_LINE_3" "m_data m1 @ [CHR 0x0A] = header_bytes sl ps"
    using consume_headers [OF ok, of ?i B "b @ rest"] st by auto
  obtain m2 where m2: "m_startLine m2 = sl" "hdr_vals m2 = vals_of B ps" "m_body m2 = []" "hdr_wf m2"
    "if length b = 0 then end_of_headers B (m1\<lparr>m_data := m_data m1 @ [CHR 0x0A]\<rparr>) = Some (Some True, m2) \<and> m_finalized m2
     else end_of_headers B (m1\<lparr>m_data := m_data m1 @ [CHR 0x0A]\<rparr>) = Some (None, m2) \<and>
       m_consumeState m2 = EXPECTING_BODY \<and> m_expectedBodyLen m2 = length b"
    using end_of_headers_message [OF B ok _ len, of "m1\<lparr>m_data := m_data m1 @ [CHR 0x0A]\<rparr>"] m1(3) by auto
  have one: "SIPMessage_consumeOne B m1 (CHR 0x0A) = end_of_headers B (m1\<lparr>m_data := m_data m1 @ [CHR 0x0A]\<rparr>)"
    by (rule consumeOne_state(11) [OF m1(2)])
  show ?thesis
  proof (cases "b = []")
    case True
    then show ?thesis using m1(1) m2 by (intro exI [of _ m2]) (simp add: i one hdr_ok_def del: not_None_eq)
  next
    case False
    let ?m = "(SIPMessage_commitData (m2\<lparr>m_body := m_body m2 @ b\<rparr>))\<lparr>m_finalized := True\<rparr>"
    have "consume_loop B m2 (b @ rest) = Some (Some True, rest, ?m)"
      using m2(3,5) False by (intro consume_body) simp_all
    moreover have "hdr_vals ?m = vals_of B ps" "hdr_ok ?m"
      using m2 by (simp_all add: hdr_vals_def fun_eq_iff hdr_ok_def SIPMessage_commitData_def)
    ultimately show ?thesis using m2 False by (intro exI [of _ ?m]) (simp add: i m1(1) one)
  qed
qed

theorem consume_framing_witness:
  "\<exists>m'. SIPMessage_consume boost_model SIPMessage_new
     (CRLF @ header_bytes ''OPTIONS sip:a SIP/2.0'' [(''l'', ''2''), (''Via'', ''x'')] @ ''ab'' @ ''NEXT'') =
       Some (Some True, ''NEXT'', m') \<and> m_body m' = ''ab''"
proof -
  have "wire_ok ''OPTIONS sip:a SIP/2.0'' [(''l'', ''2''), (''Via'', ''x'')]"
    "content_length boost_model [(''l'', ''2''), (''Via'', ''x'')] = Some 2" "list_all not_start_char CRLF"
    by code_simp+
  then show ?thesis
    using consume_framing [OF boost_model_ok, of "''OPTIONS sip:a SIP/2.0''" "[(''l'', ''2''), (''Via'', ''x'')]" "''ab''"
        CRLF SIPMessage_new "''NEXT''"] by (auto simp: SIPMessage_new_def)
qed

text \<open>The callers feed a connection's characters chunk by chunk, until a message is complete or wrong.\<close>

fun consume_chunks :: "boost_fns \<Rightarrow> sip_message \<Rightarrow> string list \<Rightarrow> (bool option \<times> string \<times> sip_message) option" where
  "consume_chunks B m [] = Some (None, [], m)"
| "consume_chunks B m (x # xs) = do {
     (result, left, m) \<leftarrow> SIPMessage_consume B m x;
     if result \<noteq> None then Some (result, left @ concat xs, m) else consume_chunks B m xs
   }"

lemma consume_loop_stops:
  assumes "consume_loop B m xs = Some (Some r, l, m1)"
  shows "consume_loop B m (xs @ ys) = Some (Some r, l @ ys, m1)"
  using assms
  by (induction xs arbitrary: m) (auto simp: bind_eq_Some_conv split: if_splits)

lemma consume_loop_faults: "consume_loop B m xs = None \<Longrightarrow> consume_loop B m (xs @ ys) = None"
proof (induction xs arbitrary: m)
  case (Cons c xs)
  then show ?case by (cases "SIPMessage_consumeOne B m c") (auto split: if_splits)
qed simp

lemma consume_chunks_loop:
  "\<not> m_finalized m \<Longrightarrow> consume_chunks B m xs = consume_loop B m (concat xs)"
proof (induction xs arbitrary: m)
  case (Cons x xs)
  have x: "SIPMessage_consume B m x = consume_loop B m x" by (simp add: SIPMessage_consume_def unfinished_id Cons.prems)
  show ?case
  proof (cases "consume_loop B m x")
    case None
    then show ?thesis by (simp add: x consume_loop_faults)
  next
    case (Some p)
    obtain r l m1 where p: "p = (r, l, m1)" by (cases p)
    show ?thesis
    proof (cases r)
      case None
      then have "consume_loop B m x = Some (None, l, m1)" using Some p by simp
      from consume_loop_chunks [OF this Cons.prems] Cons.IH show ?thesis using Some p None by (simp add: x)
    next
      case (Some r')
      then show ?thesis using \<open>consume_loop B m x = Some p\<close> p
        by (simp add: x consume_loop_stops del: not_None_eq)
    qed
  qed
qed simp

text \<open>C22: how a stream is cut into chunks makes no difference: consuming the chunks one after the
  other gives the result, the remaining characters and the message of consuming them at once.\<close>

theorem consume_chunk_independent:
  assumes "xs \<noteq> []"
  shows "consume_chunks B m xs = SIPMessage_consume B m (concat xs)"
proof (cases xs)
  case (Cons x ys)
  have "consume_chunks B m (x # ys) = consume_chunks B (m\<lparr>m_finalized := False\<rparr>) (x # ys)"
    by (simp add: SIPMessage_consume_def)
  then show ?thesis using consume_chunks_loop [of "m\<lparr>m_finalized := False\<rparr>" B xs] Cons
    by (simp add: SIPMessage_consume_def)
qed (use assms in simp)

theorem consume_chunk_independent_witness:
  "consume_chunks boost_model SIPMessage_new [''OPT'', ''IONS'', ''x''] = SIPMessage_consume boost_model SIPMessage_new ''OPTIONSx''"
  using consume_chunk_independent [of "[''OPT'', ''IONS'', ''x'']"] by simp

text \<open>A tab or a character outside ASCII in a header value is a syntax error.\<close>

theorem header_value_rejects:
  "m_consumeState m = HEADER_VALUE \<Longrightarrow> c = CHR 0x09 \<or> schar c < 0 \<Longrightarrow>
   SIPMessage_consumeOne B m c = Some (Some False, m)"
proof -
  assume st: "m_consumeState m = HEADER_VALUE" and c: "c = CHR 0x09 \<or> schar c < 0"
  have "schar (CHR 0x09) = 9" "schar (CHR 0x0D) = 13" by code_simp+
  then have "\<not> plain_char c" "c \<noteq> CHR 0x0D"
    using c by (auto simp: plain_char_def SIPParser_isChar_def SIPParser_isCtl_def)
  then show ?thesis using st by (simp add: SIPMessage_consumeOne_def)
qed

text \<open>When characters follow the message, \<open>read\<close> returns their number in \<open>totalRead\<close>, not
  the number of characters of the message.\<close>

theorem read_total_counts_rest:
  assumes "SIPMessage_consume B m avail = Some (Some True, rest, m')" "rest \<noteq> []" "length avail \<le> 1024"
    "length rest \<le> length avail" "avail \<noteq> []"
  shows "SIPMessage_read B m avail 0 = Some (True, length rest, rest, m')"
  using assms by (subst SIPMessage_read.simps) (simp add: Let_def)

end
