(* ===== verification/SIP_Identity.thy ===== *)
theory SIP_Identity
  imports SIP_MessageText
begin

text \<open>
  The identifier under which a message is matched to its transaction, and the responses and requests a
  \<open>SIPMessage\<close> makes: \<open>createResponse\<close>, \<open>reformatResponse\<close> and \<open>createRequest\<close>.
\<close>

section \<open>Definitions\<close>

text \<open>The loops that copy the values of a list header; an empty value throws.\<close>

fun copy_headers ::
    "boost_fns \<Rightarrow> sip_message \<Rightarrow> string \<Rightarrow> string \<Rightarrow> nat list \<Rightarrow> sip_message \<Rightarrow> parser_exception + sip_message" where
  "copy_headers B m name err [] response = Inr response"
| "copy_headers B m name err (i # is) response =
     (let value = SIPMessage_hdrGet B m name i in
      if value = [] then Inl (SIPParserException err)
      else copy_headers B m name err is (snd (SIPMessage_hdrListAppend B response name value)))"

definition SIPFrom_setHeaderParam_member ::
    "boost_fns \<Rightarrow> string \<Rightarrow> mem \<Rightarrow> mem \<Rightarrow> (parser_exception + bool \<times> string) option" where
  "SIPFrom_setHeaderParam_member B data paramName paramValue =
     SIPFrom_setHeaderParam (to_lower B) (From_check_empty data) paramName paramValue"

text \<open>The \<open>To\<close> header of a response: the tag is set when there is one to set.\<close>

definition response_to :: "boost_fns \<Rightarrow> string \<Rightarrow> string \<Rightarrow> (parser_exception + string) option" where
  "response_to B to toTag =
     (if toTag \<noteq> [] then
        map_option (\<lambda>r. case r of Inl e \<Rightarrow> Inl e | Inr (_, to') \<Rightarrow> Inr to')
          (SIPFrom_setHeaderParam_member B to (cstr ''tag'') (cstr toTag))
      else Some (Inr to))"

definition response_start :: "int \<Rightarrow> string \<Rightarrow> string" where
  "response_start statusCode reasonPhrase =
     ''SIP/2.0 '' @ int_text statusCode @ '' '' @
       (if reasonPhrase = [] then SIPParser_getReasonPhrase statusCode reasonPhrase else reasonPhrase)"

text \<open>The headers of a response that come from the request; each function may throw.\<close>

fun sum_bind :: "'e + 'a \<Rightarrow> ('a \<Rightarrow> 'e + 'b) \<Rightarrow> 'e + 'b" where
  "sum_bind (Inl e) f = Inl e"
| "sum_bind (Inr x) f = f x"

definition dialog_headers :: "boost_fns \<Rightarrow> sip_message \<Rightarrow> string \<Rightarrow> sip_message \<Rightarrow> parser_exception + sip_message" where
  "dialog_headers B m to response =
     (let response = snd (SIPMessage_hdrSet B response ''From'' (SIPMessage_hdrGet B m ''From'' 0));
          response = snd (SIPMessage_hdrSet B response ''To'' to);
          callId = SIPMessage_hdrGet B m ''Call-ID'' 0; cseq = SIPMessage_hdrGet B m ''CSeq'' 0 in
      if callId = [] then Inl (SIPParserException ''Invalid CALL-ID header'')
      else let response = snd (SIPMessage_hdrSet B response ''Call-ID'' callId) in
        if cseq = [] then Inl (SIPParserException ''Invalid CSeq header'')
        else Inr (snd (SIPMessage_hdrSet B response ''CSeq'' cseq)))"

definition via_headers :: "boost_fns \<Rightarrow> sip_message \<Rightarrow> sip_message \<Rightarrow> parser_exception + sip_message" where
  "via_headers B m response =
     (let viaCount = SIPMessage_hdrPresent B m ''Via'' in
      if viaCount = 0 then Inl (SIPParserException ''Invalid Via header'')
      else copy_headers B m ''Via'' ''Invalid via header'' [0 ..< viaCount] response)"

definition record_route_headers :: "boost_fns \<Rightarrow> sip_message \<Rightarrow> sip_message \<Rightarrow> parser_exception + sip_message" where
  "record_route_headers B m response =
     copy_headers B m ''Record-Route'' ''Invalid Record-Route header'' [0 ..< SIPMessage_hdrPresent B m ''Record-Route''] response"

text \<open>The result is the request, whose cached kind changes, and the response.\<close>

definition SIPMessage_createResponse ::
    "boost_fns \<Rightarrow> sip_message \<Rightarrow> int \<Rightarrow> string \<Rightarrow> string \<Rightarrow> string \<Rightarrow>
     (parser_exception + sip_message \<times> sip_message) option" where
  "SIPMessage_createResponse B m statusCode reasonPhrase toTag contact = do {
     (isReq, m) \<leftarrow> SIPMessage_isRequest m;
     if tri_if (tri_not isReq)
     then Some (Inl (SIPParserException ''Calling createResponse() for a response is illegal!!''))
     else
       let response = SIPMessage_new; to = SIPMessage_hdrGet B m ''To'' 0 in
       if to = [] then Some (Inl (SIPParserException ''Invalid To header.''))
       else do {
         (_, tag) \<leftarrow> SIPFrom_getHeaderParam to (cstr ''tag'') [];
         if tag \<noteq> [] \<and> toTag \<noteq> [] \<and> tag \<noteq> toTag
         then Some (Inl (SIPParserException ''To tag is already present in current request.''))
         else if SIPMessage_hdrGet B m ''From'' 0 = [] then Some (Inl (SIPParserException ''Invalid From header''))
         else do {
           to \<leftarrow> response_to B to toTag;
           Some (
             sum_bind to (\<lambda>to.
             sum_bind (dialog_headers B m to (response\<lparr>m_startLine := response_start statusCode reasonPhrase\<rparr>)) (\<lambda>response.
             sum_bind (via_headers B m (if contact \<noteq> []
               then snd (SIPMessage_hdrListAppend B response ''Contact'' contact) else response)) (\<lambda>response.
             sum_bind (record_route_headers B m response) (\<lambda>response.
             Inr (m, SIPMessage_commitData (snd (SIPMessage_hdrSet B response ''Content-Length'' ''0''))))))))
         }
       }
   }"

definition erase_header :: "string \<Rightarrow> sip_message \<Rightarrow> sip_message" where
  "erase_header key m = m\<lparr>m_headers := AList.delete key (m_headers m)\<rparr>"

definition SIPMessage_reformatResponse ::
    "boost_fns \<Rightarrow> sip_message \<Rightarrow> sip_message \<Rightarrow> (parser_exception + sip_message \<times> sip_message) option" where
  "SIPMessage_reformatResponse B m pResponse = do {
     (isReq, m) \<leftarrow> SIPMessage_isRequest m;
     if tri_if (tri_not isReq)
     then Some (Inl (SIPParserException ''Calling createResponse() for a response is illegal!!''))
     else
       let response = SIPMessage_copy pResponse; to = SIPMessage_hdrGet B m ''To'' 0 in
       if to = [] then Some (Inl (SIPParserException ''Invalid To header.''))
       else do {
         (_, toTag) \<leftarrow> SIPFrom_getHeaderParam (SIPMessage_hdrGet B response ''To'' 0) (cstr ''tag'') [];
         (_, tag) \<leftarrow> SIPFrom_getHeaderParam to (cstr ''tag'') [];
         if SIPMessage_hdrGet B m ''From'' 0 = [] then Some (Inl (SIPParserException ''Invalid From header''))
         else do {
           to \<leftarrow> response_to B to toTag;
           Some (
             sum_bind to (\<lambda>to.
             sum_bind (dialog_headers B m to response) (\<lambda>response.
             sum_bind (via_headers B m (erase_header ''Via'' (erase_header ''via'' response))) (\<lambda>response.
             sum_bind (record_route_headers B m (erase_header ''Record-Route'' (erase_header ''record-route'' response))) (\<lambda>response.
             Inr (m, SIPMessage_commitData response))))))
         }
       }
   }"

text \<open>\<open>createRequest\<close>: the transport address of the \<open>Via\<close> header is given by its validity,
  protocol and printed form.\<close>

datatype request_type =
    REQUEST_INVITE | REQUEST_BYE | REQUEST_ACK | REQUEST_PRACK | REQUEST_CANCEL | REQUEST_INFO | REQUEST_REFER
  | REQUEST_UPDATE | REQUEST_SUBSCRIBE | REQUEST_NOTIFY | REQUEST_PUBLISH | REQUEST_MESSAGE | REQUEST_OPTIONS
  | REQUEST_UNKNOWN

fun requestTypeToString :: "request_type \<Rightarrow> string option" where
  "requestTypeToString REQUEST_INVITE = Some ''INVITE''"
| "requestTypeToString REQUEST_BYE = Some ''BYE''"
| "requestTypeToString REQUEST_ACK = Some ''ACK''"
| "requestTypeToString REQUEST_PRACK = Some ''PRACK''"
| "requestTypeToString REQUEST_CANCEL = Some ''CANCEL''"
| "requestTypeToString REQUEST_INFO = Some ''INFO''"
| "requestTypeToString REQUEST_REFER = Some ''REFER''"
| "requestTypeToString REQUEST_UPDATE = Some ''UPDATE''"
| "requestTypeToString REQUEST_SUBSCRIBE = Some ''SUBSCRIBE''"
| "requestTypeToString REQUEST_NOTIFY = Some ''NOTIFY''"
| "requestTypeToString REQUEST_PUBLISH = Some ''PUBLISH''"
| "requestTypeToString REQUEST_MESSAGE = Some ''MESSAGE''"
| "requestTypeToString REQUEST_OPTIONS = Some ''OPTIONS''"
| "requestTypeToString REQUEST_UNKNOWN = None"

datatype via_protocol = PROTO_UDP | PROTO_TCP | PROTO_TLS | PROTO_OTHER

record request_args =
  ra_type :: request_type
  ra_requestUri :: string
  ra_callId :: string
  ra_cseq :: nat
  ra_fromUri :: string
  ra_fromDisplayName :: string
  ra_fromTag :: string
  ra_toUri :: string
  ra_toDisplayName :: string
  ra_toTag :: string
  ra_contactUri :: string
  ra_contactDisplayName :: string
  ra_viaValid :: bool
  ra_viaProtocol :: via_protocol
  ra_viaIpPort :: string
  ra_viaBranch :: string
  ra_contentType :: string
  ra_body :: string

definition SIPURI_isEmpty :: "string \<Rightarrow> bool" where
  "SIPURI_isEmpty data = (data = [] \<or> data = EMPTY_URI)"

definition named_uri :: "string \<Rightarrow> string \<Rightarrow> string \<Rightarrow> string" where
  "named_uri name gap uri = (CHR 0x22 # name) @ [CHR 0x22] @ gap @ ''<'' @ uri @ ''>''"

definition request_from :: "request_args \<Rightarrow> string" where
  "request_from a =
     (if ra_fromDisplayName a = [] then ra_fromUri a else named_uri (ra_fromDisplayName a) '' '' (ra_fromUri a))
     @ '';tag='' @ ra_fromTag a"

definition request_to :: "request_args \<Rightarrow> string" where
  "request_to a =
     (if ra_toDisplayName a = [] then
        (if ra_toTag a \<noteq> [] then ra_toUri a @ '';tag='' @ ra_toTag a else ra_toUri a)
      else if ra_toTag a \<noteq> [] then named_uri (ra_toDisplayName a) '' '' (ra_toUri a) @ '';tag='' @ ra_toTag a
      else named_uri (ra_toDisplayName a) [] (ra_toUri a))"

definition request_contact :: "request_args \<Rightarrow> string" where
  "request_contact a =
     (if ra_contactDisplayName a = [] then ra_contactUri a
      else named_uri (ra_contactDisplayName a) '' '' (ra_contactUri a))"

definition request_via :: "request_args \<Rightarrow> string" where
  "request_via a =
     ''SIP/2.0/'' @ (case ra_viaProtocol a of PROTO_TCP \<Rightarrow> ''TCP'' | PROTO_TLS \<Rightarrow> ''TLS'' | _ \<Rightarrow> ''UDP'') @ '' '' @
     ra_viaIpPort a @ '';branch='' @ ra_viaBranch a"

definition request_text :: "string \<Rightarrow> request_args \<Rightarrow> string" where
  "request_text method a =
     method @ '' '' @ ra_requestUri a @ '' SIP/2.0'' @ CRLF @
     ''Call-Id: '' @ ra_callId a @ CRLF @
     ''CSeq: '' @ nat_text (ra_cseq a) @ '' '' @ method @ CRLF @
     ''From: '' @ request_from a @ CRLF @
     ''To: '' @ request_to a @ CRLF @
     ''Contact: '' @ request_contact a @ CRLF @
     ''Via: '' @ request_via a @ CRLF @
     (if ra_contentType a \<noteq> [] \<and> ra_body a \<noteq> [] then
        ''Content-Type: '' @ ra_contentType a @ CRLF @
        ''Content-Length: '' @ nat_text (length (ra_body a)) @ CRLF @ CRLF @ ra_body a
      else [])"

definition SIPMessage_createRequest :: "boost_fns \<Rightarrow> request_args \<Rightarrow> sip_message option" where
  "SIPMessage_createRequest B a =
     (case requestTypeToString (ra_type a) of
        None \<Rightarrow> None
      | Some method \<Rightarrow>
          if SIPURI_isEmpty (ra_requestUri a) \<or> ra_callId a = [] \<or> ra_cseq a = 0 \<or> SIPURI_isEmpty (ra_fromUri a) \<or>
             ra_fromTag a = [] \<or> SIPURI_isEmpty (ra_toUri a) \<or> SIPURI_isEmpty (ra_contactUri a) \<or> \<not> ra_viaValid a \<or>
             ra_viaBranch a = []
          then None
          else Some (SIPMessage_commitData (SIPMessage_packet B (request_text method a))))"

section \<open>Transaction identifiers\<close>

definition tx_method :: "string \<Rightarrow> string" where
  "tx_method method = (let l = map ascii_lower method in if l = ''ack'' then ''invite'' else l)"

text \<open>What identifies the transaction of a message: the number and the method of \<open>CSeq\<close> and the
  branch of the top \<open>Via\<close>, or the \<open>Call-ID\<close> when the branch is missing.\<close>

definition tx_parts :: "sip_message \<Rightarrow> string \<Rightarrow> string \<Rightarrow> string \<Rightarrow> bool" where
  "tx_parts m number method ident =
     (hdr_ok m \<and> cseq_wf number method \<and>
      (case (hdr_vals m ''via'', hdr_vals m ''call-id'', hdr_vals m ''cseq'') of
         (via # _, callId # _, cseq # _) \<Rightarrow>
           via \<noteq> [] \<and> callId \<noteq> [] \<and> cseq = cseq_text number method \<and>
           (case SIPVia_getBranch via [] of
              Some (_, branch) \<Rightarrow> ident = (if branch = [] then callId else branch)
            | None \<Rightarrow> False)
       | _ \<Rightarrow> False))"

lemma schar_nat: "(of_char d :: nat) < 128 \<Longrightarrow> schar d = int (of_char d)"
  and schar_nonneg: "0 \<le> schar d \<Longrightarrow> (of_char d :: nat) < 128"
proof -
  have i: "(of_char d :: int) = int (of_char d)" by (simp only: of_nat_of_char)
  obtain n where n: "(of_char d :: nat) = n" "n < 256" by simp
  show "(of_char d :: nat) < 128 \<Longrightarrow> schar d = int (of_char d)"
    unfolding schar_def Let_def i n by simp
  show "0 \<le> schar d \<Longrightarrow> (of_char d :: nat) < 128"
    unfolding schar_def Let_def i n(1) using n(2) by (simp split: if_splits)
qed

lemma lower_letter: "is_alpha c \<Longrightarrow> is_alpha (ascii_lower c)"
proof -
  assume a: "is_alpha c"
  define n where "n = (of_char c :: nat)"
  have n: "n < 128" "schar c = int n" using schar_nonneg [of c] schar_nat [of c] a by (auto simp: n_def is_alpha_def)
  have "schar (char_of (n + 32)) = int (n + 32)" if "n \<le> 90"
    using schar_nat [of "char_of (n + 32)"] that by simp
  then show ?thesis using a n by (auto simp: is_alpha_def ascii_lower_def simp flip: n_def)
qed

lemma alpha_not_digit: "is_alpha c \<Longrightarrow> \<not> is_digit c"
  by (auto simp: is_alpha_def is_digit_def)

lemma lower_upper: "ascii_lower (ascii_upper c) = ascii_lower c"
proof (cases "97 \<le> (of_char c :: nat) \<and> (of_char c :: nat) \<le> 122")
  case True
  define n where "n = (of_char c :: nat)"
  have n: "97 \<le> n" "n \<le> 122" "c = char_of n" using True by (simp_all add: n_def)
  from schar_nat [of c] schar_nat [of "char_of (n - 32)"] have "schar c = int n" "schar (char_of (n - 32)) = int (n - 32)"
    using n by (simp_all add: n_def [symmetric] del: of_nat_of_char)
  moreover have "ascii_upper c = char_of (n - 32)" using n by (simp add: ascii_upper_def flip: n_def)
  ultimately show ?thesis using n by (simp add: ascii_lower_def)
qed (auto simp: ascii_upper_def)

lemma hdrGet_key:
  "hdr_ok m \<Longrightarrow> SIPMessage_hdrGet B m h 0 = (case hdr_vals m (to_lower B h) of [] \<Rightarrow> [] | v # _ \<Rightarrow> v)"
  by (simp add: hdrGet_vals split: list.split)

lemma boost_keys:
  assumes "boost_ok B"
  shows "to_lower B ''Via'' = ''via''" "to_lower B ''From'' = ''from''" "to_lower B ''To'' = ''to''"
    "to_lower B ''Call-ID'' = ''call-id''" "to_lower B ''CSeq'' = ''cseq''" "to_lower B ''Contact'' = ''contact''"
    "to_lower B ''Record-Route'' = ''record-route''" "to_lower B ''Content-Length'' = ''content-length''"
  using assms by (simp_all add: boost_ok_def del: list.map)

lemma transaction_id:
  assumes B: "boost_ok B" and p: "tx_parts m number method ident"
  shows "SIPMessage_getTransactionId B m None old = Some (True, tx_method method @ number @ ident)"
proof -
  obtain via vs callId cs cseqs ok branch where v: "hdr_ok m" "cseq_wf number method" "hdr_vals m ''via'' = via # vs" "via \<noteq> []"
    "hdr_vals m ''call-id'' = callId # cs" "callId \<noteq> []" "hdr_vals m ''cseq'' = cseq_text number method # cseqs"
    "SIPVia_getBranch via [] = Some (ok, branch)" "ident = (if branch = [] then callId else branch)"
    using p by (auto simp: tx_parts_def split: list.splits option.splits)
  have ne: "number \<noteq> []" "method \<noteq> []" using v(2) by (simp_all add: cseq_wf_def)
  have "cseq_text number method \<noteq> []" by (simp add: cseq_text_def)
  moreover have "map ascii_lower (map ascii_upper method) = map ascii_lower method" by (simp add: comp_def lower_upper)
  moreover have "to_upper B method = map ascii_upper method" "to_lower B = map ascii_lower" using B by (simp_all add: boost_ok_def)
  ultimately show ?thesis
    using v ne cseq_getters [OF v(2)]
    by (simp add: SIPMessage_getTransactionId_def Let_def hdrGet_key boost_keys [OF B] tx_method_def del: list.map map_map)
qed

lemma digits_split:
  assumes "\<forall>c \<in> set a \<union> set a'. \<not> is_digit c" "\<forall>c \<in> set n \<union> set n'. is_digit c" "n \<noteq> []" "n' \<noteq> []"
    and "i \<noteq> []" "i' \<noteq> []" "\<not> is_digit (hd i)" "\<not> is_digit (hd i')"
  shows "(a @ n @ i = a' @ n' @ i') = (a = a' \<and> n = n' \<and> i = i')"
proof -
  have t: "takeWhile (\<lambda>c. \<not> is_digit c) (x @ y @ z) = x" "takeWhile is_digit (y @ z) = y"
    if "\<forall>c \<in> set x. \<not> is_digit c" "\<forall>c \<in> set y. is_digit c" "y \<noteq> []" "z \<noteq> []" "\<not> is_digit (hd z)" for x y z
  proof -
    show "takeWhile (\<lambda>c. \<not> is_digit c) (x @ y @ z) = x" using that by (induction x; cases y) auto
    show "takeWhile is_digit (y @ z) = y" using that(2,5) by (induction y; cases z) auto
  qed
  have "a = a'" if "a @ n @ i = a' @ n' @ i'"
    using t(1) [of a n i] t(1) [of a' n' i'] assms that by simp
  moreover have "n = n'" if "n @ i = n' @ i'"
    using t(2) [of "[]" n i] t(2) [of "[]" n' i'] assms that by simp
  ultimately show ?thesis by auto
qed

text \<open>C21: a message is matched to its transaction by method, number and branch: two messages with
  alphabetic methods, decimal numbers and branches that do not start with a digit (as the branches of
  RFC 3261 do not) have the same identifier exactly when number and branch agree and the methods are
  the same up to case, where \<open>ACK\<close> counts as \<open>INVITE\<close>.\<close>

theorem transaction_id_identifies:
  assumes "boost_ok B" "tx_parts m n me i" "tx_parts m' n' me' i'"
    and "list_all is_digit n" "list_all is_digit n'" "list_all is_alpha me" "list_all is_alpha me'"
    and "i \<noteq> []" "i' \<noteq> []" "\<not> is_digit (hd i)" "\<not> is_digit (hd i')"
  shows "\<exists>id id'. SIPMessage_getTransactionId B m None old = Some (True, id) \<and>
     SIPMessage_getTransactionId B m' None old' = Some (True, id') \<and>
     (id = id' \<longleftrightarrow> tx_method me = tx_method me' \<and> n = n' \<and> i = i')"
proof -
  have ack: "\<forall>c \<in> set ''invite''. \<not> is_digit c" by code_simp
  have "\<forall>c \<in> set (tx_method s). \<not> is_digit c" if "list_all is_alpha s" for s
    using that ack by (auto simp: tx_method_def Let_def list_all_iff dest: lower_letter alpha_not_digit)
  moreover have "n \<noteq> []" "n' \<noteq> []" using assms(2,3) by (simp_all add: tx_parts_def cseq_wf_def)
  ultimately have "(tx_method me @ n @ i = tx_method me' @ n' @ i') = (tx_method me = tx_method me' \<and> n = n' \<and> i = i')"
    using assms(4-11) by (intro digits_split) (auto simp: list_all_iff)
  then show ?thesis using transaction_id [OF assms(1,2)] transaction_id [OF assms(1,3)] by simp
qed

text \<open>A request with the headers that identify it, for the witnesses.\<close>

definition one_header :: "nat \<Rightarrow> string \<Rightarrow> string \<Rightarrow> string \<Rightarrow> string \<times> header_tokens" where
  "one_header i key name value = (key, \<lparr>tok_values = [value], rawHeaderName = name, headerOffSet = i\<rparr>)"

definition sample_request :: "string \<Rightarrow> sip_message" where
  "sample_request method = SIPMessage_new\<lparr>m_startLine := method @ '' sip:a SIP/2.0'', m_headerOffSet := 5,
     m_headers := [one_header 0 ''via'' ''Via'' ''SIP/2.0/UDP h;branch=z9hG4bK7'', one_header 1 ''from'' ''From'' ''<sip:a>;tag=1'',
       one_header 2 ''to'' ''To'' ''<sip:b>'', one_header 3 ''call-id'' ''Call-ID'' ''c@h'',
       one_header 4 ''cseq'' ''CSeq'' (cseq_text ''17'' method)]\<rparr>"

lemma sample_request_vals:
  "hdr_ok (sample_request me)" "hdr_vals (sample_request me) ''via'' = [''SIP/2.0/UDP h;branch=z9hG4bK7'']"
  "hdr_vals (sample_request me) ''from'' = [''<sip:a>;tag=1'']" "hdr_vals (sample_request me) ''to'' = [''<sip:b>'']"
  "hdr_vals (sample_request me) ''call-id'' = [''c@h'']" "hdr_vals (sample_request me) ''cseq'' = [cseq_text ''17'' me]"
  "hdr_vals (sample_request me) ''record-route'' = []"
  by (simp_all add: sample_request_def one_header_def hdr_ok_def hdr_wf_def SIPMessage_new_def hdr_vals_def)

lemma sample_request_parts: "cseq_wf ''17'' me \<Longrightarrow> tx_parts (sample_request me) ''17'' me ''z9hG4bK7''"
proof -
  have "SIPVia_getBranch ''SIP/2.0/UDP h;branch=z9hG4bK7'' [] = Some (True, ''z9hG4bK7'')" by code_simp
  then show "cseq_wf ''17'' me \<Longrightarrow> tx_parts (sample_request me) ''17'' me ''z9hG4bK7''"
    by (simp add: tx_parts_def sample_request_vals)
qed

theorem transaction_id_identifies_witness:
  "\<exists>id. SIPMessage_getTransactionId boost_model (sample_request ''INVITE'') None [] = Some (True, id) \<and>
     SIPMessage_getTransactionId boost_model (sample_request ''ACK'') None [] = Some (True, id)"
proof -
  have "cseq_wf ''17'' ''INVITE''" "cseq_wf ''17'' ''ACK''" "list_all is_digit ''17''" "list_all is_alpha ''INVITE''"
    "list_all is_alpha ''ACK''" "\<not> is_digit (hd ''z9hG4bK7'')" "tx_method ''INVITE'' = tx_method ''ACK''"
    by code_simp+
  then show ?thesis
    using transaction_id_identifies [OF boost_model_ok sample_request_parts sample_request_parts, of "''INVITE''" "''ACK''" "[]" "[]"]
    by auto
qed

text \<open>Without the condition on the branch the parts run into each other: messages with the numbers 1
  and 12 and the branches 23 and 3 have one identifier.\<close>

theorem transaction_id_collides:
  assumes "boost_ok B" "tx_parts m ''1'' ''BYE'' ''23''" "tx_parts m' ''12'' ''BYE'' ''3''"
  shows "SIPMessage_getTransactionId B m None old = SIPMessage_getTransactionId B m' None old"
  using transaction_id [OF assms(1,2)] transaction_id [OF assms(1,3)] by simp

section \<open>Responses\<close>

lemma tri_neq_indeterminate [simp]: "tri_neq t None = None"
  by (cases t) (simp_all add: tri_neq_def)

lemma startLine_ops [simp]:
  "m_startLine (snd (SIPMessage_hdrSet B m h v)) = m_startLine m"
  "m_startLine (snd (SIPMessage_hdrListAppend B m h v)) = m_startLine m"
  "m_body (snd (SIPMessage_hdrSet B m h v)) = m_body m" "m_body (snd (SIPMessage_hdrListAppend B m h v)) = m_body m"
  by (auto simp: SIPMessage_hdrSet_def SIPMessage_hdrListAppend_def new_header_def Let_def split: option.splits)

lemma startLine_appends [simp]:
  "m_startLine (foldl (\<lambda>m v. snd (SIPMessage_hdrListAppend B m h v)) r vs) = m_startLine r"
  "m_body (foldl (\<lambda>m v. snd (SIPMessage_hdrListAppend B m h v)) r vs) = m_body r"
  by (induction vs arbitrary: r) simp_all

lemma copy_headers_fold:
  "\<forall>i \<in> set is. SIPMessage_hdrGet B m name i \<noteq> [] \<Longrightarrow> copy_headers B m name err is r =
     Inr (foldl (\<lambda>m v. snd (SIPMessage_hdrListAppend B m name v)) r (map (SIPMessage_hdrGet B m name) is))"
  by (induction "is" arbitrary: r) (simp_all add: Let_def)

lemma copy_headers_all:
  assumes "hdr_ok m" "hdr_ok r" "k = to_lower B name" "[] \<notin> set (hdr_vals m k)"
  shows "\<exists>r'. copy_headers B m name err [0 ..< SIPMessage_hdrPresent B m name] r = Inr r' \<and> hdr_ok r' \<and>
    hdr_vals r' = (hdr_vals r)(k := hdr_vals r k @ hdr_vals m k) \<and>
    m_startLine r' = m_startLine r \<and> m_body r' = m_body r"
proof -
  let ?is = "[0 ..< SIPMessage_hdrPresent B m name]"
  let ?f = "\<lambda>m v. snd (SIPMessage_hdrListAppend B m name v)"
  have n: "SIPMessage_hdrPresent B m name = length (hdr_vals m k)" using assms by (simp add: hdrPresent_vals)
  have g: "map (SIPMessage_hdrGet B m name) ?is = hdr_vals m k"
    unfolding n using assms by (intro nth_equalityI) (simp_all add: hdrGet_vals)
  have "SIPMessage_hdrGet B m name i \<noteq> []" if "i \<in> set ?is" for i
    using that assms(1,3,4) n by (auto simp: hdrGet_vals in_set_conv_nth)
  then have c: "copy_headers B m name err ?is r = Inr (foldl ?f r (hdr_vals m k))"
    using copy_headers_fold [of ?is B m name err r] g by simp
  show ?thesis
    using msg_hdr.append_all [OF assms(2,4), of B name] assms(3)
    by (intro exI [of _ "foldl ?f r (hdr_vals m k)"]) (simp add: c)
qed

lemma transaction_id_cong:
  assumes "hdr_ok m" "hdr_ok r" "\<And>k. k \<in> {''Via'', ''Call-ID'', ''CSeq''} \<Longrightarrow>
      hd (hdr_vals r (to_lower B k)) = hd (hdr_vals m (to_lower B k)) \<and>
      (hdr_vals r (to_lower B k) = []) = (hdr_vals m (to_lower B k) = [])"
  shows "SIPMessage_getTransactionId B r me old = SIPMessage_getTransactionId B m me old"
proof -
  have "SIPMessage_hdrGet B r k 0 = SIPMessage_hdrGet B m k 0" if "k \<in> {''Via'', ''Call-ID'', ''CSeq''}" for k
    using assms(3) [OF that] by (auto simp: hdrGet_key assms(1,2) split: list.split)
  then show ?thesis unfolding SIPMessage_getTransactionId_def by simp
qed

lemma sets_vals:
  assumes "hdr_ok r" "v \<noteq> []" "hdr_vals r (to_lower B h) = []"
  shows "hdr_ok (snd (SIPMessage_hdrSet B r h v)) \<and> hdr_vals (snd (SIPMessage_hdrSet B r h v)) = (hdr_vals r)(to_lower B h := [v])"
  using set_vals [OF assms(1,2), of B h] assms(3) by simp

lemma dialog_headers_vals:
  assumes B: "boost_ok B" and m: "hdr_ok m" and r: "hdr_ok r" "hdr_vals r = (\<lambda>_. [])"
    and v: "hdr_vals m ''from'' = f # fs" "f \<noteq> []" "hdr_vals m ''call-id'' = c # cs" "c \<noteq> []" "hdr_vals m ''cseq'' = q # qs" "q \<noteq> []"
    and to: "to \<noteq> []"
  shows "\<exists>r'. dialog_headers B m to r = Inr r' \<and> hdr_ok r' \<and> m_startLine r' = m_startLine r \<and> m_body r' = m_body r \<and>
    hdr_vals r' = (\<lambda>_. [])(''from'' := [f], ''to'' := [to], ''call-id'' := [c], ''cseq'' := [q])"
proof -
  note k = boost_keys [OF B]
  let ?r1 = "snd (SIPMessage_hdrSet B r ''From'' f)"
  let ?r2 = "snd (SIPMessage_hdrSet B ?r1 ''To'' to)"
  let ?r3 = "snd (SIPMessage_hdrSet B ?r2 ''Call-ID'' c)"
  let ?r4 = "snd (SIPMessage_hdrSet B ?r3 ''CSeq'' q)"
  have r1: "hdr_ok ?r1" "hdr_vals ?r1 = (\<lambda>_. [])(''from'' := [f])" using sets_vals [OF r(1) v(2), of B "''From''"] r(2) k by simp_all
  have r2: "hdr_ok ?r2" "hdr_vals ?r2 = (\<lambda>_. [])(''from'' := [f], ''to'' := [to])"
    using sets_vals [OF r1(1) to, of B "''To''"] r1(2) k by simp_all
  have r3: "hdr_ok ?r3" "hdr_vals ?r3 = (\<lambda>_. [])(''from'' := [f], ''to'' := [to], ''call-id'' := [c])"
    using sets_vals [OF r2(1) v(4), of B "''Call-ID''"] r2(2) k by simp_all
  have r4: "hdr_ok ?r4" "hdr_vals ?r4 = (\<lambda>_. [])(''from'' := [f], ''to'' := [to], ''call-id'' := [c], ''cseq'' := [q])"
    using sets_vals [OF r3(1) v(6), of B "''CSeq''"] r3(2) k by simp_all
  have "dialog_headers B m to r = Inr ?r4"
    using v by (simp add: dialog_headers_def Let_def hdrGet_key [OF m] k)
  then show ?thesis using r4 by (intro exI [of _ ?r4]) simp
qed

lemma response_to_tag:
  assumes B: "boost_ok B" and t: "from_wf t" "findNextIterFromString ''tag='' (cstr (from_params t)) = Some 0" "pvalue_ok toTag"
  shows "SIPFrom_getHeaderParam (from_text t) (cstr ''tag'') [] = Some (False, [])"
    "response_to B (from_text t) toTag = Some (Inr (from_text t @ '';tag='' @ toTag))"
    "SIPFrom_getTag (from_text t @ '';tag='' @ toTag) = Some toTag"
proof -
  have n: "to_lower B ''tag'' = ''tag''" "pname_ok ''tag''" "CHR ''['' \<notin> set ''tag''" "str_of (cstr ''tag'') = Some ''tag''"
  proof -
    have "map ascii_lower ''tag'' = ''tag''" by code_simp
    then show "to_lower B ''tag'' = ''tag''" using B by (simp only: boost_ok_def)
  qed code_simp+
  have ne: "toTag \<noteq> []" "from_text t \<noteq> []" using t(3) by (simp_all add: pvalue_ok_def from_text_def)
  have f: "findNextIterFromString (''tag'' @ ''='') (cstr (from_params t)) = Some 0" using t(2) by simp
  note P = from_add_param [where to_lower = "to_lower B", OF t(1) n(2,3,1) t(3) f, of "[]"]
  show "SIPFrom_getHeaderParam (from_text t) (cstr ''tag'') [] = Some (False, [])"
    using from_access [OF t(1), of "[]" "[]"] f n(4) by (simp add: SIPFrom_getHeaderParam_def SIPFrom_getHeaderParamEx_def)
  show "response_to B (from_text t) toTag = Some (Inr (from_text t @ '';tag='' @ toTag))"
    using P ne by (simp add: response_to_def SIPFrom_setHeaderParam_member_def From_check_empty_def)
  show "SIPFrom_getTag (from_text t @ '';tag='' @ toTag) = Some toTag"
    using P by (simp add: SIPFrom_getTag_def)
qed

text \<open>C20: \<open>createResponse\<close> makes the response of the request: it has the status line asked for,
  the \<open>From\<close>, \<open>Call-ID\<close>, \<open>CSeq\<close>, \<open>Via\<close> and \<open>Record-Route\<close> headers of
  the request, the \<open>To\<close> header with the tag added, no other headers than a contact and the length
  0, and it belongs to the transaction of the request. The request has all of these headers, with a
  \<open>To\<close> header without tag.\<close>

theorem response_matches_request:
  assumes B: "boost_ok B" and m: "hdr_ok m"
    and rq: "m_startLine m \<noteq> []" "requestLineVerify (cstr (m_startLine m)) = Some True"
    and v: "hdr_vals m ''from'' = f # fs" "f \<noteq> []" "hdr_vals m ''call-id'' = c # cs" "c \<noteq> []" "hdr_vals m ''cseq'' = q # qs" "q \<noteq> []"
    and via: "hdr_vals m ''via'' \<noteq> []" "[] \<notin> set (hdr_vals m ''via'')" and rr: "[] \<notin> set (hdr_vals m ''record-route'')"
    and to: "hdr_vals m ''to'' = from_text t # ts" "from_wf t"
      "findNextIterFromString ''tag='' (cstr (from_params t)) = Some 0" "pvalue_ok toTag"
  shows "\<exists>r. SIPMessage_createResponse B m code phrase toTag contact = Some (Inr (m\<lparr>m_isRequest := Some True\<rparr>, r)) \<and>
    hdr_ok r \<and> m_startLine r = response_start code phrase \<and> m_body r = [] \<and>
    hdr_vals r = (\<lambda>_. [])(''from'' := [f], ''to'' := [from_text t @ '';tag='' @ toTag], ''call-id'' := [c], ''cseq'' := [q],
      ''contact'' := (if contact = [] then [] else [contact]), ''via'' := hdr_vals m ''via'',
      ''record-route'' := hdr_vals m ''record-route'', ''content-length'' := [''0'']) \<and>
    SIPMessage_getTransactionId B r None old = SIPMessage_getTransactionId B m None old \<and>
    SIPMessage_getToTag B r = Some toTag"
proof -
  note k = boost_keys [OF B] and T = response_to_tag [OF B to(2-4)]
  let ?m = "m\<lparr>m_isRequest := Some True\<rparr>" and ?to = "from_text t @ '';tag='' @ toTag"
  let ?r0 = "SIPMessage_new\<lparr>m_startLine := response_start code phrase\<rparr>"
  have mv: "hdr_vals ?m = hdr_vals m" "hdr_ok ?m" using m by (simp_all add: hdr_vals_def fun_eq_iff hdr_ok_def hdr_wf_def)
  have r0: "hdr_ok ?r0" "hdr_vals ?r0 = (\<lambda>_. [])"
    by (simp_all add: hdr_ok_def hdr_wf_empty hdr_vals_def SIPMessage_new_def fun_eq_iff)
  obtain r1 where r1: "dialog_headers B ?m ?to ?r0 = Inr r1" "hdr_ok r1" "m_startLine r1 = m_startLine ?r0" "m_body r1 = m_body ?r0"
    "hdr_vals r1 = (\<lambda>_. [])(''from'' := [f], ''to'' := [?to], ''call-id'' := [c], ''cseq'' := [q])"
    using dialog_headers_vals [OF B mv(2) r0, of f fs c cs q qs ?to] v mv(1) by auto
  let ?r2 = "if contact \<noteq> [] then snd (SIPMessage_hdrListAppend B r1 ''Contact'' contact) else r1"
  have r2: "hdr_ok ?r2" "hdr_vals ?r2 = (hdr_vals r1)(''contact'' := (if contact = [] then [] else [contact]))"
    using append_vals [OF r1(2), of contact B "''Contact''"] r1(2,5) k by auto
  obtain r3 where r3: "via_headers B ?m ?r2 = Inr r3" "hdr_ok r3" "hdr_vals r3 = (hdr_vals ?r2)(''via'' := hdr_vals m ''via'')"
    "m_startLine r3 = m_startLine ?r2" "m_body r3 = m_body ?r2"
    using copy_headers_all [OF mv(2) r2(1), of "''via''" B "''Via''" "''Invalid via header''"] mv(1) via k r2(2) r1(5)
    by (auto simp: via_headers_def hdrPresent_vals [OF mv(2)])
  obtain r4 where r4: "record_route_headers B ?m r3 = Inr r4" "hdr_ok r4" "m_startLine r4 = m_startLine r3" "m_body r4 = m_body r3"
    "hdr_vals r4 = (hdr_vals r3)(''record-route'' := hdr_vals m ''record-route'')"
    using copy_headers_all [OF mv(2) r3(2), of "''record-route''" B "''Record-Route''" "''Invalid Record-Route header''"] mv(1) rr k
      r3(3) r2(2) r1(5) by (auto simp: record_route_headers_def)
  let ?r5 = "SIPMessage_commitData (snd (SIPMessage_hdrSet B r4 ''Content-Length'' ''0''))"
  have r5: "hdr_ok ?r5" "hdr_vals ?r5 = (hdr_vals r4)(''content-length'' := [''0''])" "m_startLine ?r5 = response_start code phrase"
    "m_body ?r5 = []"
    using sets_vals [OF r4(2), of "''0''" B "''Content-Length''"] k(8) r4(3-5) r3(3-5) r2(2) r1(3-5)
    by (simp_all add: hdr_ok_def SIPMessage_new_def)
  note vals = r5(2) [unfolded r4(5) r3(3) r2(2) r1(5)]
  have "SIPMessage_isRequest m = Some (Some True, ?m)" using rq by (simp add: SIPMessage_isRequest_def tri_if_def)
  then have "SIPMessage_createResponse B m code phrase toTag contact = Some (Inr (?m, ?r5))"
    using T(1,2) r1(1) r3(1) r4(1) mv v(1,2) to(1)
    by (simp add: SIPMessage_createResponse_def tri_if_def tri_not_def hdrGet_key [OF mv(2)] k from_text_def)
  moreover have "SIPMessage_getTransactionId B ?r5 None old = SIPMessage_getTransactionId B m None old"
    using v via k vals by (intro transaction_id_cong [OF m r5(1)]) auto
  moreover have "SIPMessage_getToTag B ?r5 = Some toTag"
    using vals T(3) by (simp add: SIPMessage_getToTag_def hdrGet_key [OF r5(1)] k)
  ultimately show ?thesis using r5(1,3,4) vals by blast
qed

theorem response_matches_request_witness:
  "\<exists>r. SIPMessage_createResponse boost_model (sample_request ''INVITE'') 180 [] ''x1'' [] =
      Some (Inr ((sample_request ''INVITE'')\<lparr>m_isRequest := Some True\<rparr>, r)) \<and>
    m_startLine r = ''SIP/2.0 180 Ringing'' \<and> hdr_vals r ''via'' = [''SIP/2.0/UDP h;branch=z9hG4bK7''] \<and>
    hdr_vals r ''to'' = [''<sip:b>;tag=x1'']"
proof -
  let ?t = "\<lparr>name_part = [], gap_part = [], from_uri = ''sip:b'', from_params = []\<rparr>"
  let ?m = "sample_request ''INVITE''"
  have "m_startLine ?m = ''INVITE sip:a SIP/2.0''" by (simp add: sample_request_def)
  moreover have "requestLineVerify (cstr ''INVITE sip:a SIP/2.0'') = Some True" "from_wf ?t" "pvalue_ok ''x1''"
    "findNextIterFromString ''tag='' (cstr (from_params ?t)) = Some 0" "response_start 180 [] = ''SIP/2.0 180 Ringing''"
    "from_text ?t = ''<sip:b>''"
    by code_simp+
  moreover have "cseq_text ''17'' ''INVITE'' \<noteq> []" by (simp add: cseq_text_def)
  ultimately show ?thesis
    using response_matches_request [OF boost_model_ok sample_request_vals(1) [of "''INVITE''"], of "''<sip:a>;tag=1''" "[]" "''c@h''" "[]"
        "cseq_text ''17'' ''INVITE''" "[]" ?t "[]" "''x1''" 180 "[]" "[]" "[]"]
    by (auto simp: sample_request_vals)
qed

text \<open>The kind of a message is never taken from the cache; \<open>isResponseTo\<close> looks at the status line
  only when the cached kind is false, so that on a message whose kind was not asked for before it never
  returns true.\<close>

theorem is_response_to_unasked:
  assumes "m_isResponse m = None" "SIPMessage_isResponseTo B m method = Some (r, m')"
  shows "r \<noteq> Some True"
  using assms by (auto simp: SIPMessage_isResponseTo_def tri_if_def tri_not_def bind_eq_Some_conv split: if_splits)

end
