(* ===== verification/SIP_MessageSafe.thy ===== *)
theory SIP_MessageSafe
  imports SIP_Identity
begin

text \<open>
  The functions that tell what kind of message was received and which transaction it belongs to return on
  every message, whatever bytes its start line and headers hold: they never read outside a string.
\<close>

section \<open>Rules on C strings\<close>

lemma cstr_split:
  obtains a rest where "cstr s = a @ NUL # rest" "nul_free a" "length a \<le> length s"
proof
  have *: "NUL \<in> set (cstr s)"
    by (simp add: cstr_def)
  let ?a = "takeWhile (\<lambda>c. c \<noteq> NUL) (cstr s)"
  show "cstr s = ?a @ NUL # tl (dropWhile (\<lambda>c. c \<noteq> NUL) (cstr s))"
    using * hd_dropWhile [of "\<lambda>c. c \<noteq> NUL" "cstr s"] takeWhile_dropWhile_id [of "\<lambda>c. c \<noteq> NUL" "cstr s"]
    by (cases "dropWhile (\<lambda>c. c \<noteq> NUL) (cstr s)") (auto simp: dropWhile_eq_Nil_conv)
  show "nul_free ?a"
    by (auto dest: set_takeWhileD)
  show "length ?a \<le> length s"
    by (simp add: cstr_def takeWhile_append length_takeWhile_le)
qed

lemma lwsFinder_total: "\<exists>n. parse lwsFinder_1 (cstr s) = Some n" "\<exists>n. parse lwsFinder_2 (cstr s) = Some n"
proof -
  obtain a rest where a: "cstr s = a @ NUL # rest" "nul_free a"
    by (rule cstr_split)
  show "\<exists>n. parse lwsFinder_1 (cstr s) = Some n" "\<exists>n. parse lwsFinder_2 (cstr s) = Some n"
    unfolding lwsFinder_1_def lwsFinder_2_def a(1)
    using refinesD [OF refines_WhileNot [OF safe_ABNF_SIP_LWS] a(2), of _ rest] by simp_all
qed

lemma str_of_drop_total: "n \<le> length s \<Longrightarrow> \<exists>r. str_of (drop n (cstr s)) = Some r"
  by (simp add: str_of_def cstr_def)

lemma rule_total:
  assumes "abnf_rule r"
  shows "\<exists>n \<le> length s. parse r (cstr s) = Some n"
proof -
  obtain a rest where a: "cstr s = a @ NUL # rest" "nul_free a" "length a \<le> length s"
    by (rule cstr_split)
  then show ?thesis
    using abnf_rule.contract [OF assms a(2)] by (metis le_trans)
qed

lemma evaluate_total: "abnf_rule r \<Longrightarrow> \<exists>b. ABNFEvaluate r (cstr s) = Some b"
proof -
  assume "abnf_rule r"
  then obtain n where "n \<le> length s" "parse r (cstr s) = Some n"
    using rule_total by blast
  then show ?thesis
    by (cases "drop n (cstr s)") (auto simp: ABNFEvaluate_def deref_def cstr_def)
qed

text \<open>The search for a parameter and its value, which \<open>SIPVia\<close> and \<open>SIPFrom\<close> share.\<close>

lemma param_search_total:
  assumes "abnf_rule r"
  shows "\<exists>k n. findNextIterFromString needle (cstr s) = Some k \<and> parse r (drop k (cstr s)) = Some n"
proof -
  obtain a rest where a: "cstr s = a @ NUL # rest" "nul_free a"
    by (rule cstr_split)
  obtain k where k: "find_next needle 0 0 (cstr s) = Some k" "k \<le> length a"
    using find_next_total [OF a(2), of needle 0 0] a(1) by auto
  have "drop k (cstr s) = drop k a @ NUL # rest" "nul_free (drop k a)"
    using a k(2) by (auto dest: in_set_dropD)
  with k show ?thesis
    using abnf_rule.contract [OF assms, of "drop k a"] by (auto simp: findNextIterFromString_def)
qed

section \<open>Headers\<close>

lemma via_param_total: "nul_free name \<Longrightarrow> \<exists>b v. SIPVia_getParam via (cstr name) value = Some (b, v)"
  using param_search_total [OF safe_ABNF_SIP_pvalue, of "name @ ''=''" via] str_of_cstr [of name "[]"]
  by (auto simp: SIPVia_getParam_def cstr_def)

lemma params_finder_rule: "abnf_rule uriParamsFinder"
  unfolding uriParamsFinder_def by (rule refines_rule [OF refines_WhileNot [OF safe_ABNFSIPURIParameters]])

lemma from_addr_spec_total:
  "\<exists>r. from_addr_spec hdr = Some r \<and> (\<forall>addr p. r = Some (addr, p) \<longrightarrow> p \<le> length addr)"
proof -
  obtain a rest where a: "cstr hdr = a @ NUL # rest" "nul_free a"
    by (rule cstr_split)
  obtain ts n where ts: "ABNFSIPFromSpec_parseTokens (cstr hdr) = Some (ts, n)"
    using from_tok.tokens_cstr [OF a(2), of rest] a(1) by metis
  obtain k where k: "parse ABNF_SIP_addr_spec (cstr (ts ! 0)) = Some k"
    using rule_total [OF safe_ABNF_SIP_addr_spec] by blast
  obtain p where "parse uriParamsFinder (cstr (take k (cstr (ts ! 0)))) = Some p" "p \<le> length (take k (cstr (ts ! 0)))"
    using rule_total [OF params_finder_rule] by blast
  with ts k show ?thesis
    by (simp add: from_addr_spec_def Let_def)
qed

lemma header_params_total: "\<exists>b v. SIPFrom_getHeaderParams hdr value = Some (b, v)"
proof -
  have "abnf_rule raquotFinder_1"
    unfolding raquotFinder_1_def by (rule refines_rule [OF refines_WhileNot [OF safe_ABNF_SIP_RAQUOT]])
  then obtain n where n: "n \<le> length hdr" "parse raquotFinder_1 (cstr hdr) = Some n"
    using rule_total by blast
  obtain r where r: "from_addr_spec hdr = Some r" "\<forall>addr p. r = Some (addr, p) \<longrightarrow> p \<le> length addr"
    using from_addr_spec_total by blast
  have "\<exists>v. str_of (drop p (cstr addr)) = Some v" if "r = Some (addr, p)" for addr p
    using that r(2) str_of_drop_total by blast
  then show ?thesis
    using n r str_of_drop_total [OF n(1)] by (auto simp: SIPFrom_getHeaderParams_def split: option.splits)
qed

lemma tag_param_total: "\<exists>b v. SIPFrom_getHeaderParam hdr (cstr ''tag'') old = Some (b, v)"
proof -
  obtain b v where "SIPFrom_getHeaderParams hdr [] = Some (b, v)"
    using header_params_total by blast
  then show ?thesis
    using param_search_total [OF safe_ABNF_SIP_pvalue, of "''tag=''" v] str_of_cstr [of "''tag''" "[]"]
    by (auto simp: SIPFrom_getHeaderParam_def SIPFrom_getHeaderParamEx_def cstr_def)
qed

lemma tag_total: "\<exists>v. SIPFrom_getTag hdr = Some v"
  using tag_param_total [of hdr "[]"] by (auto simp: SIPFrom_getTag_def)

lemma tags_total: "\<exists>v. SIPMessage_getToTag B m = Some v" "\<exists>v. SIPMessage_getFromTag B m = Some v"
  using tag_total by (auto simp: SIPMessage_getToTag_def SIPMessage_getFromTag_def Let_def)

lemma cseq_method_read_total: "\<exists>b v. SIPCSeq_getMethod up cseq method = Some (b, v)"
proof -
  have "abnf_rule lwsFinder_2"
    unfolding lwsFinder_2_def by (rule refines_rule [OF refines_WhileNot [OF safe_ABNF_SIP_LWS]])
  then obtain n where "n \<le> length cseq" "parse lwsFinder_2 (cstr cseq) = Some n"
    using rule_total by blast
  then show ?thesis
    using str_of_drop_total [of n cseq] by (auto simp: SIPCSeq_getMethod_def)
qed

lemma transaction_id_total: "\<exists>b v. SIPMessage_getTransactionId B m method old = Some (b, v)"
proof -
  let ?q = "SIPMessage_hdrGet B m ''CSeq'' 0" and ?via = "SIPMessage_hdrGet B m ''Via'' 0"
  obtain b u where "SIPCSeq_getMethod (to_upper B) ?q [] = Some (b, u)"
    using cseq_method_read_total by blast
  moreover obtain c n where "SIPCSeq_getNumber ?q [] = Some (c, n)"
    using lwsFinder_total(1) [of ?q] by (cases "SIPCSeq_getNumber ?q []") (auto simp: SIPCSeq_getNumber_def)
  moreover obtain d v where "SIPVia_getBranch ?via [] = Some (d, v)"
    using via_param_total [of "''branch''" ?via "[]"] by (auto simp: SIPVia_getBranch_def)
  ultimately show ?thesis
    by (auto simp: SIPMessage_getTransactionId_def Let_def split: option.split)
qed

section \<open>Start lines\<close>

lemma verify_total: "\<exists>b. requestLineVerify (cstr s) = Some b" "\<exists>b. statusLineVerify (cstr s) = Some b"
  unfolding requestLineVerify_def statusLineVerify_def
  by (rule evaluate_total [OF safe_ABNFSIPRequestLine], rule evaluate_total [OF safe_ABNFSIPStatusLine])

lemma isRequest_total: "\<exists>t x. SIPMessage_isRequest m = Some (t, m\<lparr>m_isRequest := x\<rparr>)"
proof -
  obtain r s where "requestLineVerify (cstr (m_startLine m)) = Some r" "statusLineVerify (cstr (m_startLine m)) = Some s"
    using verify_total by blast
  then have "SIPMessage_isRequest m =
      Some (if m_startLine m = [] then Some False else if r then Some True else if s then Some False else None,
        m\<lparr>m_isRequest := (if m_startLine m \<noteq> [] \<and> (r \<or> s) then Some r else m_isRequest m)\<rparr>)"
    by (simp add: SIPMessage_isRequest_def tri_if_def)
  then show ?thesis
    by blast
qed

lemma isResponse_total: "m_startLine m \<noteq> [] \<Longrightarrow> \<exists>t m'. SIPMessage_isResponse m = Some (Inr (t, m')) \<and> m_startLine m' = m_startLine m"
  using verify_total [of "m_startLine m"] by (auto simp: SIPMessage_isResponse_def tri_if_def)

text \<open>The least number of characters that a sequence of rules takes.\<close>

definition takes_min :: "rule \<Rightarrow> nat \<Rightarrow> bool" where
  "takes_min r k \<longleftrightarrow> abnf_rule r \<and> (\<forall>s. nul_free s \<longrightarrow> consumed r s = 0 \<and> (isOptional r \<longrightarrow> k = 0) \<or> k \<le> consumed r s)"

lemma takes_minI: "abnf_rule r \<Longrightarrow> \<not> isOptional r \<Longrightarrow> k \<le> 1 \<Longrightarrow> takes_min r k" "abnf_rule r \<Longrightarrow> takes_min r 0"
  by (auto simp: takes_min_def)

lemma seq_pieces_min:
  assumes "seq_pieces rs s = Some ps" "nul_free s" "list_all2 takes_min rs ks"
  shows "sum_list ks \<le> length (concat ps)"
  using assms
proof (induction rs arbitrary: s ps ks)
  case (Cons r rs)
  then obtain k ks' where ks: "ks = k # ks'" "takes_min r k" "list_all2 takes_min rs ks'"
    by (auto simp: list_all2_Cons1)
  let ?n = "consumed r s"
  obtain qs where qs: "seq_pieces rs (drop ?n s) = Some qs" "ps = take ?n s # qs" "?n \<noteq> 0 \<or> isOptional r"
    using Cons.prems(1) by (auto simp: Let_def split: if_splits)
  have "sum_list ks' \<le> length (concat qs)"
    using Cons.IH [OF qs(1) _ ks(3)] Cons.prems(2) by (auto dest: in_set_dropD)
  moreover have "k \<le> ?n" "?n \<le> length s"
    using ks(2) qs(3) Cons.prems(2) abnf_rule.consumed_le [of r s] by (auto simp: takes_min_def)
  ultimately show ?case
    by (simp add: ks(1) qs(2))
qed simp

lemma version_rule: "takes_min ABNFSIPVersion 7"
proof -
  let ?d = "ABNFLoopUntil ABNFCharDigit ABNFLoopExitIfNul 1 20"
  let ?rs = "[ABNFStringLiteral ''SIP/'', ?d, ABNFCharComparison CHR ''.'', ?d]"
  have safe: "\<forall>r \<in> set ?rs. abnf_rule r"
    by (auto intro!: rule_safe intro: abnf_rule_imp_ne)
  have "takes_min (ABNFStringLiteral ''SIP/'') 4"
    using refines_consumed [OF refines_string_literal [of "''SIP/''" nocase_eq]] safe
    by (auto simp: takes_min_def ABNFStringLiteral_def)
  then have min: "list_all2 takes_min ?rs [4, 1, 1, 1]"
    using safe by (auto intro!: takes_minI simp: ABNFLoopUntil_def ABNFCharComparison_def char_rule_def)
  have "consumed ABNFSIPVersion s = seq_take ?rs s" if "nul_free s" for s
    using refines_consumed [OF refines_lr_sequence [OF safe] that] by (simp add: ABNFSIPVersion_def Let_def ABNFLRSequence4_def)
  moreover have "isOptional ABNFSIPVersion = False"
    by (simp add: ABNFSIPVersion_def Let_def)
  ultimately show ?thesis
    using seq_pieces_min [OF _ _ min] safe_ABNFSIPVersion
    by (auto simp: takes_min_def seq_take_def split: option.split)
qed

lemma status_line_length:
  assumes "statusLineVerify (cstr s) = Some True" "s \<noteq> []" "hd s \<noteq> NUL"
  shows "9 \<le> length s"
proof -
  obtain a rest where a: "cstr s = a @ NUL # rest" "nul_free a" "length a \<le> length s"
    by (rule cstr_split)
  have ne: "a \<noteq> []"
    using a(1) assms(2,3) by (cases s) (auto simp: cstr_def)
  let ?rs = "[ABNFSIPVersion, ABNFCharSpace, ABNFSIPStatusCode, ABNFCharSpace, ABNFSIPReasonPhrase, ABNFLROptional ABNFCharCRLF]"
  let ?n = "consumed ABNFSIPStatusLine a"
  have n: "parse ABNFSIPStatusLine (cstr s) = Some ?n" "?n \<le> length a"
    using abnf_rule.contract [OF safe_ABNFSIPStatusLine a(2)] a(1) consumed_eqI [of ABNFSIPStatusLine a] by (auto simp: cstr_def)
  have "deref (drop ?n (cstr s)) = Some NUL"
    using assms(1) n(1) by (simp add: statusLineVerify_def ABNFEvaluate_def bind_eq_Some_conv)
  moreover have "deref (drop ?n (cstr s)) \<noteq> Some NUL" if "drop ?n a = c # cs" for c cs
    using that a in_set_dropD [of c ?n a] n(2) by (auto simp: deref_def)
  ultimately have whole: "?n = length a"
    using n(2) by (cases "drop ?n a") auto
  then obtain ps where ps: "seq_pieces ?rs a = Some ps" "?n = length (concat ps)"
    using statline_tok.consumed_seq [OF a(2)] ne by (auto simp: seq_take_def split: option.splits)
  have "list_all2 takes_min ?rs [7, 1, 1, 0, 0, 0]"
    using version_rule statline_tok.safe
    by (auto intro!: takes_minI simp: ABNFSIPStatusCode_def ABNFCharSpace_def ABNFCharComparison_def char_rule_def)
  from seq_pieces_min [OF ps(1) a(2) this] show ?thesis
    using ps(2) whole a(3) by simp
qed

section \<open>What a message is\<close>

lemma status_digit_total:
  assumes "m_startLine m \<noteq> []" "hd (m_startLine m) \<noteq> NUL" "SIPMessage_isResponse m = Some (Inr (t, m'))"
    "t \<noteq> None \<or> 8 \<le> length (m_startLine m)"
  shows "\<exists>u m''. status_digit P m = Some (Inr (u, m''))"
proof -
  have same: "m_startLine m' = m_startLine m"
    using isResponse_total [OF assms(1)] assms(3) by auto
  have "8 \<le> length (m_startLine m)" if "t = Some True"
  proof -
    have "statusLineVerify (cstr (m_startLine m)) = Some True"
      using assms(1,3) that by (auto simp: SIPMessage_isResponse_def tri_if_def bind_eq_Some_conv split: if_splits)
    then show ?thesis
      using status_line_length assms(1,2) by fastforce
  qed
  then show ?thesis
    using assms(3,4) same by (cases t) (auto simp: status_digit_def string_index_def tri_if_def tri_not_def)
qed

text \<open>The class of the status code is read from the ninth character also when the start line is neither
  a request line nor a status line, which is outside the string when that is shorter.\<close>

theorem status_of_unknown_line:
  "\<exists>m. m_startLine m = ''HELLO'' \<and> SIPMessage_is2xx m = None"
proof -
  have "statusLineVerify (cstr ''HELLO'') = Some False" "requestLineVerify (cstr ''HELLO'') = Some False"
    by code_simp+
  then have "SIPMessage_is2xx (SIPMessage_new\<lparr>m_startLine := ''HELLO''\<rparr>) = None"
    by (simp add: SIPMessage_isNxx_def SIPMessage_isResponseFamily_def status_digit_def SIPMessage_isResponse_def tri_if_def
        tri_not_def string_index_def)
  then show ?thesis
    by (intro exI [of _ "SIPMessage_new\<lparr>m_startLine := ''HELLO''\<rparr>"]) simp
qed

text \<open>C13: whatever bytes the headers of a received message hold, finding out which transaction it
  belongs to (the identifier, with the CSeq and Via headers), the tags of its dialog and whether it is a
  request returns without reading outside a string. Asking whether it is a response returns when there is a
  start line and throws when there is none. Asking for the class of the status code returns when the
  message is known to be a response or not, and the start line does not begin with NUL.\<close>

theorem message_reads_safe:
  "(\<exists>b ident. SIPMessage_getTransactionId B m method old = Some (b, ident)) \<and>
   (\<exists>v w. SIPMessage_getToTag B m = Some v \<and> SIPMessage_getFromTag B m = Some w) \<and>
   (\<exists>t x. SIPMessage_isRequest m = Some (t, m\<lparr>m_isRequest := x\<rparr>)) \<and>
   (m_startLine m = [] \<longrightarrow> (\<exists>e. SIPMessage_isResponse m = Some (Inl e))) \<and>
   (m_startLine m \<noteq> [] \<longrightarrow>
      (\<exists>t m'. SIPMessage_isResponse m = Some (Inr (t, m')) \<and>
         (t \<noteq> None \<and> hd (m_startLine m) \<noteq> NUL \<longrightarrow>
            (\<exists>u v w. SIPMessage_is1xx m = Some (Inr u) \<and> SIPMessage_is2xx m = Some (Inr v) \<and>
               SIPMessage_isErrorResponse m = Some (Inr w)))))"
proof -
  have "\<exists>u v w. SIPMessage_is1xx m = Some (Inr u) \<and> SIPMessage_is2xx m = Some (Inr v) \<and>
      SIPMessage_isErrorResponse m = Some (Inr w)"
    if line: "m_startLine m \<noteq> []" "hd (m_startLine m) \<noteq> NUL" and r: "SIPMessage_isResponse m = Some (Inr (t, m'))" and t: "t \<noteq> None" for t m'
  proof -
    have "\<exists>u. status_digit P m = Some (Inr u)" for P
      using status_digit_total [OF line r, of P] t by blast
    then show ?thesis
      by (simp add: SIPMessage_isNxx_def SIPMessage_isResponseFamily_def SIPMessage_isErrorResponse_def)
  qed
  moreover have "m_startLine m = [] \<Longrightarrow> \<exists>e. SIPMessage_isResponse m = Some (Inl e)"
    by (simp add: SIPMessage_isResponse_def tri_if_def)
  ultimately show ?thesis
    using isResponse_total [of m] transaction_id_total [of B m "method" old] tags_total [of B m] isRequest_total [of m] by metis
qed

theorem message_reads_safe_witness:
  "\<exists>t u v. SIPMessage_getTransactionId boost_model (sample_request ''INVITE'') None [] = Some t \<and>
     SIPMessage_isResponse (sample_request ''INVITE'') = Some (Inr u) \<and> SIPMessage_is1xx (sample_request ''INVITE'') = Some (Inr v)"
proof -
  let ?m = "sample_request ''INVITE''"
  have "m_startLine ?m \<noteq> []" "hd (m_startLine ?m) \<noteq> NUL"
    by (simp_all add: sample_request_def)
  moreover have "statusLineVerify (cstr (m_startLine ?m)) = Some False" "requestLineVerify (cstr (m_startLine ?m)) = Some True"
    by code_simp+
  then have "SIPMessage_isResponse ?m = Some (Inr (Some False, ?m\<lparr>m_isResponse := Some False\<rparr>))"
    using calculation(1) by (simp add: SIPMessage_isResponse_def tri_if_def)
  ultimately show ?thesis
    using message_reads_safe [of boost_model ?m None "[]"] by auto
qed

section \<open>When a response can be made\<close>

text \<open>What \<open>createResponse\<close> asks of a request: it is not known to be a response and has the headers
  that a response takes over.\<close>

definition can_respond :: "boost_fns \<Rightarrow> sip_message \<Rightarrow> bool" where
  "can_respond B m \<longleftrightarrow>
     (case SIPMessage_isRequest m of Some (t, _) \<Rightarrow> \<not> tri_if (tri_not t) | None \<Rightarrow> False) \<and>
     list_all (\<lambda>name. SIPMessage_hdrGet B m name 0 \<noteq> []) [''To'', ''From'', ''Call-ID'', ''CSeq''] \<and>
     SIPMessage_hdrPresent B m ''Via'' \<noteq> 0 \<and>
     list_all (\<lambda>name. list_all (\<lambda>i. SIPMessage_hdrGet B m name i \<noteq> []) [0 ..< SIPMessage_hdrPresent B m name])
       [''Via'', ''Record-Route'']"

lemma same_line [simp]:
  "m_startLine (snd (SIPMessage_hdrSet B m name value)) = m_startLine m"
  "m_startLine (snd (SIPMessage_hdrListAppend B m name value)) = m_startLine m"
  "m_startLine (SIPMessage_commitData m) = m_startLine m"
  "m_properties (snd (SIPMessage_hdrSet B m name value)) = m_properties m"
  "m_properties (snd (SIPMessage_hdrListAppend B m name value)) = m_properties m"
  "m_properties (SIPMessage_commitData m) = m_properties m"
  by (simp_all add: SIPMessage_hdrSet_def SIPMessage_hdrListAppend_def SIPMessage_commitData_def new_header_def Let_def
      split: option.split)

lemma sum_bind_assoc: "sum_bind (sum_bind x f) g = sum_bind x (\<lambda>y. sum_bind (f y) g)"
  by (cases x) simp_all

text \<open>A step that makes a message with a given start line under a condition, and throws otherwise.\<close>

definition outcome :: "bool \<Rightarrow> string \<Rightarrow> parser_exception + sip_message \<Rightarrow> bool" where
  "outcome P line x \<longleftrightarrow> (case x of Inl _ \<Rightarrow> \<not> P | Inr r \<Rightarrow> P \<and> m_startLine r = line \<and> m_properties r = [])"

lemma outcome_bind:
  assumes "outcome P line x" "\<And>r. m_startLine r = line \<Longrightarrow> m_properties r = [] \<Longrightarrow> outcome Q line (f r)"
  shows "outcome (P \<and> Q) line (sum_bind x f)"
  using assms by (cases x) (auto simp: outcome_def split: sum.splits)

lemma outcome_copy:
  "m_startLine r = line \<Longrightarrow> m_properties r = [] \<Longrightarrow>
   outcome (list_all (\<lambda>i. SIPMessage_hdrGet B m name i \<noteq> []) is) line (copy_headers B m name err is r)"
proof (induction "is" arbitrary: r)
  case (Cons i "is")
  then show ?case
    using Cons.IH [of "snd (SIPMessage_hdrListAppend B r name (SIPMessage_hdrGet B m name i))"]
    by (cases "SIPMessage_hdrGet B m name i = []") (simp_all add: Let_def, simp add: outcome_def)
qed (simp add: outcome_def)

lemma outcome_dialog:
  "m_startLine r = line \<Longrightarrow> m_properties r = [] \<Longrightarrow>
   outcome (SIPMessage_hdrGet B m ''Call-ID'' 0 \<noteq> [] \<and> SIPMessage_hdrGet B m ''CSeq'' 0 \<noteq> []) line (dialog_headers B m to r)"
  by (simp add: dialog_headers_def Let_def outcome_def)

lemma outcome_via:
  "m_startLine r = line \<Longrightarrow> m_properties r = [] \<Longrightarrow>
   outcome (SIPMessage_hdrPresent B m ''Via'' \<noteq> 0 \<and>
     list_all (\<lambda>i. SIPMessage_hdrGet B m ''Via'' i \<noteq> []) [0 ..< SIPMessage_hdrPresent B m ''Via'']) line (via_headers B m r)"
  using outcome_copy [of r line] by (simp add: via_headers_def Let_def) (simp add: outcome_def)

lemma same_kind_reads [simp]:
  "SIPMessage_hdrGet B (m\<lparr>m_isRequest := x\<rparr>) name i = SIPMessage_hdrGet B m name i"
  "SIPMessage_hdrPresent B (m\<lparr>m_isRequest := x\<rparr>) name = SIPMessage_hdrPresent B m name"
  by (simp_all add: SIPMessage_hdrGet_def SIPMessage_hdrPresent_def)

text \<open>\<open>createResponse\<close> never reads outside a string. It makes a response exactly when the request
  has what is asked of it, and throws otherwise.\<close>

lemma createResponse_cases:
  "if can_respond B m
   then \<exists>m' r. SIPMessage_createResponse B m code phrase [] [] = Some (Inr (m', r)) \<and>
     m_startLine r = response_start code phrase \<and> m_properties r = []
   else \<exists>e. SIPMessage_createResponse B m code phrase [] [] = Some (Inl e)"
proof -
  obtain t x where t: "SIPMessage_isRequest m = Some (t, m\<lparr>m_isRequest := x\<rparr>)"
    using isRequest_total by blast
  obtain b tag where tag: "SIPFrom_getHeaderParam (SIPMessage_hdrGet B m ''To'' 0) (cstr ''tag'') [] = Some (b, tag)"
    using tag_param_total by blast
  let ?m = "m\<lparr>m_isRequest := x\<rparr>" and ?line = "response_start code phrase"
  let ?made = "sum_bind (dialog_headers B ?m (SIPMessage_hdrGet B m ''To'' 0) (SIPMessage_new\<lparr>m_startLine := ?line\<rparr>)) (\<lambda>r.
      sum_bind (via_headers B ?m r) (record_route_headers B ?m))"
  have o: "outcome ((SIPMessage_hdrGet B m ''Call-ID'' 0 \<noteq> [] \<and> SIPMessage_hdrGet B m ''CSeq'' 0 \<noteq> []) \<and>
      (SIPMessage_hdrPresent B m ''Via'' \<noteq> 0 \<and>
       list_all (\<lambda>i. SIPMessage_hdrGet B m ''Via'' i \<noteq> []) [0 ..< SIPMessage_hdrPresent B m ''Via'']) \<and>
      list_all (\<lambda>i. SIPMessage_hdrGet B m ''Record-Route'' i \<noteq> []) [0 ..< SIPMessage_hdrPresent B m ''Record-Route'']) ?line ?made"
    using outcome_dialog [of _ ?line B ?m] outcome_via [of _ ?line B ?m] outcome_copy [of _ ?line B ?m "''Record-Route''"]
    by (intro outcome_bind) (simp_all add: record_route_headers_def SIPMessage_new_def)
  show ?thesis
  proof (cases "tri_if (tri_not t) \<or> SIPMessage_hdrGet B m ''To'' 0 = [] \<or> SIPMessage_hdrGet B m ''From'' 0 = []")
    case True
    then show ?thesis
      by (cases "SIPMessage_hdrGet B m ''To'' 0 = []") (auto simp: can_respond_def t tag SIPMessage_createResponse_def)
  next
    case False
    then have "SIPMessage_createResponse B m code phrase [] [] =
        Some (sum_bind ?made (\<lambda>r. Inr (?m, SIPMessage_commitData (snd (SIPMessage_hdrSet B r ''Content-Length'' ''0'')))))"
      by (simp add: SIPMessage_createResponse_def t tag response_to_def sum_bind_assoc)
    then show ?thesis
      using o False by (cases ?made) (auto simp: can_respond_def t outcome_def)
  qed
qed

lemma can_respond_property [simp]: "can_respond B (SIPMessage_setProperty m property value) = can_respond B m"
proof -
  obtain t x where t: "SIPMessage_isRequest m = Some (t, m\<lparr>m_isRequest := x\<rparr>)"
    using isRequest_total by blast
  let ?p = "AList.update property value (m_properties m)"
  obtain m' where "SIPMessage_isRequest (m\<lparr>m_properties := ?p\<rparr>) = Some (t, m')"
    using t verify_total [of "m_startLine m"] by (auto simp: SIPMessage_isRequest_def split: if_splits)
  moreover have "SIPMessage_hdrGet B (m\<lparr>m_properties := ?p\<rparr>) name i = SIPMessage_hdrGet B m name i"
    "SIPMessage_hdrPresent B (m\<lparr>m_properties := ?p\<rparr>) name = SIPMessage_hdrPresent B m name" for name i
    by (simp_all add: SIPMessage_hdrGet_def SIPMessage_hdrPresent_def)
  ultimately show ?thesis
    using t by (simp add: SIPMessage_setProperty_def can_respond_def)
qed

end
