(* ===== verification/SIP_Fsm.thy ===== *)
theory SIP_Fsm
  imports SIP_MessageSafe
begin

text \<open>
  The transaction state machines of \<^verbatim>\<open>src/sipfsm\<close>: \<open>SIPFsm\<close> with its timers, and the
  machines \<open>SIPIct\<close>, \<open>SIPIst\<close>, \<open>SIPNict\<close> and \<open>SIPNist\<close>. A transaction is a
  record of the members of \<open>SIPTransaction\<close> and of its machine; a transaction set is a parent with
  its branches, one for each tag of the \<open>To\<close> header. A timer is armed with the time at which it
  fires. What the machines do to the outside (write a message, call the transaction user) is recorded in
  a list of outputs; \<^const>\<open>None\<close> is an exception.
\<close>

section \<open>Messages and timers\<close>

text \<open>A message with what the machines ask of it.\<close>

record fmsg =
  f_msg :: sip_message
  f_isRequest :: "bool option"
  f_isAck :: bool
  f_isResponse :: "bool option"
  f_is1xx :: "bool option"
  f_is2xx :: "bool option"
  f_isError :: "bool option"
  f_toTag :: string
  f_timeout :: "nat option"
  f_reliableTimeout :: "nat option"
  f_expires :: "nat option"
  f_queued :: bool

text \<open>What the machines ask of a message. The class of a status code is asked of responses only, where
  the functions return; where one would throw, for a start line that is empty or no status line, the
  answer is not used and stands as unknown. \<open>num\<close> is the conversion of a text to a number.\<close>

definition tri_of :: "(parser_exception + bool option \<times> sip_message) option \<Rightarrow> bool option" where
  "tri_of r = (case r of Some (Inr (t, _)) \<Rightarrow> t | _ \<Rightarrow> None)"

definition num_property :: "(string \<Rightarrow> nat) \<Rightarrow> sip_message \<Rightarrow> string \<Rightarrow> nat option" where
  "num_property num m property =
     (case SIPMessage_getProperty m property [] of (found, v) \<Rightarrow> if found \<and> v \<noteq> [] then Some (num v) else None)"

definition fsm_view :: "(string \<Rightarrow> nat) \<Rightarrow> boost_fns \<Rightarrow> sip_message \<Rightarrow> fmsg option" where
  "fsm_view num B m = do {
     (isRequest, _) \<leftarrow> SIPMessage_isRequest m;
     tag \<leftarrow> SIPMessage_getToTag B m;
     let expires = SIPMessage_hdrGet B m ''Expires'' 0;
     Some \<lparr>f_msg = m, f_isRequest = isRequest, f_isAck = SIPMessage_isRequest_method B m ''ACK'',
       f_isResponse = tri_of (SIPMessage_isResponse m), f_is1xx = tri_of (SIPMessage_is1xx m),
       f_is2xx = tri_of (SIPMessage_is2xx m), f_isError = tri_of (SIPMessage_isErrorResponse m), f_toTag = tag,
       f_timeout = num_property num m ''transaction-timeout'',
       f_reliableTimeout = num_property num m ''reliable-transport-transaction-timeout'',
       f_expires = (if expires = [] then None else Some (num expires)),
       f_queued = fst (SIPMessage_getProperty m ''queued-request'' [])\<rparr>
   }"

datatype timer =
    TimerA | TimerB | TimerC | TimerD | TimerE | TimerF | TimerG | TimerH | TimerI | TimerJ | TimerK
  | TimerClientExpires | TimerMaxLifetime | TimerRequestThrottle

record timer_props =
  timerT1 :: nat
  timerT2 :: nat
  timerT4 :: nat
  timer_value :: "timer \<Rightarrow> nat"

fun SIPTransactionTimers_value :: "timer \<Rightarrow> nat" where
  "SIPTransactionTimers_value TimerA = 500"
| "SIPTransactionTimers_value TimerB = 500 * 64"
| "SIPTransactionTimers_value TimerC = 3 * 60000 + 1000"
| "SIPTransactionTimers_value TimerD = 32 * 1000 + 1000"
| "SIPTransactionTimers_value TimerE = 500"
| "SIPTransactionTimers_value TimerF = 500 * 64"
| "SIPTransactionTimers_value TimerG = 500"
| "SIPTransactionTimers_value TimerH = 64 * 500"
| "SIPTransactionTimers_value TimerI = 5 * 1000"
| "SIPTransactionTimers_value TimerJ = 64 * 500"
| "SIPTransactionTimers_value TimerK = 5 * 1000"
| "SIPTransactionTimers_value _ = 0"

definition SIPTransactionTimers :: timer_props where
  "SIPTransactionTimers =
     \<lparr>timerT1 = 500, timerT2 = 4 * 1000, timerT4 = 5 * 1000, timer_value = SIPTransactionTimers_value\<rparr>"

section \<open>Transactions\<close>

datatype trn_type = TYPE_ICT | TYPE_IST | TYPE_NICT | TYPE_NIST

abbreviation TRN_STATE_IDLE :: nat where "TRN_STATE_IDLE \<equiv> 0"
abbreviation TRN_STATE_TERMINATED :: nat where "TRN_STATE_TERMINATED \<equiv> 255"
abbreviation CLIENT_TRYING :: nat where "CLIENT_TRYING \<equiv> 1"
abbreviation CLIENT_PROCEEDING :: nat where "CLIENT_PROCEEDING \<equiv> 2"
abbreviation CLIENT_COMPLETED :: nat where "CLIENT_COMPLETED \<equiv> 3"
abbreviation SERVER_QUEUED :: nat where "SERVER_QUEUED \<equiv> 1"
abbreviation IST_PROCEEDING :: nat where "IST_PROCEEDING \<equiv> 2"
abbreviation IST_COMPLETED :: nat where "IST_COMPLETED \<equiv> 3"
abbreviation IST_CONFIRMED :: nat where "IST_CONFIRMED \<equiv> 4"
abbreviation NIST_TRYING :: nat where "NIST_TRYING \<equiv> 2"
abbreviation NIST_PROCEEDING :: nat where "NIST_PROCEEDING \<equiv> 3"
abbreviation NIST_COMPLETED :: nat where "NIST_COMPLETED \<equiv> 4"

record trn =
  t_state :: nat
  t_hasTerminated :: bool
  t_hasSent2xx :: bool
  t_timers :: "timer \<rightharpoonup> nat"
  t_request :: "fmsg option"
  t_response :: "fmsg option"
  t_ack :: "sip_message option"
  t_timerAValue :: nat
  t_timerEValue :: nat
  t_timerEMultiplier :: nat
  t_timerGValue :: nat
  t_queuedMsg :: "fmsg option"
  t_queuedCounter :: nat
  t_hasId :: bool

definition new_trn :: trn where
  "new_trn = \<lparr>t_state = TRN_STATE_IDLE, t_hasTerminated = False, t_hasSent2xx = False, t_timers = Map.empty,
     t_request = None, t_response = None, t_ack = None, t_timerAValue = 0, t_timerEValue = 0,
     t_timerEMultiplier = 0, t_timerGValue = 0, t_queuedMsg = None, t_queuedCounter = 0, t_hasId = False\<rparr>"

datatype who = Parent | Branch string

text \<open>A timeout and a transport error are reported with the response that was made for them.\<close>

datatype fsm_output =
    InformTU who fmsg
  | TimeoutTU who "sip_message option"
  | TransportErrorTU sip_message
  | WriteMessage who fmsg
  | WriteAck who sip_message
  | RequestHandler fmsg
  | SendCancel sip_message
  | StopConnection
  | BlockIst
  | TerminateCallback
  | RemoveTransaction

record trn_set =
  s_type :: trn_type
  s_parent :: trn
  s_branches :: "(string \<times> trn) list"
  s_now :: nat
  s_initial :: "fmsg option"
  s_transport :: bool
  s_hasTU :: bool
  s_hasTerminateCallback :: bool
  s_out :: "fsm_output list"

definition new_set :: "trn_type \<Rightarrow> trn_set" where
  "new_set ty = \<lparr>s_type = ty, s_parent = new_trn, s_branches = [], s_now = 0, s_initial = None,
     s_transport = False, s_hasTU = False, s_hasTerminateCallback = False, s_out = []\<rparr>"

text \<open>What the machines get from their surroundings: the timer values, whether the transport is
  reliable, the handlers of the dispatcher, the address a request came from, and the conversion of a text
  to a number. The delay that the throttle handler returns depends on the time.\<close>

record fsm_env =
  e_boost :: boost_fns
  e_timers :: timer_props
  e_reliable :: bool
  e_dispatch :: bool
  e_throttle :: "(nat \<Rightarrow> fmsg \<Rightarrow> nat) option"
  e_requestHandler :: bool
  e_remotePort :: string
  e_remoteAddress :: string
  e_num :: "string \<Rightarrow> nat"

fun trn_of :: "trn_set \<Rightarrow> who \<Rightarrow> trn" where
  "trn_of S Parent = s_parent S"
| "trn_of S (Branch b) = (case map_of (s_branches S) b of Some x \<Rightarrow> x | None \<Rightarrow> new_trn)"

fun upd :: "trn_set \<Rightarrow> who \<Rightarrow> (trn \<Rightarrow> trn) \<Rightarrow> trn_set" where
  "upd S Parent f = S\<lparr>s_parent := f (s_parent S)\<rparr>"
| "upd S (Branch b) f = S\<lparr>s_branches := AList.update b (f (trn_of S (Branch b))) (s_branches S)\<rparr>"

definition emit :: "fsm_output \<Rightarrow> trn_set \<Rightarrow> trn_set" where
  "emit ev S = S\<lparr>s_out := s_out S @ [ev]\<rparr>"

definition getState :: "trn_set \<Rightarrow> who \<Rightarrow> nat" where
  "getState S w = t_state (trn_of S w)"

definition setState :: "nat \<Rightarrow> trn_set \<Rightarrow> who \<Rightarrow> trn_set option" where
  "setState st S w =
     (if getState S w = st then Some S
      else if getState S w \<noteq> TRN_STATE_TERMINATED then Some (upd S w (\<lambda>x. x\<lparr>t_state := st\<rparr>))
      else None)"

definition arm :: "timer \<Rightarrow> nat \<Rightarrow> trn_set \<Rightarrow> who \<Rightarrow> trn_set" where
  "arm t delay S w = upd S w (\<lambda>x. x\<lparr>t_timers := (t_timers x)(t \<mapsto> s_now S + delay)\<rparr>)"

text \<open>\<open>startTimerA\<close> to \<open>startTimerK\<close>: 0 stands for the configured value.\<close>

definition startTimer :: "fsm_env \<Rightarrow> timer \<Rightarrow> nat \<Rightarrow> trn_set \<Rightarrow> who \<Rightarrow> trn_set" where
  "startTimer E t expire S w = arm t (if expire = 0 then timer_value (e_timers E) t else expire) S w"

definition cancelTimer :: "timer \<Rightarrow> trn_set \<Rightarrow> who \<Rightarrow> trn_set" where
  "cancelTimer t S w = upd S w (\<lambda>x. x\<lparr>t_timers := (t_timers x)(t := None)\<rparr>)"

definition cancelAllTimers :: "trn_set \<Rightarrow> who \<Rightarrow> trn_set" where
  "cancelAllTimers S w = upd S w (\<lambda>x. x\<lparr>t_timers := Map.empty\<rparr>)"

definition informTU :: "trn_set \<Rightarrow> who \<Rightarrow> fmsg \<Rightarrow> trn_set" where
  "informTU S w m = (if s_hasTU S \<and> getState S w \<noteq> TRN_STATE_TERMINATED then emit (InformTU w m) S else S)"

definition getActiveBranchCount :: "trn_set \<Rightarrow> nat" where
  "getActiveBranchCount S = length (filter (\<lambda>(b, x). t_state x \<noteq> TRN_STATE_TERMINATED) (s_branches S))"

text \<open>\<open>onTerminate\<close> does something for the invite server only: the identifier is blocked.\<close>

definition onTerminate :: "trn_set \<Rightarrow> who \<Rightarrow> trn_set" where
  "onTerminate S w = (if s_type S = TYPE_IST \<and> t_hasId (trn_of S w) then emit BlockIst S else S)"

text \<open>\<open>terminate\<close> of a branch, of all branches, and of the parent. The state is set first, which
  does not fail.\<close>

definition mark_terminated :: "trn_set \<Rightarrow> who \<Rightarrow> trn_set" where
  "mark_terminated S w =
     (let S = upd S w (\<lambda>x. x\<lparr>t_state := TRN_STATE_TERMINATED\<rparr>);
          S = onTerminate (cancelAllTimers S w) w
      in upd S w (\<lambda>x. x\<lparr>t_hasTerminated := True\<rparr>))"

definition terminate_branch :: "trn_set \<Rightarrow> string \<Rightarrow> trn_set" where
  "terminate_branch S b = (if t_hasTerminated (trn_of S (Branch b)) then S else mark_terminated S (Branch b))"

definition terminate_parent :: "trn_set \<Rightarrow> trn_set" where
  "terminate_parent S =
     (if t_hasTerminated (s_parent S) then S
      else let S = mark_terminated S Parent;
               S = foldl terminate_branch S (map fst (s_branches S));
               S = (if s_hasTerminateCallback S then emit TerminateCallback S else S)
           in emit RemoveTransaction S)"

fun terminate :: "trn_set \<Rightarrow> who \<Rightarrow> trn_set" where
  "terminate S Parent = terminate_parent S"
| "terminate S (Branch b) = terminate_branch S b"

text \<open>\<open>getParent\<close>: the parent of a branch.\<close>

definition on_parent :: "who \<Rightarrow> (trn_set \<Rightarrow> who \<Rightarrow> trn_set) \<Rightarrow> trn_set \<Rightarrow> trn_set" where
  "on_parent w f S = (if w = Parent then S else f S Parent)"

definition handleDelayedTerminate :: "trn_set \<Rightarrow> who \<Rightarrow> trn_set" where
  "handleDelayedTerminate S w =
     (let S = terminate (terminate S w) w in
      if w \<noteq> Parent \<and> getActiveBranchCount S = 0 then terminate S Parent else S)"

text \<open>The response that \<open>createResponse\<close> makes of a request, as a message and as what the machines
  ask of it. Its exceptions go to the caller. The kind that the request caches is not kept.\<close>

definition create_response :: "fsm_env \<Rightarrow> int \<Rightarrow> string \<Rightarrow> fmsg \<Rightarrow> sip_message option" where
  "create_response E code phrase request =
     (case SIPMessage_createResponse (e_boost E) (f_msg request) code phrase [] [] of
        Some (Inr (_, response)) \<Rightarrow> Some response
      | _ \<Rightarrow> None)"

definition make_response :: "fsm_env \<Rightarrow> int \<Rightarrow> string \<Rightarrow> fmsg \<Rightarrow> fmsg option" where
  "make_response E code phrase request = do {
     response \<leftarrow> create_response E code phrase request;
     fsm_view (e_num E) (e_boost E) response
   }"

section \<open>The invite client transaction\<close>

definition RELIABLE_TIMER_B_VALUE :: nat where
  "RELIABLE_TIMER_B_VALUE = 5000"

definition SIPIct_onSendMessage :: "fsm_env \<Rightarrow> trn_set \<Rightarrow> who \<Rightarrow> fmsg \<Rightarrow> (bool \<times> trn_set) option" where
  "SIPIct_onSendMessage E S w m =
     (if getState S w = TRN_STATE_IDLE then do {
        let S = arm TimerMaxLifetime 300000 S w;
        let S = upd S w (\<lambda>x. x\<lparr>t_request := Some m\<rparr>);
        S \<leftarrow> setState CLIENT_TRYING S w;
        let a = (case f_timeout m of Some n \<Rightarrow> n div 64 | None \<Rightarrow> timer_value (e_timers E) TimerA);
        let S = upd S w (\<lambda>x. x\<lparr>t_timerAValue := a\<rparr>);
        let S = (if \<not> e_reliable E then startTimer E TimerB (a * 64) (startTimer E TimerA a S w) w
                 else startTimer E TimerB RELIABLE_TIMER_B_VALUE S w);
        let S = (case f_expires m of Some n \<Rightarrow> arm TimerClientExpires (n * 1000 mod 2 ^ 64) S w | None \<Rightarrow> S);
        Some (True, S)
      }
      else Some (True, S))"

text \<open>The ACK for an error response: the copy of the request with method and \<open>To\<close> replaced. Without
  a space in the start line the function returns with the bare copy.\<close>

definition SIPIct_makeAck :: "boost_fns \<Rightarrow> sip_message \<Rightarrow> sip_message \<Rightarrow> (bool \<times> sip_message) option" where
  "SIPIct_makeAck B request response = do {
     let ack = SIPMessage_assign SIPMessage_new request;
     case string_find (m_startLine request) '' '' of
       None \<Rightarrow> Some (False, ack)
     | Some methodPos \<Rightarrow> do {
         rest \<leftarrow> str_of (drop methodPos (cstr (m_startLine request)));
         let ack = ack\<lparr>m_startLine := ''ACK'' @ rest\<rparr>;
         let ack = snd (SIPMessage_hdrSet B ack ''To'' (SIPMessage_hdrGet B response ''To'' 0));
         (_, number) \<leftarrow> SIPCSeq_getNumber (SIPMessage_hdrGet B request ''CSeq'' 0) [];
         let ack = snd (SIPMessage_hdrSet B ack ''CSeq'' (number @ '' ACK''));
         let ack = ack\<lparr>m_body := []\<rparr>;
         let ack = snd (SIPMessage_hdrRemove B ack ''Content-Length'');
         let ack = snd (SIPMessage_hdrRemove B ack ''Content-Type'');
         Some (True, SIPMessage_commitData ack)
       }
   }"

definition SIPIct_handleSendAck :: "fsm_env \<Rightarrow> trn_set \<Rightarrow> who \<Rightarrow> fmsg \<Rightarrow> bool \<Rightarrow> trn_set option" where
  "SIPIct_handleSendAck E S w m withTimer =
     (if getState S w = TRN_STATE_TERMINATED then Some S
      else do {
        S \<leftarrow> setState CLIENT_COMPLETED S w;
        (complete, ack) \<leftarrow> (case t_ack (trn_of S w) of
            Some ack \<Rightarrow> Some (True, ack)
          | None \<Rightarrow> do {
              request \<leftarrow> t_request (trn_of S w);
              SIPIct_makeAck (e_boost E) (f_msg request) (f_msg m)
            });
        let S = upd S w (\<lambda>x. x\<lparr>t_ack := Some ack\<rparr>);
        if \<not> complete then Some S
        else if e_reliable E then setState TRN_STATE_TERMINATED (emit (WriteAck w ack) S) w
        else Some (if withTimer then emit (WriteAck w ack) (startTimer E TimerD 0 S w) else S)
      })"

text \<open>A 2xx and an error response, in the first states.\<close>

definition ict_2xx :: "trn_set \<Rightarrow> who \<Rightarrow> fmsg \<Rightarrow> trn_set option" where
  "ict_2xx S w m = do {
     let S = on_parent w (cancelTimer TimerClientExpires) (cancelTimer TimerClientExpires S w);
     S \<leftarrow> setState TRN_STATE_TERMINATED (informTU S w m) w;
     if w \<noteq> Parent then setState TRN_STATE_TERMINATED S Parent else Some S
   }"

definition ict_error :: "fsm_env \<Rightarrow> trn_set \<Rightarrow> who \<Rightarrow> fmsg \<Rightarrow> trn_set option" where
  "ict_error E S w m = do {
     let S = on_parent w (cancelTimer TimerClientExpires) (cancelTimer TimerClientExpires S w);
     S \<leftarrow> setState CLIENT_COMPLETED S w;
     SIPIct_handleSendAck E (informTU S w m) w m True
   }"

definition ict_trying :: "fsm_env \<Rightarrow> trn_set \<Rightarrow> who \<Rightarrow> fmsg \<Rightarrow> trn_set option" where
  "ict_trying E S w m = do {
     let S = cancelTimer TimerB (cancelTimer TimerA S w) w;
     let S = on_parent w (cancelTimer TimerB) (on_parent w (cancelTimer TimerA) S);
     if tri_if (f_is1xx m) then do {
       S \<leftarrow> setState CLIENT_PROCEEDING S w;
       S \<leftarrow> (if w \<noteq> Parent \<and> getState S Parent < CLIENT_PROCEEDING then setState CLIENT_PROCEEDING S Parent
             else Some S);
       Some (informTU S w m)
     }
     else if tri_if (f_is2xx m) then ict_2xx S w m
     else if tri_if (f_isError m) then ict_error E S w m
     else Some S
   }"

definition ict_switch :: "fsm_env \<Rightarrow> trn_set \<Rightarrow> who \<Rightarrow> fmsg \<Rightarrow> trn_set option" where
  "ict_switch E S w m =
     (if getState S w = TRN_STATE_IDLE \<or> getState S w = CLIENT_TRYING then ict_trying E S w m
      else if getState S w = CLIENT_PROCEEDING then
        (if tri_if (f_is1xx m) then Some (informTU S w m)
         else if tri_if (f_is2xx m) then ict_2xx S w m
         else if tri_if (f_isError m) then ict_error E S w m
         else Some S)
      else if getState S w = CLIENT_COMPLETED then
        (if tri_if (f_isError m) then SIPIct_handleSendAck E S w m False else Some S)
      else Some S)"

definition SIPIct_onReceivedMessage :: "fsm_env \<Rightarrow> trn_set \<Rightarrow> who \<Rightarrow> fmsg \<Rightarrow> trn_set option" where
  "SIPIct_onReceivedMessage E S w m =
     (if tri_if (tri_not (f_isResponse m)) \<or> getState S w = TRN_STATE_TERMINATED then Some S
      else do {
        S \<leftarrow> ict_switch E S w m;
        Some (if getState S w = TRN_STATE_TERMINATED then
                let S = terminate S w in
                if w \<noteq> Parent \<and> getActiveBranchCount S = 0 then terminate S Parent else S
              else S)
      })"

definition SIPIct_handleRetransmitInvite :: "fsm_env \<Rightarrow> trn_set \<Rightarrow> who \<Rightarrow> trn_set option" where
  "SIPIct_handleRetransmitInvite E S w =
     (if getState S w = CLIENT_TRYING then do {
        request \<leftarrow> t_request (trn_of S w);
        let S = emit (WriteMessage w request) S;
        let S = upd S w (\<lambda>x. x\<lparr>t_timerAValue := t_timerAValue x * 2\<rparr>);
        Some (startTimer E TimerA (t_timerAValue (trn_of S w)) S w)
      }
      else Some S)"

text \<open>\<open>handleTimeoutICT\<close> and \<open>handleTimeoutNICT\<close> are the same. A branch has the initial request of
  its parent. The response is made whether or not it is reported.\<close>

definition handleTimeout :: "fsm_env \<Rightarrow> trn_set \<Rightarrow> who \<Rightarrow> trn_set option" where
  "handleTimeout E S w = do {
     response \<leftarrow> (case s_initial S of
         Some request \<Rightarrow> if s_transport S then map_option Some (create_response E 408 [] request) else Some None
       | None \<Rightarrow> Some None);
     let S = (if s_hasTU S \<and> getState S w \<noteq> TRN_STATE_TERMINATED then emit (TimeoutTU w response) S else S);
     Some (if s_transport S \<and> e_reliable E then emit StopConnection S else S)
   }"

definition SIPIct_handleInviteTimeout :: "fsm_env \<Rightarrow> trn_set \<Rightarrow> who \<Rightarrow> trn_set option" where
  "SIPIct_handleInviteTimeout E S w = do {
     S \<leftarrow> handleTimeout E (cancelTimer TimerClientExpires (cancelTimer TimerA S w) w) w;
     Some (terminate S w)
   }"

text \<open>The CANCEL that is sent when the invitation expires.\<close>

definition SIPIct_makeCancel :: "boost_fns \<Rightarrow> sip_message \<Rightarrow> sip_message option" where
  "SIPIct_makeCancel B request = do {
     let cancel = SIPMessage_copy request;
     (_, line) \<leftarrow> SIPRequestLine_setMethod_member (m_startLine cancel) (Some (cstr ''CANCEL''));
     let cancel = SIPMessage_setBody (cancel\<lparr>m_startLine := line\<rparr>) [];
     let cancel = snd (SIPMessage_hdrSet B cancel ''Content-Length'' ''0'');
     (_, cseq) \<leftarrow> SIPCSeq_setMethod (SIPMessage_hdrGet B cancel ''CSeq'' 0) (cstr ''CANCEL'');
     Some (SIPMessage_commitData (snd (SIPMessage_hdrSet B cancel ''CSeq'' cseq)))
   }"

definition SIPIct_handleExpiresTimeout :: "fsm_env \<Rightarrow> trn_set \<Rightarrow> who \<Rightarrow> trn_set option" where
  "SIPIct_handleExpiresTimeout E S w =
     (if \<not> e_dispatch E then Some S
      else do {
        request \<leftarrow> t_request (trn_of S w);
        cancel \<leftarrow> SIPIct_makeCancel (e_boost E) (f_msg request);
        Some (emit (SendCancel cancel) S)
      })"

section \<open>The non-invite client transaction\<close>

definition RELIABLE_TIMER_F_VALUE :: nat where
  "RELIABLE_TIMER_F_VALUE = 5000"

definition SIPNict_onSendMessage :: "fsm_env \<Rightarrow> trn_set \<Rightarrow> who \<Rightarrow> fmsg \<Rightarrow> (bool \<times> trn_set) option" where
  "SIPNict_onSendMessage E S w m =
     (if getState S w = TRN_STATE_IDLE then do {
        let S = arm TimerMaxLifetime 300000 S w;
        let S = upd S w (\<lambda>x. x\<lparr>t_request := Some m\<rparr>);
        S \<leftarrow> setState CLIENT_TRYING S w;
        let e = (case f_timeout m of Some n \<Rightarrow> n div 64 | None \<Rightarrow> timer_value (e_timers E) TimerE);
        let S = upd S w (\<lambda>x. x\<lparr>t_timerEValue := e\<rparr>);
        Some (True,
          if \<not> e_reliable E then startTimer E TimerF (e * 64) (startTimer E TimerE e S w) w
          else startTimer E TimerF (case f_reliableTimeout m of Some n \<Rightarrow> n | None \<Rightarrow> RELIABLE_TIMER_F_VALUE) S w)
      }
      else Some (False, S))"

definition nict_cancel :: "trn_set \<Rightarrow> who \<Rightarrow> trn_set" where
  "nict_cancel S w = cancelTimer TimerF (cancelTimer TimerE S w) w"

text \<open>A final response in the first states. \<open>allBranchesCompleted\<close> is asked of the transaction
  itself: a branch has no branches.\<close>

definition allBranchesCompleted :: "trn_set \<Rightarrow> who \<Rightarrow> bool" where
  "allBranchesCompleted S w = (w = Parent \<longrightarrow> list_all (\<lambda>(b, x). t_state x \<ge> CLIENT_COMPLETED) (s_branches S))"

definition nict_stop :: "trn_set \<Rightarrow> who \<Rightarrow> bool \<Rightarrow> trn_set option" where
  "nict_stop S w is2xx =
     (if w = Parent \<and> \<not> is2xx then Some (nict_cancel S w)
      else if w \<noteq> Parent \<and> is2xx then setState CLIENT_COMPLETED (nict_cancel (nict_cancel S w) Parent) Parent
      else if w \<noteq> Parent \<and> \<not> is2xx then
        (let S = nict_cancel S w in
         if length (s_branches S) = 1 then setState CLIENT_COMPLETED (nict_cancel S Parent) Parent else Some S)
      else Some S)"

definition nict_final :: "fsm_env \<Rightarrow> trn_set \<Rightarrow> who \<Rightarrow> fmsg \<Rightarrow> trn_set option" where
  "nict_final E S w m = do {
     let is2xx = tri_if (f_is2xx m);
     S \<leftarrow> nict_stop S w is2xx;
     S \<leftarrow> setState CLIENT_COMPLETED S w;
     let S = informTU S w m;
     if \<not> e_reliable E then Some (startTimer E TimerK 0 S w)
     else do {
       S \<leftarrow> setState TRN_STATE_TERMINATED S w;
       if (is2xx \<or> allBranchesCompleted S w) \<and> w \<noteq> Parent then setState TRN_STATE_TERMINATED S Parent else Some S
     }
   }"

definition nict_switch :: "fsm_env \<Rightarrow> trn_set \<Rightarrow> who \<Rightarrow> fmsg \<Rightarrow> trn_set option" where
  "nict_switch E S w m =
     (if getState S w = TRN_STATE_IDLE \<or> getState S w = CLIENT_TRYING then
        (if tri_if (f_is1xx m) then do {
           S \<leftarrow> setState CLIENT_PROCEEDING S w;
           S \<leftarrow> (if w \<noteq> Parent \<and> getState S Parent < CLIENT_PROCEEDING then setState CLIENT_PROCEEDING S Parent
                 else Some S);
           Some (informTU S w m)
         }
         else nict_final E S w m)
      else if getState S w = CLIENT_PROCEEDING then
        (if tri_if (f_is1xx m) then Some (informTU S w m) else nict_final E S w m)
      else Some S)"

definition SIPNict_onReceivedMessage :: "fsm_env \<Rightarrow> trn_set \<Rightarrow> who \<Rightarrow> fmsg \<Rightarrow> trn_set option" where
  "SIPNict_onReceivedMessage E S w m =
     (if tri_if (tri_not (f_isResponse m)) \<or> getState S w = TRN_STATE_TERMINATED \<or> getState S w = CLIENT_COMPLETED
      then Some S
      else do {
        S \<leftarrow> nict_switch E S w m;
        let S = (if getState S w = TRN_STATE_TERMINATED then terminate S w else S);
        Some (if w \<noteq> Parent \<and> getState S Parent = TRN_STATE_TERMINATED then terminate S Parent else S)
      })"

definition SIPNict_handleRetransmitRequest :: "fsm_env \<Rightarrow> trn_set \<Rightarrow> who \<Rightarrow> trn_set option" where
  "SIPNict_handleRetransmitRequest E S w =
     (if getState S w = TRN_STATE_TERMINATED then Some S
      else if getState S w \<le> CLIENT_PROCEEDING then do {
        request \<leftarrow> t_request (trn_of S w);
        let S = emit (WriteMessage w request) S;
        let S = upd S w (\<lambda>x. x\<lparr>t_timerEMultiplier := (if t_timerEMultiplier x = 0 then 2 else 4)\<rparr>);
        let x = trn_of S w;
        let T = e_timers E;
        let e = (if getState S w \<noteq> CLIENT_PROCEEDING
                 then if t_timerEValue x * t_timerEMultiplier x > timerT2 T then timerT2 T
                      else timerT1 T * t_timerEMultiplier x
                 else timerT2 T);
        let S = upd S w (\<lambda>x. x\<lparr>t_timerEValue := e\<rparr>);
        Some (startTimer E TimerE e S w)
      }
      else Some S)"

definition SIPNict_handleRequestTimeout :: "fsm_env \<Rightarrow> trn_set \<Rightarrow> who \<Rightarrow> trn_set option" where
  "SIPNict_handleRequestTimeout E S w =
     (if getState S w = TRN_STATE_TERMINATED \<or> getState S w = CLIENT_COMPLETED then Some S
      else do {
        S \<leftarrow> handleTimeout E (nict_cancel (cancelTimer TimerK S w) w) w;
        Some (terminate S w)
      })"

section \<open>The server transactions\<close>

text \<open>What both servers do to a request before it is handed to the request handler: the address it came
  from is put into the top \<open>Via\<close> header, when that asks for it.\<close>

definition fix_rport :: "fsm_env \<Rightarrow> sip_message \<Rightarrow> (parser_exception + sip_message) option" where
  "fix_rport E m = (let B = e_boost E in do {
     (_, topVia, m) \<leftarrow> msgPopTopVia B m [];
     (ok, rport) \<leftarrow> SIPVia_getRPort (to_lower B) topVia [];
     via \<leftarrow> (if \<not> ok then Some (Inr topVia)
            else do {
              r \<leftarrow> SIPVia_setParam (to_lower B) topVia (cstr ''rport'') (cstr (e_remotePort E));
              case r of
                Inl e \<Rightarrow> Some (Inl e)
              | Inr (_, topVia) \<Rightarrow>
                  map_option (\<lambda>r. sum_bind r (\<lambda>(_, v). Inr v))
                    (SIPVia_setParam (to_lower B) topVia (cstr ''received'') (cstr (e_remoteAddress E)))
            });
     Some (sum_bind via (\<lambda>via. Inr (snd (msgAddVia B m via))))
   })"

text \<open>The machine and the transaction hold the request they were given, not a copy: what is done to it
  is seen by all of them.\<close>

definition share :: "fmsg \<Rightarrow> fmsg \<Rightarrow> trn_set \<Rightarrow> who \<Rightarrow> trn_set" where
  "share old new S w =
     (let follow = (\<lambda>x. if x = Some old then Some new else x);
          S = upd S w (\<lambda>x. x\<lparr>t_request := follow (t_request x), t_queuedMsg := follow (t_queuedMsg x)\<rparr>)
      in S\<lparr>s_initial := follow (s_initial S)\<rparr>)"

text \<open>\<open>dispatch()->requestHandler()\<close>, when there is one; an exception of the header functions goes to
  the caller.\<close>

definition call_requestHandler :: "fsm_env \<Rightarrow> trn_set \<Rightarrow> who \<Rightarrow> fmsg \<Rightarrow> trn_set option" where
  "call_requestHandler E S w m =
     (if \<not> e_requestHandler E then Some S
      else case fix_rport E (f_msg m) of
        Some (Inr m') \<Rightarrow> let new = m\<lparr>f_msg := m'\<rparr> in Some (emit (RequestHandler new) (share m new S w))
      | _ \<Rightarrow> None)"

text \<open>A request that waits has a property that tells it from a retransmission.\<close>

definition mark_queued :: "fmsg \<Rightarrow> fmsg" where
  "mark_queued m = m\<lparr>f_msg := SIPMessage_setProperty (f_msg m) ''queued-request'' ''1'', f_queued := True\<rparr>"

definition queue_request :: "trn_set \<Rightarrow> who \<Rightarrow> fmsg \<Rightarrow> trn_set option" where
  "queue_request S w m =
     setState SERVER_QUEUED (upd (share m (mark_queued m) S w) w (\<lambda>x. x\<lparr>t_queuedMsg := Some (mark_queued m)\<rparr>)) w"

text \<open>The delay that the throttle handler asks for.\<close>

definition throttle_delay :: "fsm_env \<Rightarrow> trn_set \<Rightarrow> fmsg \<Rightarrow> nat" where
  "throttle_delay E S m = (case e_throttle E of None \<Rightarrow> 0 | Some f \<Rightarrow> f (s_now S) m)"

definition QUEUE_RETRY_MAX :: nat where
  "QUEUE_RETRY_MAX = 3"

text \<open>The functions below take \<open>send\<close>, the function \<open>sendResponse\<close> of the transaction, as an
  argument.\<close>

definition queued_request ::
    "(trn_set \<Rightarrow> fmsg \<Rightarrow> trn_set option) \<Rightarrow> fsm_env \<Rightarrow> trn_set \<Rightarrow> who \<Rightarrow> fmsg \<Rightarrow> (bool \<times> trn_set) option" where
  "queued_request send E S w m =
     (if getState S w \<noteq> SERVER_QUEUED then Some (False, S)
      else if \<not> f_queued m then Some (True, S)
      else let S = upd S w (\<lambda>x. x\<lparr>t_queuedCounter := t_queuedCounter x + 1\<rparr>) in
        if t_queuedCounter (trn_of S w) > QUEUE_RETRY_MAX then do {
          queued \<leftarrow> t_queuedMsg (trn_of S w);
          response \<leftarrow> make_response E 503 ''Resource/Channels Depleted'' queued;
          S \<leftarrow> send S response;
          Some (True, S)
        }
        else Some (False, S))"

definition first_request :: "trn_set \<Rightarrow> who \<Rightarrow> fmsg \<Rightarrow> trn_set" where
  "first_request S w m =
     (if getState S w = TRN_STATE_IDLE
      then arm TimerMaxLifetime 300000 (upd S w (\<lambda>x. x\<lparr>t_request := Some m\<rparr>)) w else S)"

definition ist_first ::
    "(trn_set \<Rightarrow> fmsg \<Rightarrow> trn_set option) \<Rightarrow> fsm_env \<Rightarrow> trn_set \<Rightarrow> who \<Rightarrow> fmsg \<Rightarrow> trn_set option" where
  "ist_first send E S w m = do {
     let S = first_request S w m;
     let delay = throttle_delay E S m;
     if delay \<noteq> 0 then do {
       S \<leftarrow> (if getState S w = TRN_STATE_IDLE then do {
              S \<leftarrow> queue_request S w m;
              response \<leftarrow> make_response E 100 ''Allocating Channel'' (mark_queued m);
              send S response
            }
            else Some S);
       Some (arm TimerRequestThrottle delay S w)
     }
     else do {
       S \<leftarrow> setState IST_PROCEEDING S w;
       call_requestHandler E S w m
     }
   }"

definition SIPIst_onReceivedMessage ::
    "(trn_set \<Rightarrow> fmsg \<Rightarrow> trn_set option) \<Rightarrow> fsm_env \<Rightarrow> trn_set \<Rightarrow> who \<Rightarrow> fmsg \<Rightarrow> trn_set option" where
  "SIPIst_onReceivedMessage send E S w m = do {
     let S = upd S w (\<lambda>x. x\<lparr>t_hasId := True\<rparr>);
     (done, S) \<leftarrow> queued_request send E S w m;
     if done then Some S
     else if tri_if (f_isRequest m) \<and> (getState S w = TRN_STATE_IDLE \<or> getState S w = SERVER_QUEUED)
     then ist_first send E S w m
     else if getState S w = IST_COMPLETED \<and> f_isAck m then
       (let S = cancelTimer TimerH S w in
        if \<not> e_reliable E then do {
          S \<leftarrow> setState IST_CONFIRMED S w;
          Some (startTimer E TimerI 0 (cancelTimer TimerG S w) w)
        }
        else do {
          S \<leftarrow> setState TRN_STATE_TERMINATED S w;
          Some (terminate S w)
        })
     else if getState S w = IST_COMPLETED \<and> tri_if (f_isRequest m) then
       Some (case t_response (trn_of S w) of Some r \<Rightarrow> emit (WriteMessage w r) S | None \<Rightarrow> S)
     else Some S
   }"

definition SIPIst_onSendMessage :: "fsm_env \<Rightarrow> trn_set \<Rightarrow> who \<Rightarrow> fmsg \<Rightarrow> (bool \<times> trn_set) option" where
  "SIPIst_onSendMessage E S w m =
     (if tri_if (tri_not (f_isResponse m)) then Some (False, S)
      else let S = upd S w (\<lambda>x. x\<lparr>t_response := Some m\<rparr>) in
        if getState S w \<le> IST_PROCEEDING then
          if tri_if (f_is1xx m) then Some (True, S)
          else if tri_if (f_is2xx m) then do {
            S \<leftarrow> setState TRN_STATE_TERMINATED (upd S w (\<lambda>x. x\<lparr>t_hasSent2xx := True\<rparr>)) w;
            Some (True, terminate S w)
          }
          else do {
            S \<leftarrow> setState IST_COMPLETED S w;
            let S = (if \<not> e_reliable E
                     then startTimer E TimerG 0 (upd S w (\<lambda>x. x\<lparr>t_timerGValue := timer_value (e_timers E) TimerG\<rparr>)) w
                     else S);
            Some (True, startTimer E TimerH 0 S w)
          }
        else Some (True, S))"

definition SIPIst_handleRetransmitResponse :: "fsm_env \<Rightarrow> trn_set \<Rightarrow> who \<Rightarrow> trn_set" where
  "SIPIst_handleRetransmitResponse E S w =
     (case t_response (trn_of S w) of
        Some r \<Rightarrow>
          if getState S w = IST_COMPLETED then
            let S = emit (WriteMessage w r) S; g = t_timerGValue (trn_of S w) * 2; T2 = timerT2 (e_timers E);
                S = upd S w (\<lambda>x. x\<lparr>t_timerGValue := (if g > T2 then T2 else g)\<rparr>)
            in startTimer E TimerG (t_timerGValue (trn_of S w)) S w
          else S
      | None \<Rightarrow> S)"

definition SIPIst_handleACKTimeout :: "trn_set \<Rightarrow> who \<Rightarrow> trn_set" where
  "SIPIst_handleACKTimeout S w = terminate S w"

definition nist_first :: "fsm_env \<Rightarrow> trn_set \<Rightarrow> who \<Rightarrow> fmsg \<Rightarrow> trn_set option" where
  "nist_first E S w m = do {
     let S = first_request S w m;
     let delay = throttle_delay E S m;
     if delay \<noteq> 0 then do {
       S \<leftarrow> (if getState S w = TRN_STATE_IDLE then queue_request S w m else Some S);
       Some (arm TimerRequestThrottle delay S w)
     }
     else do {
       S \<leftarrow> setState NIST_TRYING S w;
       call_requestHandler E S w m
     }
   }"

definition SIPNist_onReceivedMessage ::
    "(trn_set \<Rightarrow> fmsg \<Rightarrow> trn_set option) \<Rightarrow> fsm_env \<Rightarrow> trn_set \<Rightarrow> who \<Rightarrow> fmsg \<Rightarrow> trn_set option" where
  "SIPNist_onReceivedMessage send E S w m = do {
     (done, S) \<leftarrow> queued_request send E S w m;
     if done then Some S
     else if getState S w = TRN_STATE_IDLE \<or> getState S w = SERVER_QUEUED then nist_first E S w m
     else if tri_if (f_isRequest m) then
       Some (case t_response (trn_of S w) of Some r \<Rightarrow> emit (WriteMessage w r) S | None \<Rightarrow> S)
     else Some S
   }"

definition SIPNist_onSendMessage :: "fsm_env \<Rightarrow> trn_set \<Rightarrow> who \<Rightarrow> fmsg \<Rightarrow> (bool \<times> trn_set) option" where
  "SIPNist_onSendMessage E S w m =
     (if tri_if (tri_not (f_isResponse m)) then Some (False, S)
      else let S = upd S w (\<lambda>x. x\<lparr>t_response := Some m\<rparr>) in
        if getState S w \<le> NIST_PROCEEDING then
          if tri_if (f_is1xx m) then do {
            S \<leftarrow> setState NIST_PROCEEDING S w;
            Some (True, S)
          }
          else if \<not> e_reliable E then do {
            S \<leftarrow> setState NIST_COMPLETED (startTimer E TimerJ 0 S w) w;
            Some (True, S)
          }
          else Some (True, terminate S w)
        else Some (True, S))"

section \<open>Responses\<close>

lemma nul_line_verifies: "s \<noteq> [] \<Longrightarrow> hd s = NUL \<Longrightarrow> requestLineVerify (cstr s) = Some True"
proof -
  assume s: "s \<noteq> []" "hd s = NUL"
  then have "parse ABNFSIPRequestLine (cstr s) = Some 0"
    using abnf_rule.contract [OF safe_ABNFSIPRequestLine, of "[]"] by (cases s) (auto simp: cstr_def)
  with s show ?thesis
    by (cases s) (simp_all add: requestLineVerify_def ABNFEvaluate_def deref_def cstr_def)
qed

text \<open>A message that is known to be a response answers all that the machines ask.\<close>

lemma response_reads_total:
  assumes "m_startLine m \<noteq> []" "SIPMessage_isRequest m = Some (Some False, m')"
  shows "\<exists>x. SIPMessage_isResponse m = Some (Inr (Some True, x))" "\<exists>u. SIPMessage_is1xx m = Some (Inr u)"
    "\<exists>u. SIPMessage_is2xx m = Some (Inr u)" "\<exists>u. SIPMessage_isErrorResponse m = Some (Inr u)"
proof -
  have v: "requestLineVerify (cstr (m_startLine m)) = Some False" "statusLineVerify (cstr (m_startLine m)) = Some True"
    using assms verify_total [of "m_startLine m"] by (auto simp: SIPMessage_isRequest_def tri_if_def split: if_splits)
  then have "hd (m_startLine m) \<noteq> NUL"
    using nul_line_verifies assms(1) by fastforce
  moreover have r: "SIPMessage_isResponse m = Some (Inr (Some True, m\<lparr>m_isResponse := Some True\<rparr>))"
    using v assms(1) by (simp add: SIPMessage_isResponse_def tri_if_def)
  ultimately have "\<exists>u. status_digit P m = Some (Inr u)" for P
    using status_digit_total [OF assms(1)] by blast
  then show "\<exists>x. SIPMessage_isResponse m = Some (Inr (Some True, x))" "\<exists>u. SIPMessage_is1xx m = Some (Inr u)"
    "\<exists>u. SIPMessage_is2xx m = Some (Inr u)" "\<exists>u. SIPMessage_isErrorResponse m = Some (Inr u)"
    using r by (simp_all add: SIPMessage_isNxx_def SIPMessage_isResponseFamily_def SIPMessage_isErrorResponse_def)
qed

lemma view_total: "\<exists>v. fsm_view num B m = Some v \<and> f_msg v = m"
  using isRequest_total [of m] tags_total(1) [of B m] by (auto simp: fsm_view_def Let_def)

lemma create_response_cases:
  "if can_respond (e_boost E) (f_msg m)
   then \<exists>r. create_response E code phrase m = Some r \<and> m_startLine r = response_start code phrase \<and> m_properties r = []
   else create_response E code phrase m = None"
  using createResponse_cases [of "e_boost E" "f_msg m" code phrase] by (auto simp: create_response_def split: if_splits)

lemma make_response_cases:
  obtains r v where "can_respond (e_boost E) (f_msg m)" "make_response E code phrase m = Some v"
      "fsm_view (e_num E) (e_boost E) r = Some v" "m_startLine r = response_start code phrase" "\<not> f_queued v"
  | "\<not> can_respond (e_boost E) (f_msg m)" "make_response E code phrase m = None"
proof (cases "can_respond (e_boost E) (f_msg m)")
  case True
  then obtain r where r: "create_response E code phrase m = Some r" "m_startLine r = response_start code phrase" "m_properties r = []"
    using create_response_cases [of E m code phrase] by auto
  obtain v where v: "fsm_view (e_num E) (e_boost E) r = Some v"
    using view_total by blast
  then have "\<not> f_queued v"
    using r(3) by (auto simp: fsm_view_def SIPMessage_getProperty_def bind_eq_Some_conv Let_def)
  then show ?thesis
    using that(1) [of v r] True r v by (simp add: make_response_def)
next
  case False
  then show ?thesis
    using that(2) create_response_cases [of E m code phrase] by (simp add: make_response_def)
qed

lemma view_of_line:
  assumes "fsm_view num B r = Some v" "statusLineVerify (cstr (m_startLine r)) = Some True" "8 < length (m_startLine r)"
  shows "f_isResponse v = Some True" "f_is1xx v = Some (m_startLine r ! 8 = CHR ''1'')"
  using assms
  by (auto simp: fsm_view_def tri_of_def SIPMessage_isResponse_def SIPMessage_isNxx_def SIPMessage_isResponseFamily_def
      status_digit_def string_index_def tri_if_def tri_not_def Let_def bind_eq_Some_conv)

lemma server_response_lines:
  "statusLineVerify (cstr (response_start 100 ''Allocating Channel'')) = Some True"
  "statusLineVerify (cstr (response_start 503 ''Resource/Channels Depleted'')) = Some True"
  "response_start 100 ''Allocating Channel'' = ''SIP/2.0 100 Allocating Channel''"
  "response_start 503 ''Resource/Channels Depleted'' = ''SIP/2.0 503 Resource/Channels Depleted''"
  by code_simp+

lemma trying_flags:
  "fsm_view num B r = Some v \<Longrightarrow> m_startLine r = response_start 100 ''Allocating Channel'' \<Longrightarrow>
   f_isResponse v = Some True \<and> f_is1xx v = Some True"
  using view_of_line [of num B r v] server_response_lines by simp

lemma depleted_flags:
  "fsm_view num B r = Some v \<Longrightarrow> m_startLine r = response_start 503 ''Resource/Channels Depleted'' \<Longrightarrow> f_isResponse v = Some True"
  using view_of_line [of num B r v] server_response_lines by simp

end
