(* ===== verification/SIP_Transaction.thy ===== *)
theory SIP_Transaction
  imports SIP_Fsm
begin

text \<open>
  The class \<open>SIPTransaction\<close> of \<^verbatim>\<open>src/sipfsm/SIPTransaction.cpp\<close>: a transaction with its
  branches, which sends and receives messages and reacts to its timers. A step of a transaction set is
  the processing of one event. The transaction user's reaction to an output is a later event. The
  transport is the same for all branches of a transaction.
\<close>

section \<open>Definitions\<close>

definition fsm_onSendMessage :: "fsm_env \<Rightarrow> trn_set \<Rightarrow> who \<Rightarrow> fmsg \<Rightarrow> (bool \<times> trn_set) option" where
  "fsm_onSendMessage E S w m =
     (case s_type S of
        TYPE_ICT \<Rightarrow> SIPIct_onSendMessage E S w m
      | TYPE_IST \<Rightarrow> SIPIst_onSendMessage E S w m
      | TYPE_NICT \<Rightarrow> SIPNict_onSendMessage E S w m
      | TYPE_NIST \<Rightarrow> SIPNist_onSendMessage E S w m)"

text \<open>The two overloads of \<open>writeMessage\<close> differ in the address only.\<close>

definition SIPTransaction_writeMessage :: "fsm_env \<Rightarrow> trn_set \<Rightarrow> who \<Rightarrow> fmsg \<Rightarrow> trn_set option" where
  "SIPTransaction_writeMessage E S w m =
     (if \<not> s_transport S then Some (terminate S w)
      else do {
        (ok, S) \<leftarrow> fsm_onSendMessage E S w m;
        Some (if ok then emit (WriteMessage w m) S else terminate S w)
      })"

text \<open>\<open>findBranch\<close> of the parent; a missing branch is created.\<close>

definition SIPTransaction_findBranch :: "trn_set \<Rightarrow> fmsg \<Rightarrow> who option \<times> trn_set" where
  "SIPTransaction_findBranch S m =
     (let branch = f_toTag m in
      if branch = [] then (None, S)
      else if branch \<in> fst ` set (s_branches S) then (Some (Branch branch), S)
      else (Some (Branch branch), upd S (Branch branch) (\<lambda>x. new_trn\<lparr>t_request := t_request (s_parent S)\<rparr>)))"

text \<open>Whether a stream is still alive when a response is to be written, was connected again, or is
  lost.\<close>

datatype link = LinkAlive | LinkReconnected | LinkLost

definition send_on :: "fsm_env \<Rightarrow> link \<Rightarrow> trn_set \<Rightarrow> who \<Rightarrow> fmsg \<Rightarrow> trn_set option" where
  "send_on E link S w m =
     (if s_transport S \<and> e_reliable E \<and> link = LinkLost then Some (terminate S w)
      else if s_transport S then SIPTransaction_writeMessage E S w m
      else Some (terminate S w))"

definition SIPTransaction_sendResponse :: "fsm_env \<Rightarrow> link \<Rightarrow> trn_set \<Rightarrow> who \<Rightarrow> fmsg \<Rightarrow> trn_set option" where
  "SIPTransaction_sendResponse E link S w m =
     (if tri_if (tri_not (f_isResponse m)) then None
      else if \<not> s_transport S \<and> w = Parent then None
      else if w \<noteq> Parent then send_on E link S w m
      else case SIPTransaction_findBranch S m of
        (Some b, S) \<Rightarrow> send_on E link S b m
      | (None, S) \<Rightarrow> send_on E link S w m)"

definition fsm_onReceivedMessage :: "fsm_env \<Rightarrow> trn_set \<Rightarrow> who \<Rightarrow> fmsg \<Rightarrow> trn_set option" where
  "fsm_onReceivedMessage E S w m =
     (let send = (\<lambda>S m. SIPTransaction_sendResponse E LinkAlive S w m) in
      case s_type S of
        TYPE_ICT \<Rightarrow> SIPIct_onReceivedMessage E S w m
      | TYPE_IST \<Rightarrow> SIPIst_onReceivedMessage send E S w m
      | TYPE_NICT \<Rightarrow> SIPNict_onReceivedMessage E S w m
      | TYPE_NIST \<Rightarrow> SIPNist_onReceivedMessage send E S w m)"

definition SIPTransaction_onReceivedMessage :: "fsm_env \<Rightarrow> trn_set \<Rightarrow> fmsg \<Rightarrow> trn_set option" where
  "SIPTransaction_onReceivedMessage E S m =
     (let S = (if tri_if (f_isRequest m) \<and> s_initial S = None \<and> \<not> f_isAck m then S\<lparr>s_initial := Some m\<rparr> else S);
          S = S\<lparr>s_transport := True\<rparr> in
      if tri_if (f_isRequest m) \<and> \<not> f_isAck m then fsm_onReceivedMessage E S Parent m
      else if tri_if (tri_not (f_isRequest m)) \<or> f_isAck m then
        (case SIPTransaction_findBranch S m of
           (Some b, S) \<Rightarrow> fsm_onReceivedMessage E S b m
         | (None, S) \<Rightarrow> fsm_onReceivedMessage E S Parent m)
      else Some S)"

text \<open>\<open>sendRequest\<close>, with the presence of the two callbacks and the success of creating the
  transport.\<close>

definition SIPTransaction_sendRequest :: "fsm_env \<Rightarrow> bool \<Rightarrow> bool \<Rightarrow> bool \<Rightarrow> trn_set \<Rightarrow> fmsg \<Rightarrow> trn_set option" where
  "SIPTransaction_sendRequest E callback terminateCallback created S m =
     (if tri_if (tri_not (f_isRequest m)) then None
      else
        let S = (if s_initial S = None then S\<lparr>s_initial := Some m\<rparr> else S);
            S = S\<lparr>s_hasTU := s_hasTU S \<or> callback, s_hasTerminateCallback := s_hasTerminateCallback S \<or> terminateCallback,
                  s_transport := s_transport S \<or> created\<rparr> in
        if \<not> s_transport S then do {
          S \<leftarrow> (if s_hasTU S then do {
                 response \<leftarrow> create_response E 408 ''Transport Creation Error'' m;
                 Some (emit (TransportErrorTU response) S)
               }
               else Some S);
          Some (terminate S Parent)
        }
        else SIPTransaction_writeMessage E S Parent m)"

definition SIPTransaction_sendAckFor2xx :: "fsm_env \<Rightarrow> trn_set \<Rightarrow> fmsg \<Rightarrow> trn_set option" where
  "SIPTransaction_sendAckFor2xx E S m = (if \<not> s_transport S then None else SIPTransaction_writeMessage E S Parent m)"

text \<open>A write or connect error: the machine of the parent is given a 480 response with the text of the
  error.\<close>

definition SIPTransaction_handleConnectionError :: "fsm_env \<Rightarrow> string \<Rightarrow> trn_set \<Rightarrow> trn_set option" where
  "SIPTransaction_handleConnectionError E reason S =
     (case s_initial S of
        Some request \<Rightarrow>
          if s_transport S then do {
            response \<leftarrow> make_response E 480 reason request;
            fsm_onReceivedMessage E S Parent response
          }
          else Some S
      | None \<Rightarrow> Some S)"

text \<open>The handlers that the constructors of the machines bind to the timers; calling one that is not
  bound throws.\<close>

definition fsm_timer :: "fsm_env \<Rightarrow> trn_set \<Rightarrow> who \<Rightarrow> timer \<Rightarrow> trn_set option" where
  "fsm_timer E S w t =
     (case (s_type S, t) of
        (_, TimerMaxLifetime) \<Rightarrow> Some (handleDelayedTerminate S w)
      | (TYPE_ICT, TimerA) \<Rightarrow> SIPIct_handleRetransmitInvite E S w
      | (TYPE_ICT, TimerB) \<Rightarrow> SIPIct_handleInviteTimeout E S w
      | (TYPE_ICT, TimerD) \<Rightarrow> Some (handleDelayedTerminate S w)
      | (TYPE_ICT, TimerClientExpires) \<Rightarrow> SIPIct_handleExpiresTimeout E S w
      | (TYPE_IST, TimerG) \<Rightarrow> Some (SIPIst_handleRetransmitResponse E S w)
      | (TYPE_IST, TimerH) \<Rightarrow> Some (SIPIst_handleACKTimeout S w)
      | (TYPE_IST, TimerI) \<Rightarrow> Some (handleDelayedTerminate S w)
      | (TYPE_NICT, TimerE) \<Rightarrow> SIPNict_handleRetransmitRequest E S w
      | (TYPE_NICT, TimerF) \<Rightarrow> SIPNict_handleRequestTimeout E S w
      | (TYPE_NICT, TimerK) \<Rightarrow> Some (handleDelayedTerminate S w)
      | (TYPE_NIST, TimerJ) \<Rightarrow> Some (handleDelayedTerminate S w)
      | (TYPE_IST, TimerRequestThrottle) \<Rightarrow> do {
          m \<leftarrow> t_queuedMsg (trn_of S w);
          fsm_onReceivedMessage E S w m
        }
      | (TYPE_NIST, TimerRequestThrottle) \<Rightarrow> do {
          m \<leftarrow> t_queuedMsg (trn_of S w);
          fsm_onReceivedMessage E S w m
        }
      | _ \<Rightarrow> None)"

section \<open>Steps\<close>

datatype event =
    EvSendRequest bool bool bool fmsg
  | EvSendResponse link fmsg
  | EvReceive fmsg
  | EvAckFor2xx fmsg
  | EvConnectionError string
  | EvTimer who timer
  | EvTick nat

definition expire :: "trn_set \<Rightarrow> who \<Rightarrow> timer \<Rightarrow> nat \<Rightarrow> trn_set" where
  "expire S w t d = cancelTimer t (S\<lparr>s_now := d\<rparr>) w"

definition trn_step :: "fsm_env \<Rightarrow> trn_set \<Rightarrow> event \<Rightarrow> trn_set option" where
  "trn_step E S ev =
     (case ev of
        EvSendRequest cb tcb created m \<Rightarrow> SIPTransaction_sendRequest E cb tcb created S m
      | EvSendResponse link m \<Rightarrow> SIPTransaction_sendResponse E link S Parent m
      | EvReceive m \<Rightarrow> SIPTransaction_onReceivedMessage E S m
      | EvAckFor2xx m \<Rightarrow> SIPTransaction_sendAckFor2xx E S m
      | EvConnectionError reason \<Rightarrow> SIPTransaction_handleConnectionError E reason S
      | EvTimer w t \<Rightarrow>
          (case t_timers (trn_of S w) t of
             Some d \<Rightarrow> fsm_timer E (expire S w t d) w t
           | None \<Rightarrow> Some S)
      | EvTick n \<Rightarrow> Some (S\<lparr>s_now := s_now S + n\<rparr>))"

end
