(* ===== verification/SIP_TrnInvariant.thy ===== *)
theory SIP_TrnInvariant
  imports SIP_Transaction
begin

text \<open>
  Invariants of a transaction set: what holds of every transaction and branch between two events, and how
  a set may evolve. The facts on the primitive operations of the machines (state changes, timers,
  outputs, termination) are proved once; the facts on the handlers follow from them.
\<close>

section \<open>Fields\<close>

lemma map_of_AList_update [simp]: "map_of (AList.update k v xs) j = (if j = k then Some v else map_of xs j)"
  by (simp add: AList.update_conv')

lemma trn_of_upd [simp]: "trn_of (upd S w f) v = (if v = w then f (trn_of S w) else trn_of S v)"
  by (cases w; cases v) (simp_all split: option.split)

lemma s_parent_upd [simp]: "s_parent (upd S w f) = (if w = Parent then f (s_parent S) else s_parent S)"
  by (cases w) simp_all

lemma upd_fields [simp]:
  "s_type (upd S w f) = s_type S" "s_now (upd S w f) = s_now S" "s_out (upd S w f) = s_out S"
  "s_transport (upd S w f) = s_transport S" "s_hasTU (upd S w f) = s_hasTU S" "s_initial (upd S w f) = s_initial S"
  "s_hasTerminateCallback (upd S w f) = s_hasTerminateCallback S"
  by (cases w; simp)+

lemma emit_fields [simp]:
  "s_type (emit ev S) = s_type S" "s_now (emit ev S) = s_now S" "s_out (emit ev S) = s_out S @ [ev]"
  "s_transport (emit ev S) = s_transport S" "s_hasTU (emit ev S) = s_hasTU S" "s_initial (emit ev S) = s_initial S"
  "s_hasTerminateCallback (emit ev S) = s_hasTerminateCallback S" "s_branches (emit ev S) = s_branches S"
  "s_parent (emit ev S) = s_parent S"
  by (simp_all add: emit_def)

lemma trn_of_initial [simp]: "trn_of (S\<lparr>s_initial := x\<rparr>) w = trn_of S w"
  by (cases w) simp_all

lemma trn_of_emit [simp]: "trn_of (emit ev S) w = trn_of S w"
  by (cases w) (simp_all add: emit_def)

text \<open>The tags of the branches.\<close>

definition branch_tags :: "trn_set \<Rightarrow> string set" where
  "branch_tags S = fst ` set (s_branches S)"

lemma branch_tags_upd [simp]:
  "branch_tags (upd S Parent f) = branch_tags S" "branch_tags (upd S (Branch b) f) = insert b (branch_tags S)"
  by (simp_all add: branch_tags_def dom_update flip: dom_map_of_conv_image_fst) (auto simp: dom_def)

lemma branch_tags_emit [simp]: "branch_tags (emit ev S) = branch_tags S"
  by (simp add: branch_tags_def)

lemma branch_tags_initial [simp]: "branch_tags (S\<lparr>s_initial := x\<rparr>) = branch_tags S"
  by (simp add: branch_tags_def)

declare upd.simps [simp del] trn_of.simps(2) [simp del]

section \<open>The invariant\<close>

text \<open>The timers that the constructor of a machine binds to a handler.\<close>

fun timer_bound :: "trn_type \<Rightarrow> timer \<Rightarrow> bool" where
  "timer_bound _ TimerMaxLifetime = True"
| "timer_bound TYPE_ICT t = (t \<in> {TimerA, TimerB, TimerD, TimerClientExpires})"
| "timer_bound TYPE_IST t = (t \<in> {TimerG, TimerH, TimerI, TimerRequestThrottle})"
| "timer_bound TYPE_NICT t = (t \<in> {TimerE, TimerF, TimerK})"
| "timer_bound TYPE_NIST t = (t \<in> {TimerJ, TimerRequestThrottle})"

definition is_client :: "trn_type \<Rightarrow> bool" where
  "is_client ty \<longleftrightarrow> ty = TYPE_ICT \<or> ty = TYPE_NICT"

definition trn_ok :: "trn_type \<Rightarrow> nat \<Rightarrow> trn \<Rightarrow> bool" where
  "trn_ok ty now x \<longleftrightarrow>
     t_state x \<le> TRN_STATE_TERMINATED \<and>
     (t_hasTerminated x \<longrightarrow> t_state x = TRN_STATE_TERMINATED \<and> t_timers x = Map.empty) \<and>
     (\<forall>t d. t_timers x t = Some d \<longrightarrow> timer_bound ty t \<and> now \<le> d) \<and>
     (\<forall>d. t_timers x TimerMaxLifetime = Some d \<longrightarrow> d \<le> now + 300000) \<and>
     (t_timers x TimerRequestThrottle \<noteq> None \<longrightarrow> t_queuedMsg x \<noteq> None) \<and>
     (\<not> is_client ty \<and> t_state x = SERVER_QUEUED \<longrightarrow> t_queuedMsg x \<noteq> None)"

definition removals :: "trn_set \<Rightarrow> nat" where
  "removals S = count_list (s_out S) RemoveTransaction"

definition parent_ok :: "trn_set \<Rightarrow> bool" where
  "parent_ok S \<longleftrightarrow>
     s_transport S \<and> t_timers (s_parent S) TimerMaxLifetime \<noteq> None \<and>
     (is_client (s_type S) \<longrightarrow> t_request (s_parent S) \<noteq> None)"

definition set_ok :: "trn_set \<Rightarrow> bool" where
  "set_ok S \<longleftrightarrow>
     (\<forall>w. trn_ok (s_type S) (s_now S) (trn_of S w)) \<and>
     (t_hasTerminated (s_parent S) \<longrightarrow> (\<forall>b \<in> branch_tags S. t_hasTerminated (trn_of S (Branch b)))) \<and>
     (t_state (s_parent S) \<noteq> TRN_STATE_IDLE \<and> \<not> t_hasTerminated (s_parent S) \<longrightarrow> parent_ok S) \<and>
     (is_client (s_type S) \<longrightarrow> (\<forall>b \<in> branch_tags S. t_request (trn_of S (Branch b)) \<noteq> None)) \<and>
     removals S = (if t_hasTerminated (s_parent S) then 1 else 0)"

definition evolves :: "trn_set \<Rightarrow> trn_set \<Rightarrow> bool" where
  "evolves S S' \<longleftrightarrow>
     s_type S' = s_type S \<and> s_now S \<le> s_now S' \<and> branch_tags S \<subseteq> branch_tags S' \<and>
     (\<forall>w. t_state (trn_of S w) \<le> t_state (trn_of S' w) \<and>
          (t_hasTerminated (trn_of S w) \<longrightarrow> t_hasTerminated (trn_of S' w))) \<and>
     (t_state (s_parent S) \<noteq> TRN_STATE_IDLE \<and> \<not> t_hasTerminated (s_parent S') \<longrightarrow>
        t_timers (s_parent S') TimerMaxLifetime = t_timers (s_parent S) TimerMaxLifetime)"

definition running :: "trn_set \<Rightarrow> who \<Rightarrow> trn_set \<Rightarrow> bool" where
  "running S0 w S \<longleftrightarrow> set_ok S \<and> evolves S0 S \<and> \<not> t_hasTerminated (s_parent S) \<and> parent_ok S \<and>
     (is_client (s_type S) \<longrightarrow> t_request (trn_of S w) \<noteq> None)"

definition settled :: "trn_set \<Rightarrow> trn_set \<Rightarrow> bool" where
  "settled S0 S \<longleftrightarrow> set_ok S \<and> evolves S0 S"

lemma running_settled [simp]: "running S0 w S \<Longrightarrow> settled S0 S"
  by (simp add: running_def settled_def)

lemma evolves_refl [simp]: "evolves S S"
  by (simp add: evolves_def)

lemma evolves_trans:
  assumes "evolves S T" "evolves T U" shows "evolves S U"
proof -
  have "t_state (s_parent S) \<le> t_state (s_parent T)"
    using assms(1) unfolding evolves_def by (metis trn_of.simps(1))
  moreover have "t_hasTerminated (s_parent T) \<Longrightarrow> t_hasTerminated (s_parent U)"
    using assms(2) unfolding evolves_def by (metis trn_of.simps(1))
  ultimately show ?thesis
    using assms unfolding evolves_def by (fastforce intro: le_trans)
qed

lemma running_upd:
  assumes "running S0 w S" "v = w \<or> v = Parent"
    and "let x = trn_of S v; y = f x in
      trn_ok (s_type S) (s_now S) y \<and> t_hasTerminated y = t_hasTerminated x \<and> (is_client (s_type S) \<longrightarrow> t_request y = t_request x) \<and>
      t_timers y TimerMaxLifetime = t_timers x TimerMaxLifetime \<and> t_state x \<le> t_state y"
  shows "running S0 w (upd S v f)"
proof -
  have "evolves S (upd S v f)"
    using assms(3) by (cases v) (auto simp: evolves_def Let_def)
  moreover have "set_ok (upd S v f)"
    using assms by (cases v) (auto simp: set_ok_def running_def Let_def parent_ok_def removals_def)
  ultimately show ?thesis
    using assms evolves_trans unfolding running_def parent_ok_def Let_def by (cases v) auto
qed

lemma trn_okD:
  assumes "running S0 w S"
  shows "trn_ok (s_type S) (s_now S) (trn_of S v)"
  using assms by (simp add: running_def set_ok_def)

text \<open>A change of state that does not throw.\<close>

definition put :: "nat \<Rightarrow> trn_set \<Rightarrow> who \<Rightarrow> trn_set" where
  "put st S w = (if getState S w = st then S else upd S w (\<lambda>x. x\<lparr>t_state := st\<rparr>))"

lemma setState_put:
  "setState st S w =
     (if getState S w = TRN_STATE_TERMINATED \<and> st \<noteq> TRN_STATE_TERMINATED then None else Some (put st S w))"
  by (simp add: setState_def put_def)

lemma primitive_trn:
  "trn_of (put st S w) v = (if v = w then (trn_of S w)\<lparr>t_state := st\<rparr> else trn_of S v)"
  "trn_of (arm t n S w) v =
     (if v = w then (trn_of S w)\<lparr>t_timers := (t_timers (trn_of S w))(t \<mapsto> s_now S + n)\<rparr> else trn_of S v)"
  "trn_of (cancelTimer t S w) v =
     (if v = w then (trn_of S w)\<lparr>t_timers := (t_timers (trn_of S w))(t := None)\<rparr> else trn_of S v)"
  "trn_of (informTU S w m) v = trn_of S v"
  by (auto simp: put_def arm_def cancelTimer_def informTU_def getState_def)

lemma getState_primitive [simp]:
  "getState (put st S w) v = (if v = w then st else getState S v)"
  "getState (arm t n S w) v = getState S v"
  "getState (startTimer E t n S w) v = getState S v"
  "getState (cancelTimer t S w) v = getState S v"
  "getState (informTU S w m) v = getState S v"
  "getState (emit ev S) v = getState S v"
  "getState (on_parent w (cancelTimer t) S) v = getState S v"
  by (simp_all add: getState_def primitive_trn startTimer_def on_parent_def)

lemma t_request_primitive [simp]:
  "t_request (trn_of (put st S w) v) = t_request (trn_of S v)"
  "t_request (trn_of (arm t n S w) v) = t_request (trn_of S v)"
  "t_request (trn_of (startTimer E t n S w) v) = t_request (trn_of S v)"
  "t_request (trn_of (cancelTimer t S w) v) = t_request (trn_of S v)"
  "t_request (trn_of (informTU S w m) v) = t_request (trn_of S v)"
  "t_request (trn_of (on_parent w (cancelTimer t) S) v) = t_request (trn_of S v)"
  by (simp_all add: primitive_trn startTimer_def on_parent_def)

lemma s_type_primitive [simp]:
  "s_type (put st S w) = s_type S"
  "s_type (arm t n S w) = s_type S"
  "s_type (startTimer E t n S w) = s_type S"
  "s_type (cancelTimer t S w) = s_type S"
  "s_type (informTU S w m) = s_type S"
  "s_type (on_parent w (cancelTimer t) S) = s_type S"
  by (simp_all add: put_def arm_def startTimer_def cancelTimer_def informTU_def on_parent_def)

lemma running_put:
  assumes "running S0 w S" "v = w \<or> v = Parent"
    "getState S v \<noteq> TRN_STATE_TERMINATED \<or> st = TRN_STATE_TERMINATED" "getState S v \<le> st"
    "st \<le> TRN_STATE_TERMINATED" "is_client (s_type S) \<or> st \<noteq> SERVER_QUEUED \<or> t_queuedMsg (trn_of S v) \<noteq> None"
  shows "running S0 w (put st S v)"
proof (cases "getState S v = st")
  case False
  then show ?thesis
    unfolding put_def using assms(3-) trn_okD [OF assms(1), of v]
    by (auto intro!: running_upd [OF assms(1,2)] simp: trn_ok_def getState_def)
qed (use assms in \<open>simp add: put_def\<close>)

lemma running_arm:
  assumes "running S0 w S" "v = w \<or> v = Parent" "getState S v \<noteq> TRN_STATE_TERMINATED" "timer_bound (s_type S) t"
    "t \<noteq> TimerMaxLifetime" "t \<noteq> TimerRequestThrottle \<or> t_queuedMsg (trn_of S v) \<noteq> None"
  shows "running S0 w (arm t n S v)"
  unfolding arm_def using assms(3-) trn_okD [OF assms(1), of v]
  by (intro running_upd [OF assms(1,2)]) (auto simp: trn_ok_def getState_def)

lemma running_startTimer:
  assumes "running S0 w S" "v = w \<or> v = Parent" "getState S v \<noteq> TRN_STATE_TERMINATED" "timer_bound (s_type S) t"
    "t \<noteq> TimerMaxLifetime" "t \<noteq> TimerRequestThrottle"
  shows "running S0 w (startTimer E t n S v)"
  unfolding startTimer_def using assms by (intro running_arm) auto

lemma running_cancel:
  assumes "running S0 w S" "v = w \<or> v = Parent" "t \<noteq> TimerMaxLifetime"
  shows "running S0 w (cancelTimer t S v)"
  unfolding cancelTimer_def using assms(3) trn_okD [OF assms(1), of v]
  by (intro running_upd [OF assms(1,2)]) (auto simp: trn_ok_def)

lemma running_on_parent:
  "running S0 w S \<Longrightarrow> t \<noteq> TimerMaxLifetime \<Longrightarrow> running S0 w (on_parent w (cancelTimer t) S)"
  by (auto simp: on_parent_def running_cancel)

lemma running_same:
  assumes "running S0 w S" "v = w \<or> v = Parent"
    and "\<And>x. t_state (f x) = t_state x" "\<And>x. t_hasTerminated (f x) = t_hasTerminated x" "\<And>x. t_timers (f x) = t_timers x"
    "\<And>x. t_request (f x) = t_request x" "\<And>x. t_queuedMsg (f x) = t_queuedMsg x"
  shows "running S0 w (upd S v f)"
  using assms(3-) trn_okD [OF assms(1), of v]
  by (intro running_upd [OF assms(1,2)]) (auto simp: trn_ok_def)

lemma running_initial: "running S0 w S \<Longrightarrow> running S0 w (S\<lparr>s_initial := x\<rparr>)"
  by (auto simp: running_def set_ok_def evolves_def parent_ok_def removals_def)

lemma running_share:
  assumes "running S0 w S" "\<not> is_client (s_type S)"
  shows "running S0 w (share old new S w)"
proof -
  have "running S0 w (upd S w (\<lambda>x. x\<lparr>t_request := follow (t_request x), t_queuedMsg := follow (t_queuedMsg x)\<rparr>))"
    if "\<And>y. follow (Some y) \<noteq> None" for follow
    using assms(2) trn_okD [OF assms(1), of w] that by (intro running_upd [OF assms(1)]) (force simp: trn_ok_def Let_def)+
  from this [of "\<lambda>x. if x = Some old then Some new else x"] show ?thesis
    unfolding share_def Let_def by (intro running_initial) simp
qed

lemma share_simps [simp]:
  "getState (share old new S w) v = getState S v" "s_type (share old new S w) = s_type S"
  by (simp_all add: share_def Let_def getState_def)

lemma running_emit:
  assumes "running S0 w S" "ev \<noteq> RemoveTransaction"
  shows "running S0 w (emit ev S)"
  using assms by (auto simp: running_def set_ok_def evolves_def parent_ok_def removals_def)

lemma running_informTU:
  "running S0 w S \<Longrightarrow> running S0 w (informTU S v m)"
  by (simp add: informTU_def running_emit)

lemma running_state [simp]: "running S0 w S \<Longrightarrow> getState S v \<le> TRN_STATE_TERMINATED"
  by (simp add: running_def set_ok_def trn_ok_def getState_def)

lemmas running_intros = running_put running_startTimer running_cancel running_on_parent running_same
  running_emit running_informTU

definition killed :: "trn \<Rightarrow> trn" where
  "killed x = (if t_hasTerminated x then x
     else x\<lparr>t_state := TRN_STATE_TERMINATED, t_timers := Map.empty, t_hasTerminated := True\<rparr>)"

lemma killed_simps [simp]:
  "t_hasTerminated (killed x)" "t_request (killed x) = t_request x" "killed (killed x) = killed x"
  "t_hasTerminated x \<Longrightarrow> killed x = x"
  by (simp_all add: killed_def)

lemma trn_ok_killed [simp]: "trn_ok ty now x \<Longrightarrow> trn_ok ty now (killed x)"
  by (auto simp: killed_def trn_ok_def)

lemma killed_state: "trn_ok ty now x \<Longrightarrow> t_state (killed x) = TRN_STATE_TERMINATED"
  by (auto simp: killed_def trn_ok_def)

lemma onTerminate_simps [simp]:
  "s_type (onTerminate S w) = s_type S" "s_now (onTerminate S w) = s_now S" "removals (onTerminate S w) = removals S"
  "s_transport (onTerminate S w) = s_transport S" "trn_of (onTerminate S w) v = trn_of S v"
  "s_parent (onTerminate S w) = s_parent S" "branch_tags (onTerminate S w) = branch_tags S"
  "s_branches (onTerminate S w) = s_branches S"
  by (simp_all add: onTerminate_def removals_def)

lemma mark_terminated_simps [simp]:
  assumes "\<not> t_hasTerminated (trn_of S w)"
  shows "trn_of (mark_terminated S w) v = (if v = w then killed (trn_of S w) else trn_of S v)"
    "s_type (mark_terminated S w) = s_type S" "s_now (mark_terminated S w) = s_now S"
    "s_transport (mark_terminated S w) = s_transport S" "removals (mark_terminated S w) = removals S"
    "branch_tags (mark_terminated S w) = branch_tags (upd S w id)"
  using assms by (cases w; auto simp: mark_terminated_def Let_def cancelAllTimers_def killed_def
      onTerminate_def removals_def)+

lemma terminate_branch_simps [simp]:
  "trn_of (terminate_branch S b) v = (if v = Branch b then killed (trn_of S v) else trn_of S v)"
  "s_type (terminate_branch S b) = s_type S" "s_now (terminate_branch S b) = s_now S"
  "s_transport (terminate_branch S b) = s_transport S" "removals (terminate_branch S b) = removals S"
  "b \<in> branch_tags S \<Longrightarrow> branch_tags (terminate_branch S b) = branch_tags S"
  by (auto simp: terminate_branch_def)

lemma terminate_branches_simps [simp]:
  "trn_of (foldl terminate_branch S bs) v = (if v \<in> Branch ` set bs then killed (trn_of S v) else trn_of S v)"
  "s_type (foldl terminate_branch S bs) = s_type S" "s_now (foldl terminate_branch S bs) = s_now S"
  "s_transport (foldl terminate_branch S bs) = s_transport S" "removals (foldl terminate_branch S bs) = removals S"
  "set bs \<subseteq> branch_tags S \<Longrightarrow> branch_tags (foldl terminate_branch S bs) = branch_tags S"
  by (induction bs arbitrary: S) auto

lemma s_parent_terminate [simp]:
  "s_parent (foldl terminate_branch S bs) = s_parent S"
  "\<not> t_hasTerminated (s_parent S) \<Longrightarrow> s_parent (mark_terminated S Parent) = killed (s_parent S)"
  using terminate_branches_simps(1) [of S bs Parent] mark_terminated_simps(1) [of S Parent Parent] by auto

lemma removals_emit [simp]: "removals (emit ev S) = removals S + (if ev = RemoveTransaction then 1 else 0)"
  by (simp add: removals_def)

lemma set_branch_names: "set (map fst (s_branches S)) = branch_tags S"
  by (simp add: branch_tags_def)

lemma terminate_parent_simps:
  fixes S
  assumes "\<not> t_hasTerminated (s_parent S)"
  defines "S' \<equiv> terminate_parent S"
  shows "trn_of S' v = (if v = Parent \<or> v \<in> Branch ` branch_tags S then killed (trn_of S v) else trn_of S v)"
    "s_type S' = s_type S" "s_now S' = s_now S" "s_transport S' = s_transport S" "removals S' = removals S + 1"
    "branch_tags S' = branch_tags S"
  using assms(1) unfolding S'_def terminate_parent_def Let_def
  by (auto simp: set_branch_names set_branch_names [unfolded set_map])


lemma terminate_parent_settled:
  assumes "set_ok S"
  shows "settled S (terminate S Parent)" "t_hasTerminated (s_parent (terminate S Parent))"
proof -
  note T = terminate_parent_simps [of S]
  have ok: "trn_ok (s_type S) (s_now S) (trn_of S w)" for w
    using assms by (simp add: set_ok_def)
  have le: "t_state (trn_of S w) \<le> t_state (killed (trn_of S w))" for w
    using ok [of w] killed_state [OF ok, of w] by (simp add: trn_ok_def)
  have ends: "t_hasTerminated (s_parent (terminate_parent S))" if "\<not> t_hasTerminated (s_parent S)"
    using T(1) [OF that, of Parent] by simp
  then show "t_hasTerminated (s_parent (terminate S Parent))"
    by (cases "t_hasTerminated (s_parent S)") (simp_all add: terminate_parent_def)
  show "settled S (terminate S Parent)"
  proof (cases "t_hasTerminated (s_parent S)")
    case True
    then show ?thesis
      using assms by (simp add: settled_def terminate_parent_def)
  next
    case False
    then have "evolves S (terminate_parent S)"
      by (auto simp: evolves_def T ends le)
    moreover have "set_ok (terminate_parent S)"
      using assms False ok by (auto simp: set_ok_def T ends)
    ultimately show ?thesis
      by (simp add: settled_def)
  qed
qed

lemma settled_trans: "evolves S T \<Longrightarrow> settled T U \<Longrightarrow> settled S U"
  using evolves_trans by (auto simp: settled_def)

lemma running_terminate_parent: "running S0 w S \<Longrightarrow> settled S0 (terminate S Parent)"
  using terminate_parent_settled settled_trans unfolding running_def by blast

lemma running_terminate_branch:
  assumes "running S0 (Branch b) S"
  shows "running S0 (Branch b) (terminate S (Branch b))"
proof (cases "t_hasTerminated (trn_of S (Branch b))")
  case True
  then show ?thesis
    using assms by (simp add: terminate_branch_def)
next
  case False
  let ?x = "trn_of S (Branch b)" and ?S = "mark_terminated S (Branch b)"
  have ok: "trn_ok (s_type S) (s_now S) ?x"
    using assms by (simp add: running_def set_ok_def)
  then have le: "t_state ?x \<le> t_state (killed ?x)"
    using killed_state [OF ok] by (simp add: trn_ok_def)
  have parent: "s_parent ?S = s_parent S"
    using mark_terminated_simps(1) [OF False, of Parent] by simp
  have "evolves S ?S"
    using False le by (auto simp: evolves_def parent)
  moreover have "set_ok ?S"
    using assms False ok by (auto simp: running_def set_ok_def parent_ok_def parent)
  ultimately show ?thesis
    using assms False evolves_trans by (auto simp: running_def terminate_branch_def parent_ok_def parent)
qed

lemma running_terminate: "running S0 w S \<Longrightarrow> settled S0 (terminate S w)"
  using running_terminate_parent running_terminate_branch by (cases w) fastforce+


end
