(* ===== verification/SIP_TrnMachines.thy ===== *)
theory SIP_TrnMachines
  imports SIP_TrnInvariant
begin

text \<open>
  The handlers of the four machines keep the invariant of a transaction set and do not throw. The
  exceptions are the header functions that a server applies to a request before it calls the request
  handler, and \<open>createResponse\<close>, for a request that lacks what a response takes over.
\<close>

section \<open>Messages made by the invite client\<close>

lemma string_find_char_le: "string_find s t = Some n \<Longrightarrow> n \<le> length s"
  by (induction s arbitrary: n) (auto split: if_splits)

lemma makeAck_total: "\<exists>r. SIPIct_makeAck B request response = Some r"
proof (cases "string_find (m_startLine request) '' ''")
  case (Some n)
  then have "n \<le> length (m_startLine request)"
    by (rule string_find_char_le)
  then show ?thesis
    using Some str_of_drop_total [of n "m_startLine request"] lwsFinder_total(1) [of "SIPMessage_hdrGet B request ''CSeq'' 0"]
    by (auto simp: SIPIct_makeAck_def SIPCSeq_getNumber_def Let_def)
qed (auto simp: SIPIct_makeAck_def)

lemma request_line_method_total: "\<exists>r. SIPRequestLine_setMethod_member line (Some (cstr ''CANCEL'')) = Some r"
proof -
  let ?l = "RequestLine_check_empty line"
  obtain a rest where a: "cstr ?l = a @ NUL # rest" "nul_free a" "length a \<le> length ?l"
    by (rule cstr_split)
  then obtain n where "findNextIterFromString '' '' (cstr ?l) = Some n" "n \<le> length ?l"
    using find_next_total [OF a(2), of "'' ''" 0 0] by (fastforce simp: findNextIterFromString_def)
  moreover have "str_of (cstr ''CANCEL'') = Some ''CANCEL''" "RequestLine_is_empty (Some (cstr ''CANCEL'')) = Some False"
    by (simp_all add: cstr_def str_of_def RequestLine_is_empty_def)
  ultimately show ?thesis
    using str_of_drop_total [of n ?l]
    by (auto simp: SIPRequestLine_setMethod_member_def SIPRequestLine_setMethod_def)
qed

lemma cseq_method_total: "\<exists>a b. SIPCSeq_setMethod s (cstr ''CANCEL'') = Some (a, b)"
proof -
  obtain n where "parse lwsFinder_2 (cstr s) = Some n"
    using lwsFinder_total(2) by blast
  moreover have "str_of (cstr ''CANCEL'') = Some ''CANCEL''"
    by (simp add: cstr_def str_of_def)
  ultimately show ?thesis
    by (auto simp: SIPCSeq_setMethod_def)
qed

lemma choice2: "(\<And>s. \<exists>a b. F s = Some (a, b)) \<Longrightarrow> \<exists>f g. \<forall>s. F s = Some (f s, g s)"
  by metis

lemma makeCancel_total: "\<exists>r. SIPIct_makeCancel B request = Some r"
proof -
  have "\<exists>f g. \<forall>s. SIPCSeq_setMethod s (cstr ''CANCEL'') = Some (f s, g s)"
    using cseq_method_total by (intro choice2) blast
  then show ?thesis
    using request_line_method_total [of "m_startLine (SIPMessage_copy request)"]
    by (auto simp: SIPIct_makeCancel_def Let_def)
qed

lemma getState_upd [simp]: "(\<And>x. t_state (f x) = t_state x) \<Longrightarrow> getState (upd S w f) v = getState S v"
  by (simp add: getState_def)

section \<open>The invite client\<close>

lemma running_finish:
  assumes "running S0 w S"
  shows "settled S0 (let S = terminate S w in if w \<noteq> Parent \<and> getActiveBranchCount S = 0 then terminate S Parent else S)"
proof (cases w)
  case Parent
  then show ?thesis
    using running_terminate_parent [OF assms] by simp
next
  case (Branch b)
  then have "running S0 w (terminate S w)"
    using running_terminate_branch assms by blast
  then show ?thesis
    using running_terminate_parent running_settled by (simp add: Let_def)
qed

lemma terminate_again [simp]: "set_ok S \<Longrightarrow> terminate (terminate S w) w = terminate S w"
  by (cases w) (use terminate_parent_settled(2) [of S] in \<open>auto simp: terminate_parent_def terminate_branch_def\<close>)

lemma delayed_terminate_ok: "running S0 w S \<Longrightarrow> settled S0 (handleDelayedTerminate S w)"
  using running_finish by (simp add: handleDelayedTerminate_def running_def)

lemma ict_2xx_ok:
  assumes "running S0 w S" "getState S w \<noteq> TRN_STATE_TERMINATED"
  shows "\<exists>S'. ict_2xx S w m = Some S' \<and> running S0 w S'"
  using assms running_state [OF assms(1)] by (auto simp: ict_2xx_def Let_def setState_put intro!: running_intros)

lemma ict_ack_ok:
  assumes "running S0 w S" "s_type S = TYPE_ICT" "getState S w \<le> CLIENT_COMPLETED"
  shows "\<exists>S'. SIPIct_handleSendAck E S w m t = Some S' \<and> running S0 w S'"
proof -
  have 1: "running S0 w (put CLIENT_COMPLETED S w)"
    using assms by (intro running_put) (auto simp: is_client_def)
  obtain r where "t_request (trn_of S w) = Some r"
    using assms(1,2) by (auto simp: running_def is_client_def)
  then obtain c ack where "(case t_ack (trn_of (put CLIENT_COMPLETED S w) w) of Some ack \<Rightarrow> Some (True, ack)
      | None \<Rightarrow> do {
          request \<leftarrow> t_request (trn_of (put CLIENT_COMPLETED S w) w);
          SIPIct_makeAck (e_boost E) (f_msg request) (f_msg m)
        }) = Some (c, ack)"
    using makeAck_total [of "e_boost E" "f_msg r" "f_msg m"]
    by (cases "t_ack (trn_of (put CLIENT_COMPLETED S w) w)") auto
  then show ?thesis
    using assms 1 by (auto simp: SIPIct_handleSendAck_def setState_put Let_def is_client_def intro!: running_intros)
qed

lemma ict_error_ok:
  assumes "running S0 w S" "s_type S = TYPE_ICT" "getState S w \<le> CLIENT_PROCEEDING"
  shows "\<exists>S'. ict_error E S w m = Some S' \<and> running S0 w S'"
  unfolding ict_error_def Let_def using assms
  by (auto simp: setState_put is_client_def intro!: ict_ack_ok running_intros)

lemma ict_trying_ok:
  assumes "running S0 w S" "s_type S = TYPE_ICT" "getState S w \<le> CLIENT_TRYING"
  shows "\<exists>S'. ict_trying E S w m = Some S' \<and> running S0 w S'"
  unfolding ict_trying_def Let_def using assms
  by (auto simp: setState_put is_client_def intro!: ict_2xx_ok ict_error_ok running_intros)

lemma ict_switch_ok:
  assumes "running S0 w S" "s_type S = TYPE_ICT"
  shows "\<exists>S'. ict_switch E S w m = Some S' \<and> running S0 w S'"
  unfolding ict_switch_def using assms
  by (auto intro!: ict_trying_ok ict_2xx_ok ict_error_ok ict_ack_ok running_intros)

lemma ict_receive_ok:
  assumes "running S0 w S" "s_type S = TYPE_ICT"
  shows "\<exists>S'. SIPIct_onReceivedMessage E S w m = Some S' \<and> settled S0 S'"
  using ict_switch_ok [OF assms, of E m] assms
  by (auto simp: SIPIct_onReceivedMessage_def intro: running_finish)

lemma ict_retransmit_ok:
  assumes "running S0 w S" "s_type S = TYPE_ICT"
  shows "\<exists>S'. SIPIct_handleRetransmitInvite E S w = Some S' \<and> settled S0 S'"
proof -
  obtain r where "t_request (trn_of S w) = Some r"
    using assms by (auto simp: running_def is_client_def)
  then show ?thesis
    using assms by (auto simp: SIPIct_handleRetransmitInvite_def Let_def intro!: running_settled [of _ w] running_intros)
qed

text \<open>The result of a handler: settled, or an exception where one is expected.\<close>

definition fine :: "trn_set \<Rightarrow> bool \<Rightarrow> trn_set option \<Rightarrow> bool" where
  "fine S0 failing r = (case r of None \<Rightarrow> failing | Some S \<Rightarrow> settled S0 S)"

lemma fineI: "(\<exists>S'. r = Some S' \<and> settled S0 S') \<Longrightarrow> fine S0 failing r"
  by (auto simp: fine_def)

lemma fine_mono: "fine S0 P r \<Longrightarrow> (P \<Longrightarrow> Q) \<Longrightarrow> fine S0 Q r"
  by (auto simp: fine_def split: option.splits)

text \<open>The initial request has what \<open>createResponse\<close> asks of it.\<close>

definition answerable :: "fsm_env \<Rightarrow> trn_set \<Rightarrow> bool" where
  "answerable E S = (case s_initial S of None \<Rightarrow> True | Some m \<Rightarrow> can_respond (e_boost E) (f_msg m))"

lemma s_initial_timers [simp]:
  "s_initial (cancelTimer t S w) = s_initial S" "answerable E (cancelTimer t S w) = answerable E S"
  by (simp_all add: cancelTimer_def answerable_def)

lemma handleTimeout_ok:
  assumes "running S0 w S"
  obtains S' where "handleTimeout E S w = Some S'" "running S0 w S'" | "handleTimeout E S w = None" "\<not> answerable E S"
proof (cases "handleTimeout E S w")
  case None
  then obtain r where "s_initial S = Some r" "create_response E 408 [] r = None"
    by (auto simp: handleTimeout_def Let_def bind_eq_None_conv split: option.splits if_splits)
  then have "\<not> answerable E S"
    using create_response_cases [of E r 408 "[]"] by (auto simp: answerable_def)
  then show ?thesis
    using that(2) None by simp
next
  case (Some S')
  have "running S0 w S'"
    using assms Some by (auto simp: handleTimeout_def Let_def bind_eq_Some_conv intro!: running_intros)
  then show ?thesis
    using that(1) Some by simp
qed

lemma ict_timeout_ok:
  assumes "running S0 w S"
  shows "fine S0 (\<not> answerable E S) (SIPIct_handleInviteTimeout E S w)"
proof -
  have "running S0 w (cancelTimer TimerClientExpires (cancelTimer TimerA S w) w)"
    using assms by (intro running_intros) auto
  then show ?thesis
    by (rule handleTimeout_ok [of _ _ _ E]) (auto simp: SIPIct_handleInviteTimeout_def fine_def running_terminate)
qed

lemma ict_expires_ok:
  assumes "running S0 w S" "s_type S = TYPE_ICT"
  shows "\<exists>S'. SIPIct_handleExpiresTimeout E S w = Some S' \<and> settled S0 S'"
proof -
  obtain r where "t_request (trn_of S w) = Some r"
    using assms by (auto simp: running_def is_client_def)
  then show ?thesis
    using assms makeCancel_total [of "e_boost E" "f_msg r"]
    by (auto simp: SIPIct_handleExpiresTimeout_def intro!: running_settled [of _ w] running_intros)
qed

section \<open>The non-invite client\<close>

lemma nict_cancel_simps [simp]:
  "getState (nict_cancel S w) v = getState S v" "s_type (nict_cancel S w) = s_type S"
  "answerable E (nict_cancel S w) = answerable E S"
  by (simp_all add: nict_cancel_def)

lemma running_nict_cancel: "running S0 w S \<Longrightarrow> v = w \<or> v = Parent \<Longrightarrow> running S0 w (nict_cancel S v)"
  unfolding nict_cancel_def by (intro running_intros) auto

lemma nict_stop_ok:
  assumes "running S0 w S" "s_type S = TYPE_NICT" "getState S Parent \<le> CLIENT_COMPLETED" "getState S w \<le> CLIENT_COMPLETED"
  shows "\<exists>S'. nict_stop S w b = Some S' \<and> running S0 w S' \<and> s_type S' = TYPE_NICT \<and> getState S' w \<le> CLIENT_COMPLETED"
  unfolding nict_stop_def Let_def using assms
  by (auto simp: setState_put is_client_def intro!: running_nict_cancel running_intros)

lemma nict_final_ok:
  assumes "running S0 w S" "s_type S = TYPE_NICT" "getState S Parent \<le> CLIENT_COMPLETED" "getState S w \<le> CLIENT_COMPLETED"
  shows "\<exists>S'. nict_final E S w m = Some S' \<and> running S0 w S'"
proof -
  obtain S' where "nict_stop S w (tri_if (f_is2xx m)) = Some S'" "running S0 w S'" "s_type S' = TYPE_NICT"
      "getState S' w \<le> CLIENT_COMPLETED"
    using nict_stop_ok [OF assms] by blast
  moreover from this(2) have "getState S' Parent \<le> TRN_STATE_TERMINATED"
    by (rule running_state)
  ultimately show ?thesis
    by (auto simp: nict_final_def Let_def setState_put is_client_def intro!: running_intros)
qed

lemma nict_switch_ok:
  assumes "running S0 w S" "s_type S = TYPE_NICT" "getState S Parent \<le> CLIENT_COMPLETED"
  shows "\<exists>S'. nict_switch E S w m = Some S' \<and> running S0 w S'"
  unfolding nict_switch_def using assms
  by (auto simp: setState_put is_client_def intro!: nict_final_ok running_intros)

lemma nict_receive_ok:
  assumes "running S0 w S" "s_type S = TYPE_NICT" "getState S Parent \<le> CLIENT_COMPLETED"
  shows "\<exists>S'. SIPNict_onReceivedMessage E S w m = Some S' \<and> settled S0 S'"
proof -
  obtain S' where S': "nict_switch E S w m = Some S'" "running S0 w S'"
    using nict_switch_ok [OF assms] by blast
  have "settled S0 (let S = (if getState S' w = TRN_STATE_TERMINATED then terminate S' w else S')
       in if w \<noteq> Parent \<and> getState S Parent = TRN_STATE_TERMINATED then terminate S Parent else S)"
  proof (cases w)
    case Parent
    then show ?thesis
      using S'(2) running_terminate_parent by (auto simp: Let_def)
  next
    case (Branch b)
    then have "running S0 w (terminate S' w)"
      using S'(2) running_terminate_branch by blast
    then show ?thesis
      using S'(2) running_terminate_parent by (auto simp: Let_def)
  qed
  then show ?thesis
    using S' assms by (auto simp: SIPNict_onReceivedMessage_def Let_def)
qed

lemma nict_retransmit_ok:
  assumes "running S0 w S" "s_type S = TYPE_NICT"
  shows "\<exists>S'. SIPNict_handleRetransmitRequest E S w = Some S' \<and> settled S0 S'"
proof -
  obtain r where "t_request (trn_of S w) = Some r"
    using assms by (auto simp: running_def is_client_def)
  then show ?thesis
    using assms by (auto simp: SIPNict_handleRetransmitRequest_def Let_def intro!: running_settled [of _ w] running_intros)
qed

lemma nict_timeout_ok:
  assumes "running S0 w S"
  shows "fine S0 (\<not> answerable E S) (SIPNict_handleRequestTimeout E S w)"
proof -
  have "running S0 w (nict_cancel (cancelTimer TimerK S w) w)"
    using assms by (intro running_nict_cancel running_intros) auto
  then show ?thesis
    by (rule handleTimeout_ok [of _ _ _ E]) (use assms in \<open>auto simp: SIPNict_handleRequestTimeout_def fine_def running_terminate\<close>)
qed

section \<open>The servers\<close>

lemma ist_send_ok:
  assumes "running S0 w S" "s_type S = TYPE_IST"
  shows "\<exists>b S'. SIPIst_onSendMessage E S w m = Some (b, S') \<and> settled S0 S' \<and> (\<not> b \<longrightarrow> running S0 w S')"
proof -
  let ?S = "upd S w (\<lambda>x. x\<lparr>t_response := Some m\<rparr>)"
  let ?D = "upd ?S w (\<lambda>x. x\<lparr>t_hasSent2xx := True\<rparr>)"
  have S: "running S0 w ?S"
    using assms by (intro running_same) auto
  have 2: "running S0 w (put TRN_STATE_TERMINATED ?D w)"
    using S assms by (auto intro!: running_intros)
  have 3: "running S0 w (startTimer E TimerH 0 (if \<not> e_reliable E
      then startTimer E TimerG 0 (upd (put IST_COMPLETED ?S w) w
        (\<lambda>x. x\<lparr>t_timerGValue := timer_value (e_timers E) TimerG\<rparr>)) w
      else put IST_COMPLETED ?S w) w)" if "getState S w \<le> IST_PROCEEDING"
    using S assms that by (auto intro!: running_intros)
  show ?thesis
    using assms S 2 3 running_terminate [OF 2]
    by (auto simp: SIPIst_onSendMessage_def Let_def setState_put)
qed

lemma nist_send_ok:
  assumes "running S0 w S" "s_type S = TYPE_NIST"
  shows "\<exists>b S'. SIPNist_onSendMessage E S w m = Some (b, S') \<and> settled S0 S' \<and> (\<not> b \<longrightarrow> running S0 w S')"
proof -
  let ?S = "upd S w (\<lambda>x. x\<lparr>t_response := Some m\<rparr>)"
  have S: "running S0 w ?S"
    using assms by (intro running_same) auto
  have 2: "running S0 w (put NIST_PROCEEDING ?S w)" "running S0 w (put NIST_COMPLETED (startTimer E TimerJ 0 ?S w) w)"
    if "getState S w \<le> NIST_PROCEEDING"
    using S assms that by (auto intro!: running_intros)
  show ?thesis
    using assms S 2 running_terminate [OF S]
    by (auto simp: SIPNist_onSendMessage_def Let_def setState_put)
qed

lemma settled_emit:
  assumes "settled S0 S" "ev \<noteq> RemoveTransaction"
  shows "settled S0 (emit ev S)"
  using assms by (auto simp: settled_def set_ok_def evolves_def parent_ok_def removals_def)

lemma running_parent: "running S0 w S \<Longrightarrow> running S0 Parent S"
  by (simp add: running_def parent_ok_def)

lemma running_transport: "running S0 w S \<Longrightarrow> s_transport S"
  by (simp add: running_def parent_ok_def)

lemma running_upd_branch:
  assumes "running S0 Parent S"
    and "let x = trn_of S (Branch b); y = f x in
      trn_ok (s_type S) (s_now S) y \<and> t_hasTerminated y = t_hasTerminated x \<and>
      (is_client (s_type S) \<longrightarrow> t_request y \<noteq> None) \<and> t_state x \<le> t_state y"
  shows "running S0 (Branch b) (upd S (Branch b) f)"
proof -
  have "evolves S (upd S (Branch b) f)"
    using assms(2) by (auto simp: evolves_def Let_def)
  moreover have "set_ok (upd S (Branch b) f)"
    using assms by (auto simp: set_ok_def running_def Let_def parent_ok_def removals_def)
  ultimately show ?thesis
    using assms evolves_trans unfolding running_def parent_ok_def Let_def by auto
qed

lemma absent_branch: "b \<notin> branch_tags S \<Longrightarrow> trn_of S (Branch b) = new_trn"
  by (auto simp: trn_of.simps branch_tags_def split: option.split dest: map_of_SomeD) (metis image_eqI fst_conv map_of_SomeD)

lemma trn_ok_new: "trn_ok ty now (new_trn\<lparr>t_request := r\<rparr>)"
  by (simp add: trn_ok_def new_trn_def)

lemma findBranch_ok:
  assumes "running S0 Parent S"
  obtains "SIPTransaction_findBranch S m = (None, S)"
  | b S' where "SIPTransaction_findBranch S m = (Some (Branch b), S')" "running S0 (Branch b) S'"
    "s_type S' = s_type S" "trn_of S' Parent = trn_of S Parent"
proof (cases "f_toTag m = []")
  case True
  then show ?thesis
    using that(1) by (simp add: SIPTransaction_findBranch_def)
next
  case False
  let ?b = "f_toTag m" and ?new = "\<lambda>x. new_trn\<lparr>t_request := t_request (s_parent S)\<rparr>"
  show ?thesis
  proof (cases "?b \<in> branch_tags S")
    case True
    then have "running S0 (Branch ?b) S"
      using assms by (simp add: running_def set_ok_def)
    then show ?thesis
      using True False that(2) by (simp add: SIPTransaction_findBranch_def branch_tags_def)
  next
    case absent: False
    have "running S0 (Branch ?b) (upd S (Branch ?b) ?new)"
      using assms absent_branch [OF absent] trn_ok_new
      by (intro running_upd_branch) (auto simp: running_def parent_ok_def new_trn_def)
    then show ?thesis
      using absent False that(2) [of ?b "upd S (Branch ?b) ?new"]
      by (simp add: SIPTransaction_findBranch_def branch_tags_def Let_def)
  qed
qed

lemma server_send_ok:
  assumes "running S0 w S" "\<not> is_client (s_type S)"
  shows "\<exists>b S'. fsm_onSendMessage E S w m = Some (b, S') \<and> settled S0 S' \<and> (\<not> b \<longrightarrow> running S0 w S')"
  using assms ist_send_ok [OF assms(1)] nist_send_ok [OF assms(1)]
  by (cases "s_type S") (simp_all add: fsm_onSendMessage_def is_client_def)

lemma writeMessage_ok:
  assumes "s_transport S"
    "\<exists>b S'. fsm_onSendMessage E S w m = Some (b, S') \<and> settled S0 S' \<and> (\<not> b \<longrightarrow> running S0 w S')"
  shows "\<exists>S'. SIPTransaction_writeMessage E S w m = Some S' \<and> settled S0 S'"
  using assms by (auto simp: SIPTransaction_writeMessage_def intro!: settled_emit running_terminate)

lemma send_on_ok:
  assumes "running S0 w S" "\<not> is_client (s_type S)"
  shows "\<exists>S'. send_on E link S w m = Some S' \<and> settled S0 S'"
  using writeMessage_ok [OF running_transport [OF assms(1)] server_send_ok [OF assms]]
    running_terminate [OF assms(1)] running_transport [OF assms(1)]
  by (auto simp: send_on_def)

lemma sendResponse_ok:
  assumes "running S0 w S" "\<not> is_client (s_type S)" "\<not> tri_if (tri_not (f_isResponse m))"
  shows "\<exists>S'. SIPTransaction_sendResponse E link S w m = Some S' \<and> settled S0 S'"
proof (cases "w = Parent")
  case True
  then have "running S0 Parent S"
    using assms by simp
  then show ?thesis
  proof (cases rule: findBranch_ok [of _ _ m])
    case 1
    then show ?thesis
      using assms True send_on_ok [OF assms(1,2)] running_transport [OF assms(1)]
      by (auto simp: SIPTransaction_sendResponse_def)
  next
    case (2 b S')
    then show ?thesis
      using assms True send_on_ok [OF 2(2)] running_transport [OF assms(1)]
      by (auto simp: SIPTransaction_sendResponse_def)
  qed
next
  case False
  then show ?thesis
    using assms send_on_ok [OF assms(1,2)] by (auto simp: SIPTransaction_sendResponse_def)
qed

text \<open>A provisional response changes nothing but the last response.\<close>

lemma ist_send_1xx:
  assumes "running S0 v S" "s_type S = TYPE_IST" "f_isResponse m = Some True" "f_is1xx m = Some True"
  shows "send_on E LinkAlive S v m = Some (emit (WriteMessage v m) (upd S v (\<lambda>x. x\<lparr>t_response := Some m\<rparr>)))"
  using assms running_transport [OF assms(1)]
  by (simp add: send_on_def SIPTransaction_writeMessage_def fsm_onSendMessage_def SIPIst_onSendMessage_def
      tri_if_def tri_not_def Let_def)

lemma ist_trying_ok:
  assumes "running S0 w S" "s_type S = TYPE_IST" "f_isResponse m = Some True" "f_is1xx m = Some True"
  shows "\<exists>S'. SIPTransaction_sendResponse E LinkAlive S w m = Some S' \<and> running S0 w S' \<and>
    getState S' w = getState S w \<and> t_queuedMsg (trn_of S' w) = t_queuedMsg (trn_of S w) \<and> s_type S' = TYPE_IST"
proof -
  have keep: "running S0 v (emit (WriteMessage v m) (upd T v (\<lambda>x. x\<lparr>t_response := Some m\<rparr>)))" if "running S0 v T" for v T
    using that by (auto intro!: running_intros)
  show ?thesis
  proof (cases "w = Parent")
    case True
    then have "running S0 Parent S"
      using assms by simp
    then show ?thesis
    proof (cases rule: findBranch_ok [of _ _ m])
      case 1
      then show ?thesis
        using assms True keep [OF assms(1)] ist_send_1xx [OF assms] running_transport [OF assms(1)]
        by (simp add: SIPTransaction_sendResponse_def tri_if_def tri_not_def)
    next
      case (2 b S')
      then show ?thesis
        using assms True running_parent [OF keep [OF 2(2)]] ist_send_1xx [OF 2(2)] running_transport [OF assms(1)]
        by (simp add: SIPTransaction_sendResponse_def tri_if_def tri_not_def getState_def)
    qed
  next
    case False
    then show ?thesis
      using assms keep [OF assms(1)] ist_send_1xx [OF assms]
      by (simp add: SIPTransaction_sendResponse_def tri_if_def tri_not_def)
  qed
qed

text \<open>What a server asks of a request that it hands to the request handler or has to wait with.\<close>

definition handler_ok :: "fsm_env \<Rightarrow> fmsg \<Rightarrow> bool" where
  "handler_ok E m \<longleftrightarrow>
     (e_requestHandler E \<longrightarrow> (\<exists>m'. fix_rport E (f_msg m) = Some (Inr m'))) \<and>
     (e_throttle E \<noteq> None \<longrightarrow> can_respond (e_boost E) (f_msg m))"

lemma requestHandler_ok:
  assumes "running S0 w S" "\<not> is_client (s_type S)"
  shows "fine S0 (\<not> handler_ok E m) (call_requestHandler E S w m)"
  using running_settled [OF assms(1)] running_settled [OF running_share [OF assms]]
  by (auto simp: call_requestHandler_def fine_def handler_ok_def Let_def intro!: settled_emit split: option.splits sum.splits)

lemma requestHandler_state: "call_requestHandler E S v m = Some S' \<Longrightarrow> getState S' w = getState S w"
  by (auto simp: call_requestHandler_def Let_def split: if_splits option.splits sum.splits)

text \<open>A transaction set before its first message.\<close>

definition fresh :: "trn_set \<Rightarrow> trn_set \<Rightarrow> bool" where
  "fresh S0 S \<longleftrightarrow> settled S0 S \<and> s_transport S \<and> getState S Parent = TRN_STATE_IDLE \<and> \<not> t_hasTerminated (s_parent S) \<and>
     t_state (s_parent S0) = TRN_STATE_IDLE \<and> \<not> t_hasTerminated (s_parent S0)"

lemma fresh_parent:
  assumes "fresh S0 S" "t_timers y = (t_timers (s_parent S))(TimerMaxLifetime \<mapsto> s_now S + 300000)" "t_request y \<noteq> None"
    "t_state y = t_state (s_parent S)" "t_hasTerminated y = t_hasTerminated (s_parent S)"
    "t_queuedMsg y = t_queuedMsg (s_parent S)"
  shows "running S0 Parent (upd S Parent (\<lambda>_. y))" (is "running S0 Parent ?S")
proof -
  have ok: "trn_ok (s_type S) (s_now S) (s_parent S)"
    using assms by (metis fresh_def settled_def set_ok_def trn_of.simps(1))
  have "set_ok ?S"
    using assms ok by (auto simp: fresh_def settled_def set_ok_def parent_ok_def removals_def trn_ok_def)
  moreover have "evolves S0 ?S"
    using assms by (auto simp: fresh_def settled_def evolves_def)
  ultimately show ?thesis
    using assms by (auto simp: running_def parent_ok_def fresh_def)
qed

lemma fresh_start:
  assumes "fresh S0 S"
  shows "running S0 Parent (upd (arm TimerMaxLifetime 300000 S Parent) Parent (\<lambda>x. x\<lparr>t_request := Some m\<rparr>))"
    "running S0 Parent (arm TimerMaxLifetime 300000 (upd S Parent (\<lambda>x. x\<lparr>t_request := Some m\<rparr>)) Parent)"
proof -
  let ?x = "s_parent S" and ?T = "(t_timers (s_parent S))(TimerMaxLifetime \<mapsto> s_now S + 300000)"
  have "running S0 Parent (upd S Parent (\<lambda>_. ?x\<lparr>t_timers := ?T, t_request := Some m\<rparr>))"
    "running S0 Parent (upd S Parent (\<lambda>_. ?x\<lparr>t_request := Some m, t_timers := ?T\<rparr>))"
    by (rule fresh_parent [OF assms]; simp)+
  then show "running S0 Parent (upd (arm TimerMaxLifetime 300000 S Parent) Parent (\<lambda>x. x\<lparr>t_request := Some m\<rparr>))"
    "running S0 Parent (arm TimerMaxLifetime 300000 (upd S Parent (\<lambda>x. x\<lparr>t_request := Some m\<rparr>)) Parent)"
    by (simp_all add: arm_def upd.simps)
qed

lemma fresh_same:
  assumes "fresh S0 S" "\<And>x. t_state (f x) = t_state x" "\<And>x. t_hasTerminated (f x) = t_hasTerminated x"
    "\<And>x. t_timers (f x) = t_timers x" "\<And>x. t_request (f x) = t_request x" "\<And>x. t_queuedMsg (f x) = t_queuedMsg x"
  shows "fresh S0 (upd S Parent f)"
proof -
  have ok: "trn_ok (s_type S) (s_now S) (f (s_parent S))"
    using assms unfolding trn_ok_def fresh_def settled_def set_ok_def by (metis trn_of.simps(1))
  have "set_ok (upd S Parent f)"
    using assms ok by (auto simp: fresh_def settled_def set_ok_def parent_ok_def removals_def)
  moreover have "evolves S0 (upd S Parent f)"
    using assms by (auto simp: fresh_def settled_def evolves_def)
  ultimately show ?thesis
    using assms by (auto simp: fresh_def settled_def)
qed

definition ready :: "trn_set \<Rightarrow> who \<Rightarrow> trn_set \<Rightarrow> bool" where
  "ready S0 w S \<longleftrightarrow> running S0 w S \<and> (w = Parent \<longrightarrow> getState S w \<noteq> TRN_STATE_IDLE) \<or> w = Parent \<and> fresh S0 S"

lemma first_request_ok:
  assumes "ready S0 w S" "\<not> is_client (s_type S)"
  shows "running S0 w (first_request S w m)" "getState (first_request S w m) v = getState S v"
    "s_type (first_request S w m) = s_type S" "t_queuedMsg (trn_of (first_request S w m) v) = t_queuedMsg (trn_of S v)"
proof -
  show "running S0 w (first_request S w m)"
  proof (cases w)
    case Parent
    then show ?thesis
      using assms fresh_start(2) [of S0 S] by (auto simp: ready_def first_request_def fresh_def)
  next
    case (Branch b)
    then have r: "running S0 w S"
      using assms by (simp add: ready_def)
    have "running S0 w (upd S w (\<lambda>x. x\<lparr>t_request := Some m\<rparr>))" (is "running S0 w ?T")
      unfolding Branch using r assms(2) trn_okD [OF r, of w] Branch
      by (intro running_upd_branch running_parent [OF r]) (auto simp: trn_ok_def)
    then have "running S0 w (arm TimerMaxLifetime 300000 ?T w)" if "getState S w = TRN_STATE_IDLE"
      unfolding Branch arm_def using r assms(2) trn_okD [OF r, of w] Branch that
      by (intro running_upd_branch running_parent [of _ "Branch b"]) (auto simp: trn_ok_def getState_def)
    then show ?thesis
      using r by (simp add: first_request_def)
  qed
qed (simp_all add: first_request_def primitive_trn)

lemma queue_request_ok:
  assumes "running S0 w S" "\<not> is_client (s_type S)" "getState S w \<le> SERVER_QUEUED"
  obtains S' where "queue_request S w m = Some S'" "running S0 w S'" "getState S' w = SERVER_QUEUED" "s_type S' = s_type S"
proof
  let ?S = "share m (mark_queued m) S w"
  let ?T = "upd ?S w (\<lambda>x. x\<lparr>t_queuedMsg := Some (mark_queued m)\<rparr>)"
  have r: "running S0 w ?S"
    using assms by (intro running_share)
  then have "running S0 w ?T"
    using trn_okD [OF r, of w] by (intro running_upd [OF r]) (auto simp: trn_ok_def)
  then show "running S0 w (put SERVER_QUEUED ?T w)"
    using assms by (intro running_put) auto
  show "queue_request S w m = Some (put SERVER_QUEUED ?T w)" "getState (put SERVER_QUEUED ?T w) w = SERVER_QUEUED"
    "s_type (put SERVER_QUEUED ?T w) = s_type S"
    using assms(3) by (simp_all add: queue_request_def setState_put)
qed

lemma running_throttle:
  assumes "running S0 w S" "\<not> is_client (s_type S)" "getState S w = SERVER_QUEUED"
  shows "running S0 w (arm TimerRequestThrottle n S w)"
  using trn_okD [OF assms(1), of w] assms
  by (intro running_arm) (cases "s_type S"; auto simp: trn_ok_def getState_def is_client_def)+

lemma ist_wait_ok:
  assumes "running S0 w S" "s_type S = TYPE_IST" "getState S w \<le> SERVER_QUEUED" "e_throttle E \<noteq> None"
  obtains S1 v S' where "queue_request S w m = Some S1" "make_response E 100 ''Allocating Channel'' (mark_queued m) = Some v"
      "SIPTransaction_sendResponse E LinkAlive S1 w v = Some S'" "running S0 w S'" "getState S' w = SERVER_QUEUED" "s_type S' = TYPE_IST"
  | S1 where "queue_request S w m = Some S1" "make_response E 100 ''Allocating Channel'' (mark_queued m) = None" "\<not> handler_ok E m"
proof -
  have nc: "\<not> is_client (s_type S)"
    using assms(2) by (simp add: is_client_def)
  obtain S1 where S1: "queue_request S w m = Some S1" "running S0 w S1" "getState S1 w = SERVER_QUEUED" "s_type S1 = s_type S"
    using queue_request_ok [OF assms(1) nc assms(3)] by blast
  show ?thesis
  proof (cases rule: make_response_cases [of E "mark_queued m" 100 "''Allocating Channel''"])
    case (1 r v)
    have "f_isResponse v = Some True" "f_is1xx v = Some True"
      using trying_flags [OF 1(3,4)] by simp_all
    then obtain S' where "SIPTransaction_sendResponse E LinkAlive S1 w v = Some S'" "running S0 w S'" "getState S' w = SERVER_QUEUED"
        "s_type S' = TYPE_IST"
      using ist_trying_ok [OF S1(2)] S1 assms(2) by fastforce
    then show ?thesis
      using that(1) S1(1) 1(2) by blast
  next
    case 2
    then show ?thesis
      using that(2) S1(1) assms(4) by (simp add: handler_ok_def mark_queued_def)
  qed
qed

lemma ist_first_ok:
  assumes "ready S0 w S" "s_type S = TYPE_IST" "getState S w \<le> SERVER_QUEUED"
  shows "fine S0 (\<not> handler_ok E m) (ist_first (\<lambda>S m. SIPTransaction_sendResponse E LinkAlive S w m) E S w m)"
    "ist_first (\<lambda>S m. SIPTransaction_sendResponse E LinkAlive S w m) E S w m = Some S1 \<Longrightarrow> getState S1 w \<noteq> TRN_STATE_IDLE"
proof -
  have nc: "\<not> is_client (s_type S)"
    using assms(2) by (simp add: is_client_def)
  let ?r = "ist_first (\<lambda>S m. SIPTransaction_sendResponse E LinkAlive S w m) E S w m" and ?S = "first_request S w m"
  note F = first_request_ok [OF assms(1) nc, of m]
  have "fine S0 (\<not> handler_ok E m) ?r \<and> (?r = Some S1 \<longrightarrow> getState S1 w \<noteq> TRN_STATE_IDLE)"
  proof (cases "throttle_delay E ?S m = 0")
    case True
    have "running S0 w (put IST_PROCEEDING ?S w)"
      using F assms by (intro running_put) auto
    then show ?thesis
      using True F(2,3) assms(3) nc requestHandler_ok [of S0 w "put IST_PROCEEDING ?S w"] requestHandler_state
      by (fastforce simp: ist_first_def Let_def setState_put)
  next
    case False
    then have th: "e_throttle E \<noteq> None"
      by (auto simp: throttle_delay_def split: option.splits)
    have throttle: "settled S0 (arm TimerRequestThrottle n T w)"
      if "running S0 w T" "getState T w = SERVER_QUEUED" "s_type T = TYPE_IST" for n T
      using that by (intro running_settled [of _ w] running_throttle) (auto simp: is_client_def)
    show ?thesis
    proof (cases "getState S w = TRN_STATE_IDLE")
      case True
      show ?thesis
        using False True F throttle assms
        by (cases rule: ist_wait_ok [OF F(1) _ _ th, of m])
          (auto simp: ist_first_def Let_def fine_def)
    next
      case busy: False
      then have "settled S0 (arm TimerRequestThrottle n ?S w)" for n
        using F nc assms by (intro throttle) auto
      then show ?thesis
        using False busy F(2) assms(3) by (auto simp: ist_first_def Let_def fine_def)
    qed
  qed
  then show "fine S0 (\<not> handler_ok E m) ?r" "?r = Some S1 \<Longrightarrow> getState S1 w \<noteq> TRN_STATE_IDLE"
    by blast+
qed

lemma nist_first_ok:
  assumes "ready S0 w S" "s_type S = TYPE_NIST" "getState S w \<le> SERVER_QUEUED"
  shows "fine S0 (\<not> handler_ok E m) (nist_first E S w m)"
    "nist_first E S w m = Some S1 \<Longrightarrow> getState S1 w \<noteq> TRN_STATE_IDLE"
proof -
  have nc: "\<not> is_client (s_type S)"
    using assms(2) by (simp add: is_client_def)
  let ?r = "nist_first E S w m" and ?S = "first_request S w m"
  note F = first_request_ok [OF assms(1) nc, of m]
  have "fine S0 (\<not> handler_ok E m) ?r \<and> (?r = Some S1 \<longrightarrow> getState S1 w \<noteq> TRN_STATE_IDLE)"
  proof (cases "throttle_delay E ?S m = 0")
    case True
    have "running S0 w (put NIST_TRYING ?S w)"
      using F assms by (intro running_put) auto
    then show ?thesis
      using True F(2,3) assms(3) nc requestHandler_ok [of S0 w "put NIST_TRYING ?S w"] requestHandler_state
      by (fastforce simp: nist_first_def Let_def setState_put)
  next
    case False
    have lim: "getState ?S w \<le> SERVER_QUEUED" "\<not> is_client (s_type ?S)"
      using F nc assms(3) by auto
    obtain Q where Q: "queue_request ?S w m = Some Q" "running S0 w Q" "getState Q w = SERVER_QUEUED" "s_type Q = s_type ?S"
      using queue_request_ok [OF F(1) lim(2,1)] by blast
    then have "running S0 w (arm TimerRequestThrottle n Q w)" for n
      using lim by (intro running_throttle) auto
    moreover have "running S0 w (arm TimerRequestThrottle n ?S w)" if "getState S w \<noteq> TRN_STATE_IDLE" for n
      using F nc assms(3) that by (intro running_throttle) auto
    ultimately show ?thesis
      using False F(2) assms(3) Q by (auto simp: nist_first_def Let_def fine_def intro: running_settled)
  qed
  then show "fine S0 (\<not> handler_ok E m) ?r" "?r = Some S1 \<Longrightarrow> getState S1 w \<noteq> TRN_STATE_IDLE"
    by blast+
qed

lemma ready_settled: "ready S0 w S \<Longrightarrow> settled S0 S"
  using running_settled by (auto simp: ready_def fresh_def)

lemma ready_running: "ready S0 w S \<Longrightarrow> getState S w \<noteq> TRN_STATE_IDLE \<Longrightarrow> running S0 w S"
  by (auto simp: ready_def fresh_def)

lemma ready_same:
  assumes "ready S0 w S" "\<And>x. t_state (f x) = t_state x" "\<And>x. t_hasTerminated (f x) = t_hasTerminated x"
    "\<And>x. t_timers (f x) = t_timers x" "\<And>x. t_request (f x) = t_request x" "\<And>x. t_queuedMsg (f x) = t_queuedMsg x"
  shows "ready S0 w (upd S w f)"
  using assms running_same [of S0 w S w f] fresh_same [of S0 S f] by (auto simp: ready_def)

text \<open>The waiting request has what \<open>createResponse\<close> asks of it, and what makes a server throw.\<close>

definition queued_ok :: "fsm_env \<Rightarrow> trn_set \<Rightarrow> who \<Rightarrow> bool" where
  "queued_ok E S w = (case t_queuedMsg (trn_of S w) of None \<Rightarrow> True | Some m \<Rightarrow> can_respond (e_boost E) (f_msg m))"

definition server_fails :: "fsm_env \<Rightarrow> trn_set \<Rightarrow> who \<Rightarrow> fmsg \<Rightarrow> bool" where
  "server_fails E S w m \<longleftrightarrow>
     getState S w = TRN_STATE_IDLE \<and> \<not> handler_ok E m \<or>
     getState S w = SERVER_QUEUED \<and> f_queued m \<and> (\<not> handler_ok E m \<or> \<not> queued_ok E S w)"

lemma queued_request_ok:
  assumes "ready S0 w S" "\<not> is_client (s_type S)"
  obtains S' where "queued_request (\<lambda>S m. SIPTransaction_sendResponse E LinkAlive S w m) E S w m = Some (True, S')" "settled S0 S'"
  | S' where "queued_request (\<lambda>S m. SIPTransaction_sendResponse E LinkAlive S w m) E S w m = Some (False, S')"
    "ready S0 w S'" "getState S' w = getState S w" "s_type S' = s_type S" "getState S w = SERVER_QUEUED \<longrightarrow> f_queued m"
  | "queued_request (\<lambda>S m. SIPTransaction_sendResponse E LinkAlive S w m) E S w m = None" "server_fails E S w m"
proof (cases "getState S w = SERVER_QUEUED \<and> f_queued m")
  case False
  then show ?thesis
    using that(1,2) assms ready_settled [OF assms(1)] by (cases "getState S w = SERVER_QUEUED") (auto simp: queued_request_def)
next
  case True
  let ?S = "upd S w (\<lambda>x. x\<lparr>t_queuedCounter := t_queuedCounter x + 1\<rparr>)"
  have r: "running S0 w S" and S: "ready S0 w ?S"
    using ready_running [OF assms(1)] ready_same [OF assms(1)] True by simp_all
  have "t_queuedMsg (trn_of S w) \<noteq> None"
    using trn_okD [OF r, of w] True assms(2) by (simp add: trn_ok_def getState_def)
  then obtain q where q: "t_queuedMsg (trn_of S w) = Some q"
    by auto
  have run: "running S0 w ?S"
    using ready_running [OF S] True by simp
  show ?thesis
  proof (cases rule: make_response_cases [of E q 503 "''Resource/Channels Depleted''"])
    case (1 x v)
    then have "\<not> tri_if (tri_not (f_isResponse v))"
      using depleted_flags [OF 1(3,4)] by (simp add: tri_if_def tri_not_def)
    with run obtain S' where "SIPTransaction_sendResponse E LinkAlive ?S w v = Some S'" "settled S0 S'"
      using sendResponse_ok [of S0 w ?S v E] assms(2) by auto
    then show ?thesis
      using that(1,2) True S q 1(2)
      by (cases "t_queuedCounter (trn_of ?S w) > QUEUE_RETRY_MAX") (auto simp: queued_request_def Let_def)
  next
    case 2
    then have "server_fails E S w m"
      using True q by (simp add: server_fails_def queued_ok_def)
    then show ?thesis
      using that(2,3) True S q 2
      by (cases "t_queuedCounter (trn_of ?S w) > QUEUE_RETRY_MAX") (auto simp: queued_request_def Let_def)
  qed
qed

lemma ist_receive_ok:
  assumes "ready S0 w S" "s_type S = TYPE_IST"
  shows "fine S0 (server_fails E S w m) (SIPIst_onReceivedMessage (\<lambda>S m. SIPTransaction_sendResponse E LinkAlive S w m) E S w m)"
proof -
  let ?S = "upd S w (\<lambda>x. x\<lparr>t_hasId := True\<rparr>)"
  have same: "server_fails E ?S w m = server_fails E S w m"
    by (simp add: server_fails_def queued_ok_def)
  have "ready S0 w ?S" "\<not> is_client (s_type ?S)"
    using assms by (auto intro!: ready_same simp: is_client_def)
  then show ?thesis
  proof (cases rule: queued_request_ok [where E = E and m = m])
    case (1 S')
    then show ?thesis
      by (simp add: SIPIst_onReceivedMessage_def fine_def)
  next
    case (2 S')
    let ?H = "cancelTimer TimerH S' w"
    have st: "s_type S' = TYPE_IST"
      using 2 assms by simp
    have ack: "running S0 w (startTimer E TimerI 0 (cancelTimer TimerG (put IST_CONFIRMED ?H w) w) w)"
      "settled S0 (terminate (put TRN_STATE_TERMINATED ?H w) w)" if "getState S' w = IST_COMPLETED"
      using ready_running [OF 2(2)] that st by (auto intro!: running_terminate running_intros)
    have again: "settled S0 (emit (WriteMessage w r) S')" for r
      using ready_settled [OF 2(2)] by (rule settled_emit) simp
    have first: "fine S0 (server_fails E S w m) (ist_first (\<lambda>S m. SIPTransaction_sendResponse E LinkAlive S w m) E S' w m)"
      if "getState S' w \<le> SERVER_QUEUED"
      using 2(3,5) that by (intro fine_mono [OF ist_first_ok(1) [OF 2(2) st that]]) (auto simp: server_fails_def)
    show ?thesis
      using 2(1) first ack again ready_settled [OF 2(2)]
      by (auto simp: SIPIst_onReceivedMessage_def fine_def [of _ _ "Some _"] setState_put Let_def split: option.split)
  next
    case 3
    then show ?thesis
      using same by (simp add: SIPIst_onReceivedMessage_def fine_def)
  qed
qed

lemma nist_receive_ok:
  assumes "ready S0 w S" "s_type S = TYPE_NIST"
  shows "fine S0 (server_fails E S w m) (SIPNist_onReceivedMessage (\<lambda>S m. SIPTransaction_sendResponse E LinkAlive S w m) E S w m)"
proof -
  have "\<not> is_client (s_type S)"
    using assms by (simp add: is_client_def)
  with assms(1) show ?thesis
  proof (cases rule: queued_request_ok [where E = E and m = m])
    case (1 S')
    then show ?thesis
      by (simp add: SIPNist_onReceivedMessage_def fine_def)
  next
    case (2 S')
    have st: "s_type S' = TYPE_NIST"
      using 2 assms by simp
    have again: "settled S0 (emit (WriteMessage w r) S')" for r
      using ready_settled [OF 2(2)] by (rule settled_emit) simp
    have first: "fine S0 (server_fails E S w m) (nist_first E S' w m)" if "getState S' w \<le> SERVER_QUEUED"
      using 2(3,5) that by (intro fine_mono [OF nist_first_ok(1) [OF 2(2) st that]]) (auto simp: server_fails_def)
    show ?thesis
      using 2(1) first again ready_settled [OF 2(2)]
      by (auto simp: SIPNist_onReceivedMessage_def fine_def [of _ _ "Some _"] split: option.split)
  next
    case 3
    then show ?thesis
      by (simp add: SIPNist_onReceivedMessage_def fine_def)
  qed
qed

lemma ist_retransmit_ok: "running S0 w S \<Longrightarrow> s_type S = TYPE_IST \<Longrightarrow> settled S0 (SIPIst_handleRetransmitResponse E S w)"
  by (auto simp: SIPIst_handleRetransmitResponse_def Let_def split: option.split
      intro!: running_settled [of _ w] running_intros)

end
