(* ===== verification/SIP_TrnRuns.thy ===== *)
theory SIP_TrnRuns
  imports SIP_TrnMachines
begin

text \<open>
  Runs of a transaction set: the events that can happen in a state, the sets that are reached, and the
  properties of all runs.
\<close>

section \<open>Events\<close>

lemma set_fields [simp]:
  "removals (S\<lparr>s_initial := i\<rparr>) = removals S"
  "trn_of (S\<lparr>s_transport := b\<rparr>) w = trn_of S w" "branch_tags (S\<lparr>s_transport := b\<rparr>) = branch_tags S" "removals (S\<lparr>s_transport := b\<rparr>) = removals S"
  "trn_of (S\<lparr>s_hasTU := b\<rparr>) w = trn_of S w" "branch_tags (S\<lparr>s_hasTU := b\<rparr>) = branch_tags S" "removals (S\<lparr>s_hasTU := b\<rparr>) = removals S"
  "trn_of (S\<lparr>s_hasTerminateCallback := b\<rparr>) w = trn_of S w" "branch_tags (S\<lparr>s_hasTerminateCallback := b\<rparr>) = branch_tags S"
  "removals (S\<lparr>s_hasTerminateCallback := b\<rparr>) = removals S"
  "trn_of (S\<lparr>s_now := n\<rparr>) w = trn_of S w" "branch_tags (S\<lparr>s_now := n\<rparr>) = branch_tags S" "removals (S\<lparr>s_now := n\<rparr>) = removals S"
  by (cases w; simp add: trn_of.simps branch_tags_def removals_def)+

text \<open>The two states agree but for the members that the invariant does not mention.\<close>

definition same_trns :: "trn_set \<Rightarrow> trn_set \<Rightarrow> bool" where
  "same_trns S T \<longleftrightarrow> (\<forall>w. trn_of T w = trn_of S w) \<and> s_parent T = s_parent S \<and> branch_tags T = branch_tags S \<and>
     removals T = removals S \<and> s_type T = s_type S \<and> s_now T = s_now S \<and> (s_transport S \<longrightarrow> s_transport T)"

lemma same_settled: "same_trns S T \<Longrightarrow> settled S0 S \<Longrightarrow> settled S0 T"
  unfolding same_trns_def settled_def set_ok_def evolves_def parent_ok_def by auto

lemma same_running: "same_trns S T \<Longrightarrow> running S0 w S \<Longrightarrow> running S0 w T"
  using same_settled [of S T S0] unfolding running_def settled_def same_trns_def parent_ok_def by auto

lemma same_fresh: "same_trns S T \<Longrightarrow> fresh S0 S \<Longrightarrow> fresh S0 T"
  using same_settled [of S T S0] unfolding fresh_def same_trns_def getState_def by auto

lemma same_ready: "same_trns S T \<Longrightarrow> ready S0 w S \<Longrightarrow> ready S0 w T"
  using same_running [of S T S0 w] same_fresh [of S T S0] unfolding ready_def same_trns_def getState_def by auto

definition started :: "trn_set \<Rightarrow> bool" where
  "started S \<longleftrightarrow> set_ok S \<and> getState S Parent \<noteq> TRN_STATE_IDLE \<and> \<not> t_hasTerminated (s_parent S)"

lemma started_running:
  assumes "started S" "w = Parent \<or> w \<in> Branch ` branch_tags S"
  shows "running S w S"
  using assms by (auto simp: started_def running_def set_ok_def parent_ok_def getState_def)

lemma started_ready: "started S \<Longrightarrow> w = Parent \<or> w \<in> Branch ` branch_tags S \<Longrightarrow> ready S w S"
  using started_running by (auto simp: ready_def started_def)

definition nict_live :: "trn_set \<Rightarrow> bool" where
  "nict_live S \<longleftrightarrow> (s_type S = TYPE_NICT \<longrightarrow> getState S Parent \<le> CLIENT_COMPLETED \<or> t_hasTerminated (s_parent S))"

lemma fsm_receive_ok:
  assumes "ready S0 w S" "is_client (s_type S) \<Longrightarrow> running S0 w S"
    "s_type S = TYPE_NICT \<Longrightarrow> getState S Parent \<le> CLIENT_COMPLETED"
  shows "fine S0 (\<not> is_client (s_type S) \<and> server_fails E S w m) (fsm_onReceivedMessage E S w m)"
proof (cases "s_type S")
  case TYPE_ICT
  then show ?thesis
    using assms ict_receive_ok [of S0 w S E m] by (auto simp: fsm_onReceivedMessage_def is_client_def intro: fineI)
next
  case TYPE_NICT
  then show ?thesis
    using assms nict_receive_ok [of S0 w S E m] by (auto simp: fsm_onReceivedMessage_def is_client_def intro: fineI)
next
  case TYPE_IST
  then show ?thesis
    using assms ist_receive_ok [of S0 w S E m] by (simp add: fsm_onReceivedMessage_def is_client_def)
next
  case TYPE_NIST
  then show ?thesis
    using assms nist_receive_ok [of S0 w S E m] by (simp add: fsm_onReceivedMessage_def is_client_def)
qed

lemma ict_send_ok:
  assumes "ready S0 Parent S" "s_type S = TYPE_ICT"
  shows "\<exists>b S'. SIPIct_onSendMessage E S Parent m = Some (b, S') \<and> running S0 Parent S' \<and> getState S' Parent \<noteq> TRN_STATE_IDLE"
proof (cases "getState S Parent = TRN_STATE_IDLE")
  case True
  let ?S = "upd (arm TimerMaxLifetime 300000 S Parent) Parent (\<lambda>x. x\<lparr>t_request := Some m\<rparr>)"
  have "running S0 Parent ?S"
    using assms True fresh_start(1) by (auto simp: ready_def)
  then show ?thesis
    using assms True
    by (auto simp: SIPIct_onSendMessage_def Let_def setState_put is_client_def split: option.split
        intro!: running_intros running_arm)
qed (use assms ready_running [OF assms(1)] in \<open>auto simp: SIPIct_onSendMessage_def\<close>)

lemma nict_send_ok:
  assumes "ready S0 Parent S" "s_type S = TYPE_NICT"
  shows "\<exists>b S'. SIPNict_onSendMessage E S Parent m = Some (b, S') \<and> running S0 Parent S' \<and> getState S' Parent \<noteq> TRN_STATE_IDLE"
proof (cases "getState S Parent = TRN_STATE_IDLE")
  case True
  let ?S = "upd (arm TimerMaxLifetime 300000 S Parent) Parent (\<lambda>x. x\<lparr>t_request := Some m\<rparr>)"
  have "running S0 Parent ?S"
    using assms True fresh_start(1) by (auto simp: ready_def)
  then show ?thesis
    using assms True
    by (auto simp: SIPNict_onSendMessage_def Let_def setState_put is_client_def intro!: running_intros)
qed (use assms ready_running [OF assms(1)] in \<open>auto simp: SIPNict_onSendMessage_def\<close>)

lemma settled_state: "settled S0 S \<Longrightarrow> getState S0 w \<le> getState S w"
  by (simp add: settled_def evolves_def getState_def)

lemma running_self: "running S0 w S \<Longrightarrow> running S w S"
  by (simp add: running_def)

lemma running_evolves: "running S0 w S \<Longrightarrow> settled S T \<Longrightarrow> settled S0 T"
  using settled_trans unfolding running_def by blast

lemma client_write_ok:
  assumes "ready S0 Parent S" "is_client (s_type S)" "s_transport S"
  shows "\<exists>S'. SIPTransaction_writeMessage E S Parent m = Some S' \<and> settled S0 S' \<and> getState S' Parent \<noteq> TRN_STATE_IDLE"
proof -
  obtain b T where T: "fsm_onSendMessage E S Parent m = Some (b, T)" "running S0 Parent T" "getState T Parent \<noteq> TRN_STATE_IDLE"
    using ict_send_ok [OF assms(1), of E m] nict_send_ok [OF assms(1), of E m] assms(2)
    by (cases "s_type S") (auto simp: fsm_onSendMessage_def is_client_def)
  let ?U = "if b then emit (WriteMessage Parent m) T else terminate T Parent"
  have "settled T ?U"
    using running_terminate_parent [OF running_self [OF T(2)]] running_settled [OF running_self [OF T(2)]]
    by (auto intro!: settled_emit)
  then show ?thesis
    using T assms(3) running_evolves [OF T(2)] settled_state [of T ?U Parent]
    by (auto simp: SIPTransaction_writeMessage_def)
qed

text \<open>The transaction or branch that a message is given to, and when that throws.\<close>

definition target :: "fmsg \<Rightarrow> who" where
  "target m = (if tri_if (f_isRequest m) \<and> \<not> f_isAck m \<or> f_toTag m = [] then Parent else Branch (f_toTag m))"

definition receive_fails :: "fsm_env \<Rightarrow> trn_set \<Rightarrow> fmsg \<Rightarrow> bool" where
  "receive_fails E S m \<longleftrightarrow> \<not> is_client (s_type S) \<and> server_fails E S (target m) m"

lemma server_fails_same:
  "trn_of T w = trn_of S w \<Longrightarrow> server_fails E T w m = server_fails E S w m"
  by (simp add: server_fails_def queued_ok_def getState_def)

lemma findBranch_fails:
  assumes "SIPTransaction_findBranch S m = (Some (Branch b), T)"
  shows "b = f_toTag m \<and> b \<noteq> [] \<and> server_fails E T (Branch b) m = server_fails E S (Branch b) m"
proof (cases "b \<in> branch_tags S")
  case True
  then show ?thesis
    using assms by (auto simp: SIPTransaction_findBranch_def Let_def branch_tags_def split: if_splits)
next
  case False
  then show ?thesis
    using assms absent_branch [OF False]
    by (auto simp: SIPTransaction_findBranch_def Let_def branch_tags_def server_fails_def queued_ok_def getState_def new_trn_def
        split: if_splits)
qed

lemma receive_ok:
  assumes "started S" "nict_live S"
  shows "fine S (receive_fails E S m) (SIPTransaction_onReceivedMessage E S m)"
proof -
  define T where "T = (if tri_if (f_isRequest m) \<and> s_initial S = None \<and> \<not> f_isAck m then S\<lparr>s_initial := Some m\<rparr> else S)
      \<lparr>s_transport := True\<rparr>"
  have same: "same_trns S T"
    by (simp add: same_trns_def T_def)
  then have ty: "s_type T = s_type S" and st: "getState T Parent = getState S Parent"
    by (simp_all add: same_trns_def getState_def)
  have parent: "ready S Parent T" "running S Parent T"
    using same_ready [OF same started_ready [OF assms(1)]] same_running [OF same started_running [OF assms(1)]] by simp_all
  have nict: "s_type S = TYPE_NICT \<Longrightarrow> getState S Parent \<le> CLIENT_COMPLETED"
    using assms by (simp add: nict_live_def started_def)
  have def: "SIPTransaction_onReceivedMessage E S m =
     (if tri_if (f_isRequest m) \<and> \<not> f_isAck m then fsm_onReceivedMessage E T Parent m
      else if tri_if (tri_not (f_isRequest m)) \<or> f_isAck m then
        (case SIPTransaction_findBranch T m of
           (Some b, S) \<Rightarrow> fsm_onReceivedMessage E S b m
         | (None, S) \<Rightarrow> fsm_onReceivedMessage E S Parent m)
      else Some T)"
    by (simp only: SIPTransaction_onReceivedMessage_def Let_def T_def)
  have same_fails: "server_fails E T w m = server_fails E S w m" for w
    using same by (intro server_fails_same) (simp add: same_trns_def)
  have on_parent: "fine S (\<not> is_client (s_type S) \<and> server_fails E S Parent m) (fsm_onReceivedMessage E T Parent m)"
    using fsm_receive_ok [OF parent(1), of E m] parent(2) ty st nict same_fails by simp
  from parent(2) show ?thesis
  proof (cases rule: findBranch_ok [where m = m])
    case 1
    then have "f_toTag m = []"
      by (simp add: SIPTransaction_findBranch_def Let_def split: if_splits)
    with 1 show ?thesis
      using on_parent running_settled [OF parent(2)]
      by (simp add: def fine_def [of _ _ "Some _"] receive_fails_def target_def)
  next
    case (2 b U)
    have "fine S (\<not> is_client (s_type U) \<and> server_fails E U (Branch b) m) (fsm_onReceivedMessage E U (Branch b) m)"
      using 2 ty st nict by (intro fsm_receive_ok) (auto simp: ready_def getState_def)
    then show ?thesis
      using on_parent 2 ty running_settled [OF parent(2)] findBranch_fails [OF 2(1), of E] same_fails
      by (auto simp: def fine_def [of _ _ "Some _"] receive_fails_def target_def)
  qed
qed


section \<open>Time\<close>

definition all_timers :: "timer list" where
  "all_timers = [TimerA, TimerB, TimerC, TimerD, TimerE, TimerF, TimerG, TimerH, TimerI, TimerJ, TimerK,
     TimerClientExpires, TimerMaxLifetime, TimerRequestThrottle]"

text \<open>No timer of the set is due before a given time.\<close>

definition known :: "trn_set \<Rightarrow> who list" where
  "known S = Parent # map (Branch \<circ> fst) (s_branches S)"

definition due_after :: "nat \<Rightarrow> trn_set \<Rightarrow> bool" where
  "due_after n S \<longleftrightarrow>
     list_all (\<lambda>w. list_all (\<lambda>t. case t_timers (trn_of S w) t of None \<Rightarrow> True | Some d \<Rightarrow> n \<le> d) all_timers) (known S)"

lemma all_timers: "t \<in> set all_timers"
  by (cases t) (simp_all add: all_timers_def)

lemma armed_known: "t_timers (trn_of S w) t \<noteq> None \<Longrightarrow> w = Parent \<or> w \<in> Branch ` branch_tags S"
proof (cases w)
  case (Branch b)
  assume "t_timers (trn_of S w) t \<noteq> None"
  then have "b \<in> branch_tags S"
    using absent_branch [of b S] Branch by (cases "b \<in> branch_tags S") (simp_all add: new_trn_def)
  with Branch show ?thesis
    by simp
qed simp

lemma due_after_iff: "due_after n S \<longleftrightarrow> (\<forall>w t d. t_timers (trn_of S w) t = Some d \<longrightarrow> n \<le> d)"
proof
  assume n: "due_after n S"
  show "\<forall>w t d. t_timers (trn_of S w) t = Some d \<longrightarrow> n \<le> d"
  proof (intro allI impI)
    fix w t d
    assume d: "t_timers (trn_of S w) t = Some d"
    then have "w \<in> set (known S)"
      using armed_known [of S w t] by (auto simp: known_def branch_tags_def)
    then have "case t_timers (trn_of S w) t of None \<Rightarrow> True | Some d \<Rightarrow> n \<le> d"
      using n all_timers [of t] by (simp only: due_after_def list_all_iff)
    with d show "n \<le> d"
      by simp
  qed
qed (auto simp: due_after_def list_all_iff split: option.split)

lemma due_afterD: "due_after n S \<Longrightarrow> t_timers (trn_of S w) t = Some d \<Longrightarrow> n \<le> d"
  by (auto simp: due_after_iff)

lemma trn_ok_later:
  "trn_ok ty now x \<Longrightarrow> now \<le> n \<Longrightarrow> (\<And>t d. t_timers x t = Some d \<Longrightarrow> n \<le> d) \<Longrightarrow> trn_ok ty n x"
  by (force simp: trn_ok_def)

lemma set_ok_trn:
  assumes "set_ok S"
  shows "trn_ok (s_type S) (s_now S) (trn_of S w)" "trn_ok (s_type S) (s_now S) (s_parent S)"
proof -
  show "trn_ok (s_type S) (s_now S) (trn_of S w)" for w
    using assms unfolding set_ok_def by blast
  from this [of Parent] show "trn_ok (s_type S) (s_now S) (s_parent S)"
    by simp
qed

lemma settled_later:
  assumes "set_ok S" "s_now S \<le> n" "due_after n S"
  shows "settled S (S\<lparr>s_now := n\<rparr>)"
proof -
  have "trn_ok (s_type S) n (trn_of S w)" for w
    by (rule trn_ok_later [OF set_ok_trn(1) [OF assms(1)] assms(2) due_afterD [OF assms(3)]])
  then have "set_ok (S\<lparr>s_now := n\<rparr>)"
    using assms(1) unfolding set_ok_def parent_ok_def by auto
  moreover have "evolves S (S\<lparr>s_now := n\<rparr>)"
    using assms(2) by (simp add: evolves_def)
  ultimately show ?thesis
    by (simp add: settled_def)
qed

lemma running_later:
  assumes "running S w S" "s_now S \<le> n" "due_after n S"
  shows "running S w (S\<lparr>s_now := n\<rparr>)"
  using assms settled_later [of S n] by (auto simp: running_def settled_def parent_ok_def)

lemma expire_ok:
  assumes "running S w S" "t_timers (trn_of S w) t = Some d" "due_after d S" "w \<noteq> Parent \<or> t \<noteq> TimerMaxLifetime"
  shows "running S w (expire S w t d)"
proof -
  have r: "running S w (S\<lparr>s_now := d\<rparr>)"
    using assms trn_okD [OF assms(1), of w] by (intro running_later) (auto simp: trn_ok_def)
  show ?thesis
  proof (cases w)
    case Parent
    then show ?thesis
      using r assms by (auto simp: expire_def intro!: running_cancel)
  next
    case (Branch b)
    then show ?thesis
      using r trn_okD [OF r, of w] unfolding expire_def cancelTimer_def Branch
      by (intro running_upd_branch running_parent [OF r [unfolded Branch]]) (auto simp: trn_ok_def running_def)
  qed
qed

lemma expire_simps [simp]:
  "s_type (expire S w t d) = s_type S" "getState (expire S w t d) v = getState S v"
  "t_queuedMsg (trn_of (expire S w t d) v) = t_queuedMsg (trn_of S v)" "answerable E (expire S w t d) = answerable E S"
  "server_fails E (expire S w t d) v m = server_fails E S v m"
  by (simp_all add: expire_def cancelTimer_def getState_def answerable_def server_fails_def queued_ok_def)

lemma terminate_expired:
  "\<not> t_hasTerminated (s_parent S) \<Longrightarrow>
   terminate_parent (expire S Parent TimerMaxLifetime d) = terminate_parent (S\<lparr>s_now := d\<rparr>)"
  by (simp add: expire_def cancelTimer_def terminate_parent_def mark_terminated_def cancelAllTimers_def
      onTerminate_def upd.simps Let_def)

lemma lifetime_ok:
  assumes "started S" "t_timers (s_parent S) TimerMaxLifetime = Some d" "due_after d S"
  shows "settled S (handleDelayedTerminate (expire S Parent TimerMaxLifetime d) Parent)"
    "t_hasTerminated (s_parent (handleDelayedTerminate (expire S Parent TimerMaxLifetime d) Parent))"
proof -
  let ?T = "S\<lparr>s_now := d\<rparr>"
  have S: "set_ok S" "\<not> t_hasTerminated (s_parent S)"
    using assms(1) by (simp_all add: started_def)
  have "s_now S \<le> d"
    using set_ok_trn(2) [OF S(1)] assms(2) by (simp add: trn_ok_def)
  then have now: "settled S ?T"
    using S(1) assms(3) by (intro settled_later)
  then have ok: "set_ok ?T"
    by (simp add: settled_def)
  have eq: "handleDelayedTerminate (expire S Parent TimerMaxLifetime d) Parent = terminate_parent ?T"
    using terminate_parent_settled(2) [OF ok]
    by (simp add: handleDelayedTerminate_def terminate_expired [OF S(2)] Let_def terminate_parent_def [of "terminate_parent ?T"])
  show "settled S (handleDelayedTerminate (expire S Parent TimerMaxLifetime d) Parent)"
    "t_hasTerminated (s_parent (handleDelayedTerminate (expire S Parent TimerMaxLifetime d) Parent))"
    using terminate_parent_settled [OF ok] now settled_trans [of S ?T] unfolding eq by (auto simp: settled_def)
qed

text \<open>A timer throws when it gives a waiting request to a server that throws, and when a client cannot make
  the response that reports a timeout.\<close>

definition timer_fails :: "fsm_env \<Rightarrow> trn_set \<Rightarrow> who \<Rightarrow> timer \<Rightarrow> bool" where
  "timer_fails E S w t \<longleftrightarrow>
     (if is_client (s_type S) then (t = TimerB \<or> t = TimerF) \<and> \<not> answerable E S
      else t = TimerRequestThrottle \<and> (\<exists>m. t_queuedMsg (trn_of S w) = Some m \<and> server_fails E S w m))"

lemma timer_ok:
  assumes "started S" "nict_live S" "t_timers (trn_of S w) t = Some d" "due_after d S"
  shows "fine S (timer_fails E S w t) (fsm_timer E (expire S w t d) w t)"
proof (cases "w = Parent \<and> t = TimerMaxLifetime")
  case True
  then show ?thesis
    using assms lifetime_ok(1) [OF assms(1)] by (cases "s_type S") (auto simp: fsm_timer_def fine_def)
next
  case False
  let ?S = "expire S w t d"
  have r0: "running S w S"
    using started_running [OF assms(1)] armed_known [of S w t] assms(3) by simp
  have r: "running S w ?S"
    using r0 False assms(3,4) by (intro expire_ok) auto
  have bound: "timer_bound (s_type S) t" and q: "t = TimerRequestThrottle \<Longrightarrow> t_queuedMsg (trn_of S w) \<noteq> None"
    using trn_okD [OF r0, of w] assms(3) by (auto simp: trn_ok_def)
  have nict: "s_type S = TYPE_NICT \<Longrightarrow> getState S Parent \<le> CLIENT_COMPLETED"
    using assms(1,2) by (simp add: nict_live_def started_def)
  have ready: "ready S w ?S"
    using r assms(1) by (simp add: ready_def started_def)
  show ?thesis
  proof (cases "t = TimerRequestThrottle")
    case True
    then show ?thesis
      using bound q fsm_receive_ok [OF ready, of E]
      by (cases "s_type S") (auto simp: fsm_timer_def timer_fails_def is_client_def)
  next
    case other: False
    show ?thesis
    proof (cases "s_type S")
      case TYPE_ICT
      have ict_timeout: "fine S (\<not> answerable E S) (SIPIct_handleInviteTimeout E ?S w)"
        using ict_timeout_ok [OF r, of E] by simp
      show ?thesis
        using TYPE_ICT bound r ict_timeout
        by (cases t) (auto simp: fsm_timer_def timer_fails_def is_client_def
            intro!: fineI ict_retransmit_ok ict_expires_ok delayed_terminate_ok)
    next
      case TYPE_NICT
      have nict_timeout: "fine S (\<not> answerable E S) (SIPNict_handleRequestTimeout E ?S w)"
        using nict_timeout_ok [OF r, of E] by simp
      show ?thesis
        using TYPE_NICT bound r nict_timeout
        by (cases t) (auto simp: fsm_timer_def timer_fails_def is_client_def
            intro!: fineI nict_retransmit_ok delayed_terminate_ok)
    next
      case TYPE_IST
      then show ?thesis
        using bound r other
        by (cases t) (auto simp: fsm_timer_def SIPIst_handleACKTimeout_def
            intro!: fineI ist_retransmit_ok running_terminate delayed_terminate_ok)
    next
      case TYPE_NIST
      then show ?thesis
        using bound r other by (cases t) (auto simp: fsm_timer_def intro!: fineI delayed_terminate_ok)
    qed
  qed
qed

section \<open>The parent of a non-invite client\<close>

definition calm :: "trn_set \<Rightarrow> bool" where
  "calm S \<longleftrightarrow> getState S Parent \<le> CLIENT_COMPLETED \<or> t_hasTerminated (s_parent S)"

lemma parent_terminated: "t_hasTerminated (s_parent (terminate_parent S))"
  using terminate_parent_simps(1) [of S Parent] by (cases "t_hasTerminated (s_parent S)") (simp_all add: terminate_parent_def)

lemma calm_terminate: "calm S \<Longrightarrow> calm (terminate S w)"
  using parent_terminated [of S] terminate_branch_simps(1) [of S _ Parent]
  by (cases w) (auto simp: calm_def getState_def)

lemma calm_delayed: "calm S \<Longrightarrow> calm (handleDelayedTerminate S w)"
  using calm_terminate by (simp add: handleDelayedTerminate_def Let_def del: terminate.simps)

lemma nict_stop_state:
  "nict_stop S w b = Some S' \<Longrightarrow> getState S Parent \<le> CLIENT_COMPLETED \<Longrightarrow> getState S' Parent \<le> CLIENT_COMPLETED"
  by (auto simp: nict_stop_def setState_put Let_def split: if_splits)

lemma nict_final_state:
  "nict_final E S w m = Some S' \<Longrightarrow> getState S Parent \<le> CLIENT_COMPLETED \<Longrightarrow>
   getState S' Parent \<le> CLIENT_COMPLETED \<or> getState S' Parent = TRN_STATE_TERMINATED"
  using nict_stop_state [of S w "tri_if (f_is2xx m)"]
  by (auto simp: nict_final_def setState_put Let_def split: if_splits bind_splits)

lemma nict_switch_state:
  "nict_switch E S w m = Some S' \<Longrightarrow> getState S Parent \<le> CLIENT_COMPLETED \<Longrightarrow>
   getState S' Parent \<le> CLIENT_COMPLETED \<or> getState S' Parent = TRN_STATE_TERMINATED"
  using nict_final_state [of E S w m S']
  by (auto simp: nict_switch_def setState_put split: if_splits)

lemma nict_receive_calm:
  assumes "SIPNict_onReceivedMessage E S w m = Some S'" "getState S Parent \<le> CLIENT_COMPLETED"
  shows "calm S'"
proof -
  define F where "F T = (let S = (if getState T w = TRN_STATE_TERMINATED then terminate T w else T)
       in if w \<noteq> Parent \<and> getState S Parent = TRN_STATE_TERMINATED then terminate S Parent else S)" for T
  have calm: "calm (F T)" if "nict_switch E S w m = Some T" for T
    using nict_switch_state [OF that assms(2)] parent_terminated terminate_branch_simps(1) [of T _ Parent]
    unfolding F_def by (cases w) (auto simp: calm_def Let_def getState_def)
  have "SIPNict_onReceivedMessage E S w m = (if tri_if (tri_not (f_isResponse m)) \<or>
      getState S w = TRN_STATE_TERMINATED \<or> getState S w = CLIENT_COMPLETED then Some S
      else map_option F (nict_switch E S w m))"
    by (cases "nict_switch E S w m") (simp_all add: SIPNict_onReceivedMessage_def F_def Let_def)
  then show ?thesis
    using calm assms by (cases "nict_switch E S w m") (auto simp: calm_def [of S] split: if_split_asm)
qed

lemma nict_write_calm:
  "SIPTransaction_writeMessage E S Parent m = Some S' \<Longrightarrow> s_type S = TYPE_NICT \<Longrightarrow> calm S \<Longrightarrow> calm S'"
  using parent_terminated
  by (auto simp: SIPTransaction_writeMessage_def fsm_onSendMessage_def SIPNict_onSendMessage_def setState_put Let_def
      calm_def split: if_splits)

section \<open>Runs\<close>

text \<open>The events that can happen in a started transaction set: a client sends requests and a server
  responses, an ACK for a 2xx belongs to an invite client, and time passes up to the next deadline.\<close>

fun admissible :: "trn_set \<Rightarrow> event \<Rightarrow> bool" where
  "admissible S (EvSendRequest cb tcb created m) = (is_client (s_type S) \<and> \<not> tri_if (tri_not (f_isRequest m)))"
| "admissible S (EvSendResponse link m) = (\<not> is_client (s_type S) \<and> \<not> tri_if (tri_not (f_isResponse m)))"
| "admissible S (EvReceive m) = True"
| "admissible S (EvAckFor2xx m) = (s_type S = TYPE_ICT)"
| "admissible S (EvConnectionError reason) = True"
| "admissible S (EvTimer w t) = (case t_timers (trn_of S w) t of None \<Rightarrow> False | Some d \<Rightarrow> due_after d S)"
| "admissible S (EvTick n) = due_after (s_now S + n) S"

text \<open>A client transaction begins with a request that is sent, a server transaction with one that is
  received.\<close>

fun first_event :: "trn_type \<Rightarrow> event \<Rightarrow> bool" where
  "first_event ty (EvSendRequest cb tcb created m) = (is_client ty \<and> \<not> tri_if (tri_not (f_isRequest m)))"
| "first_event ty (EvReceive m) = (\<not> is_client ty \<and> tri_if (f_isRequest m) \<and> \<not> f_isAck m)"
| "first_event ty _ = False"

text \<open>The only exceptions that leave a step are those of the header functions and of
  \<open>createResponse\<close>.\<close>

fun step_fails :: "fsm_env \<Rightarrow> trn_set \<Rightarrow> event \<Rightarrow> bool" where
  "step_fails E S (EvReceive m) = receive_fails E S m"
| "step_fails E S (EvConnectionError reason) = (\<not> answerable E S)"
| "step_fails E S (EvTimer w t) = timer_fails E S w t"
| "step_fails E S _ = False"

lemma sendRequest_ok:
  assumes "ready S0 Parent (S\<lparr>s_transport := True\<rparr>)" "is_client (s_type S)" "\<not> tri_if (tri_not (f_isRequest m))"
    "s_transport S \<or> c"
  shows "\<exists>S'. SIPTransaction_sendRequest E cb tcb c S m = Some S' \<and> settled S0 S' \<and> getState S' Parent \<noteq> TRN_STATE_IDLE"
proof -
  define T where "T = (if s_initial S = None then S\<lparr>s_initial := Some m\<rparr> else S)\<lparr>s_hasTU := s_hasTU S \<or> cb,
      s_hasTerminateCallback := s_hasTerminateCallback S \<or> tcb, s_transport := True\<rparr>"
  have same: "same_trns (S\<lparr>s_transport := True\<rparr>) T"
    by (simp add: same_trns_def T_def)
  then have "is_client (s_type T)" "s_transport T"
    using assms(2) by (auto simp: same_trns_def)
  then show ?thesis
    using client_write_ok [OF same_ready [OF same assms(1)], of E m] assms(3,4)
    by (cases "s_initial S") (auto simp: SIPTransaction_sendRequest_def Let_def T_def)
qed

lemma connectionError_ok:
  assumes "started S" "nict_live S"
  shows "fine S (\<not> answerable E S) (SIPTransaction_handleConnectionError E reason S)"
proof -
  have r: "running S Parent S" "ready S Parent S"
    using started_running [OF assms(1)] started_ready [OF assms(1)] by simp_all
  have receive: "fine S False (fsm_onReceivedMessage E S Parent v)" if "\<not> f_queued v" for v
    using fsm_receive_ok [OF r(2), of E v] r(1) assms that by (simp add: nict_live_def started_def server_fails_def)
  have "fine S (\<not> answerable E S) (do { v \<leftarrow> make_response E 480 reason m; fsm_onReceivedMessage E S Parent v })"
    if "s_initial S = Some m" for m
    by (rule make_response_cases [of E m 480 reason])
      (use that fine_mono [OF receive] in \<open>auto simp: answerable_def fine_def [of _ _ None]\<close>)
  then show ?thesis
    using running_settled [OF r(1)]
    by (auto simp: SIPTransaction_handleConnectionError_def fine_def [of _ _ "Some _"] split: option.split)
qed

lemma step_ok:
  assumes "started S" "nict_live S" "admissible S ev"
  shows "fine S (step_fails E S ev) (trn_step E S ev)"
proof -
  have r: "running S Parent S" and q: "ready S Parent S"
    using started_running [OF assms(1)] started_ready [OF assms(1)] by simp_all
  have tr: "s_transport S"
    by (rule running_transport [OF r])
  then have id: "S\<lparr>s_transport := True\<rparr> = S"
    by simp
  show ?thesis
  proof (cases ev)
    case (EvSendRequest cb tcb c m)
    then show ?thesis
      using sendRequest_ok [of S S m c E cb tcb] q tr assms(3) by (auto simp: trn_step_def id intro: fineI)
  next
    case (EvSendResponse link m)
    then show ?thesis
      using sendResponse_ok [OF r, of m E link] assms(3) by (auto simp: trn_step_def intro: fineI)
  next
    case (EvReceive m)
    then show ?thesis
      using receive_ok [OF assms(1,2)] by (simp add: trn_step_def)
  next
    case (EvAckFor2xx m)
    then show ?thesis
      using client_write_ok [OF q _ tr, of E m] assms(3) tr
      by (auto simp: trn_step_def SIPTransaction_sendAckFor2xx_def is_client_def intro: fineI)
  next
    case (EvConnectionError reason)
    then show ?thesis
      using connectionError_ok [OF assms(1,2)] by (simp add: trn_step_def)
  next
    case (EvTimer w t)
    then show ?thesis
      using timer_ok [OF assms(1,2)] assms(3) by (auto simp: trn_step_def split: option.splits)
  next
    case (EvTick n)
    then show ?thesis
      using settled_later [of S "s_now S + n"] assms(1,3) by (simp add: trn_step_def fine_def started_def)
  qed
qed

lemma calm_fields [simp]:
  "calm (S\<lparr>s_initial := i\<rparr>) = calm S" "calm (S\<lparr>s_transport := b\<rparr>) = calm S" "calm (S\<lparr>s_hasTU := b\<rparr>) = calm S"
  "calm (S\<lparr>s_hasTerminateCallback := b\<rparr>) = calm S" "calm (S\<lparr>s_now := n\<rparr>) = calm S" "calm (emit ev S) = calm S"
  by (simp_all add: calm_def getState_def)

lemma getState_fields [simp]:
  "getState (S\<lparr>s_initial := i\<rparr>) w = getState S w" "getState (S\<lparr>s_transport := b\<rparr>) w = getState S w"
  by (simp_all add: getState_def)

lemma findBranch_parent:
  "SIPTransaction_findBranch S m = (b, S') \<Longrightarrow> getState S' Parent = getState S Parent \<and> s_type S' = s_type S"
  by (auto simp: SIPTransaction_findBranch_def Let_def getState_def split: if_splits)

lemma nict_timer_calm:
  assumes "fsm_timer E S w t = Some S'" "s_type S = TYPE_NICT" "calm S"
  shows "calm S'"
proof -
  have "calm S'" if "SIPNict_handleRetransmitRequest E S w = Some S'"
    using that assms(3)
    by (auto simp: SIPNict_handleRetransmitRequest_def Let_def calm_def getState_def startTimer_def arm_def
        split: if_splits bind_splits)
  moreover have "calm S'" if "SIPNict_handleRequestTimeout E S w = Some S'"
  proof -
    have "calm T" if "handleTimeout E (nict_cancel (cancelTimer TimerK S w) w) w = Some T" for T
      using that assms(3)
      by (auto simp: handleTimeout_def Let_def calm_def nict_cancel_def cancelTimer_def getState_def bind_eq_Some_conv)
    then show ?thesis
      using that assms(3) calm_terminate by (auto simp: SIPNict_handleRequestTimeout_def bind_eq_Some_conv split: if_splits)
  qed
  ultimately show ?thesis
    using assms calm_delayed [OF assms(3)] by (auto simp: fsm_timer_def split: timer.splits)
qed

lemma nict_step_calm:
  assumes "started S" "nict_live S" "s_type S = TYPE_NICT" "trn_step E S ev = Some S'" "admissible S ev"
  shows "calm S'"
proof -
  have le: "getState S Parent \<le> CLIENT_COMPLETED" and r: "running S Parent S"
    using assms(1-3) started_running [OF assms(1)] by (simp_all add: started_def nict_live_def)
  have tr: "s_transport S"
    by (rule running_transport [OF r])
  have calm: "calm S"
    using le by (simp add: calm_def)
  show ?thesis
  proof (cases ev)
    case (EvSendRequest cb tcb c m)
    then show ?thesis
      using assms(3-) tr calm
      by (auto simp: trn_step_def SIPTransaction_sendRequest_def Let_def split: if_splits intro: nict_write_calm)
  next
    case (EvReceive m)
    then show ?thesis
      using assms(3,4) le calm
      by (auto simp: trn_step_def SIPTransaction_onReceivedMessage_def Let_def fsm_onReceivedMessage_def
          split: if_splits prod.splits option.splits intro: nict_receive_calm dest!: findBranch_parent)
  next
    case (EvConnectionError reason)
    then show ?thesis
      using assms(3,4) calm nict_receive_calm [OF _ le]
      by (auto simp: trn_step_def SIPTransaction_handleConnectionError_def fsm_onReceivedMessage_def bind_eq_Some_conv
          split: option.splits if_splits)
  next
    case (EvTimer w t)
    have "calm (expire S w t d)" for d
      using calm by (simp add: expire_def cancelTimer_def calm_def getState_def)
    then show ?thesis
      using EvTimer assms(3,4) calm nict_timer_calm by (auto simp: trn_step_def split: option.splits)
  next
    case (EvTick n)
    then show ?thesis
      using assms(4) calm by (auto simp: trn_step_def)
  qed (use assms(3,5) in \<open>auto simp: is_client_def\<close>)
qed


lemma new_set_trn: "trn_of (new_set ty) w = new_trn"
  by (cases w) (simp_all add: new_set_def trn_of.simps)

lemma new_set_ok: "set_ok ((new_set ty)\<lparr>s_now := n\<rparr>)"
proof -
  have "trn_ok ty n new_trn"
    by (simp add: trn_ok_def new_trn_def)
  moreover have "s_parent (new_set ty) = new_trn" "s_type (new_set ty) = ty" "branch_tags (new_set ty) = {}" "removals (new_set ty) = 0"
    by (simp_all add: new_set_def branch_tags_def removals_def)
  moreover have "t_state new_trn = TRN_STATE_IDLE" "\<not> t_hasTerminated new_trn"
    by (simp_all add: new_trn_def)
  ultimately show ?thesis
    by (simp add: set_ok_def new_set_trn)
qed

lemma new_settled: "same_trns ((new_set ty)\<lparr>s_now := n\<rparr>) T \<Longrightarrow> settled ((new_set ty)\<lparr>s_now := n\<rparr>) T"
  by (rule same_settled, assumption) (simp add: settled_def new_set_ok)

lemma new_set_fresh: "fresh ((new_set ty)\<lparr>s_now := n\<rparr>) ((new_set ty)\<lparr>s_now := n, s_transport := True\<rparr>)"
  (is "fresh ?S ?T")
proof -
  have "settled ?S ?T"
    by (rule new_settled) (simp add: same_trns_def)
  then show ?thesis
    by (simp add: fresh_def getState_def) (simp add: new_set_def new_trn_def)
qed

lemma server_first:
  assumes "fresh S0 S" "\<not> is_client (s_type S)" "tri_if (f_isRequest m)" "fsm_onReceivedMessage E S Parent m = Some S'"
  shows "settled S0 S'" "getState S' Parent \<noteq> TRN_STATE_IDLE"
proof -
  have ready: "ready S0 Parent S"
    using assms(1) by (simp add: ready_def)
  have idle: "getState S Parent = TRN_STATE_IDLE"
    using assms(1) by (simp add: fresh_def)
  show "settled S0 S'"
    using fsm_receive_ok [OF ready, of E m] assms(2,4) by (auto simp: fine_def is_client_def)
  show "getState S' Parent \<noteq> TRN_STATE_IDLE"
  proof (cases "s_type S")
    case TYPE_IST
    let ?S = "upd S Parent (\<lambda>x. x\<lparr>t_hasId := True\<rparr>)"
    have "ready S0 Parent ?S"
      using ready by (intro ready_same) auto
    from ist_first_ok(2) [OF this] show ?thesis
      using assms(3,4) idle TYPE_IST
      by (simp add: fsm_onReceivedMessage_def SIPIst_onReceivedMessage_def queued_request_def Let_def)
  next
    case TYPE_NIST
    from nist_first_ok(2) [OF ready this] show ?thesis
      using assms(3,4) idle TYPE_NIST
      by (simp add: fsm_onReceivedMessage_def SIPNist_onReceivedMessage_def queued_request_def Let_def)
  qed (use assms(2) in \<open>simp_all add: is_client_def\<close>)
qed

text \<open>The transaction sets that are reached by the events, beginning with the first one.\<close>

inductive trn_reach :: "fsm_env \<Rightarrow> trn_type \<Rightarrow> trn_set \<Rightarrow> bool" for E ty where
  first: "first_event ty ev \<Longrightarrow> trn_step E ((new_set ty)\<lparr>s_now := n\<rparr>) ev = Some S \<Longrightarrow> trn_reach E ty S"
| step: "trn_reach E ty S \<Longrightarrow> \<not> t_hasTerminated (s_parent S) \<Longrightarrow> admissible S ev \<Longrightarrow> trn_step E S ev = Some S' \<Longrightarrow>
    trn_reach E ty S'"

definition reach_ok :: "trn_type \<Rightarrow> trn_set \<Rightarrow> bool" where
  "reach_ok ty S \<longleftrightarrow> set_ok S \<and> s_type S = ty \<and> getState S Parent \<noteq> TRN_STATE_IDLE \<and> nict_live S"

lemma first_request_sent:
  assumes "is_client ty" "\<not> tri_if (tri_not (f_isRequest m))"
    "SIPTransaction_sendRequest E cb tcb c ((new_set ty)\<lparr>s_now := n\<rparr>) m = Some S"
  shows "reach_ok ty S"
proof -
  let ?N = "(new_set ty)\<lparr>s_now := n\<rparr>"
  have ty: "s_type ?N = ty" and calm: "calm ?N" and idle: "s_initial ?N = None" "\<not> s_transport ?N" "\<not> s_hasTU ?N"
    by (simp_all add: new_set_def new_trn_def calm_def getState_def)
  have "settled ?N S \<and> getState S Parent \<noteq> TRN_STATE_IDLE \<and> (ty = TYPE_NICT \<longrightarrow> calm S)"
  proof (cases c)
    case True
    have "ready ?N Parent (?N\<lparr>s_transport := True\<rparr>)"
      using new_set_fresh by (simp add: ready_def)
    from sendRequest_ok [OF this, of m True E cb tcb]
    have "settled ?N S \<and> getState S Parent \<noteq> TRN_STATE_IDLE"
      using assms True ty by auto
    moreover have "calm S" if "ty = TYPE_NICT"
      using assms(2,3) True ty calm idle that
      by (auto simp: SIPTransaction_sendRequest_def Let_def intro: nict_write_calm)
    ultimately show ?thesis
      by simp
  next
    case False
    let ?T = "?N\<lparr>s_initial := Some m, s_hasTU := cb, s_hasTerminateCallback := tcb\<rparr>"
    obtain U where U: "U = ?T \<or> (\<exists>response. U = emit (TransportErrorTU response) ?T)" and S: "S = terminate_parent U"
      using assms(2,3) False
      by (auto simp: SIPTransaction_sendRequest_def Let_def new_set_def bind_eq_Some_conv split: if_splits)
    have "settled ?N U"
      using U by (intro new_settled) (auto simp: same_trns_def)
    then have "settled ?N S" "t_hasTerminated (s_parent S)"
      using terminate_parent_settled [of U] settled_trans [of ?N U S] by (auto simp: S settled_def)
    then show ?thesis
      using set_ok_trn(2) [of S] by (auto simp: settled_def calm_def trn_ok_def getState_def)
  qed
  then show ?thesis
    using ty by (auto simp: reach_ok_def settled_def evolves_def nict_live_def calm_def)
qed

lemma first_request_received:
  assumes "\<not> is_client ty" "tri_if (f_isRequest m)" "\<not> f_isAck m"
    "SIPTransaction_onReceivedMessage E ((new_set ty)\<lparr>s_now := n\<rparr>) m = Some S"
  shows "reach_ok ty S"
proof -
  let ?N = "(new_set ty)\<lparr>s_now := n\<rparr>"
  let ?T = "?N\<lparr>s_initial := Some m, s_transport := True\<rparr>"
  have "same_trns (?N\<lparr>s_transport := True\<rparr>) ?T"
    by (simp add: same_trns_def)
  then have "fresh ?N ?T"
    using new_set_fresh same_fresh by blast
  moreover have "fsm_onReceivedMessage E ?T Parent m = Some S"
    using assms by (simp add: SIPTransaction_onReceivedMessage_def Let_def new_set_def)
  ultimately have "settled ?N S" "getState S Parent \<noteq> TRN_STATE_IDLE"
    using server_first [of ?N ?T m E S] assms(1,2) by (simp_all add: new_set_def)
  then show ?thesis
    using assms(1) by (auto simp: reach_ok_def settled_def evolves_def nict_live_def is_client_def new_set_def)
qed

lemma reach_started: "reach_ok ty S \<Longrightarrow> \<not> t_hasTerminated (s_parent S) \<Longrightarrow> started S \<and> nict_live S"
  by (simp add: reach_ok_def started_def)

lemma reach_step:
  assumes "reach_ok ty S" "\<not> t_hasTerminated (s_parent S)" "admissible S ev" "trn_step E S ev = Some S'"
  shows "settled S S'" "reach_ok ty S'"
proof -
  have st: "started S" "nict_live S"
    using reach_started [OF assms(1,2)] by simp_all
  show S': "settled S S'"
    using step_ok [OF st assms(3), of E] assms(4) by (simp add: fine_def)
  then have ty: "s_type S' = s_type S"
    by (simp add: settled_def evolves_def)
  have "nict_live S'"
    using nict_step_calm [OF st _ assms(4,3)] ty by (auto simp: nict_live_def calm_def)
  moreover have "getState S' Parent \<noteq> TRN_STATE_IDLE"
    using settled_state [OF S', of Parent] assms(1) by (simp add: reach_ok_def)
  ultimately show "reach_ok ty S'"
    using assms(1) S' ty by (simp add: reach_ok_def settled_def)
qed

lemma reach_invariant: "trn_reach E ty S \<Longrightarrow> reach_ok ty S"
proof (induction rule: trn_reach.induct)
  case (first ev n S)
  then show ?case
    using first_request_sent first_request_received by (cases ev) (auto simp: trn_step_def)
next
  case (step S ev S')
  then show ?case
    using reach_step(2) [OF step.IH step.hyps(2-4)] by blast
qed

end
