(* ===== verification/SIP_TrnProps.thy ===== *)
theory SIP_TrnProps
  imports SIP_TrnRuns
begin

text \<open>
  The properties of transactions: safety of every event, complete termination, bounded life, and the
  schedule of retransmissions.
\<close>

section \<open>All runs\<close>

fun trn_run :: "fsm_env \<Rightarrow> trn_set \<Rightarrow> event list \<Rightarrow> trn_set option" where
  "trn_run E S [] = Some S"
| "trn_run E S (ev # evs) =
     (if t_hasTerminated (s_parent S) \<or> \<not> admissible S ev then None
      else do { S \<leftarrow> trn_step E S ev; trn_run E S evs })"

lemma run_reach:
  "reach_ok ty S \<Longrightarrow> trn_run E S evs = Some S' \<Longrightarrow> reach_ok ty S' \<and> evolves S S'"
proof (induction evs arbitrary: S)
  case (Cons ev evs)
  then obtain T where T: "trn_step E S ev = Some T" "trn_run E T evs = Some S'" "\<not> t_hasTerminated (s_parent S)" "admissible S ev"
    by (auto split: if_splits bind_splits)
  from reach_step [OF Cons.prems(1) T(3,4,1)] Cons.IH [OF _ T(2)] show ?case
    using evolves_trans by (auto simp: settled_def)
qed simp

lemma lifetime_armed:
  assumes "reach_ok ty S" "\<not> t_hasTerminated (s_parent S)"
  obtains d where "t_timers (s_parent S) TimerMaxLifetime = Some d" "s_now S \<le> d" "d \<le> s_now S + 300000"
proof -
  have S: "set_ok S" "parent_ok S"
    using assms by (auto simp: reach_ok_def set_ok_def getState_def)
  then obtain d where "t_timers (s_parent S) TimerMaxLifetime = Some d"
    by (auto simp: parent_ok_def)
  with set_ok_trn(2) [OF S(1)] that show ?thesis
    by (auto simp: trn_ok_def)
qed

lemma time_passes:
  assumes "set_ok S"
  shows "admissible S (EvTick 1) \<or> (\<exists>w t. admissible S (EvTimer w t))"
proof (cases "due_after (s_now S + 1) S")
  case False
  then obtain w t d where d: "t_timers (trn_of S w) t = Some d" "d < s_now S + 1"
    by (auto simp: due_after_iff not_le)
  have "due_after (s_now S) S"
    using set_ok_trn(1) [OF assms] by (auto simp: due_after_iff trn_ok_def)
  moreover have "s_now S \<le> d"
    using set_ok_trn(1) [OF assms, of w] d(1) by (simp add: trn_ok_def)
  ultimately have "admissible S (EvTimer w t)"
    using d by (simp add: le_antisym less_Suc_eq_le)
  then show ?thesis
    by blast
qed simp

section \<open>Properties\<close>



text \<open>C5: every transaction ends. From any reachable state, a run after which the transaction is still
  alive takes at most 300000 ms; while it is alive time can pass or a timer is due, and the timer
  MaxLifetime removes the transaction from the pool.\<close>

theorem transaction_ends:
  assumes "trn_reach E ty S" "\<not> t_hasTerminated (s_parent S)"
  shows "(\<forall>S'. trn_run E S evs = Some S' \<and> \<not> t_hasTerminated (s_parent S') \<longrightarrow> s_now S' \<le> s_now S + 300000) \<and>
    (admissible S (EvTick 1) \<or> (\<exists>w t. admissible S (EvTimer w t))) \<and>
    (admissible S (EvTimer Parent TimerMaxLifetime) \<longrightarrow>
      (\<exists>S'. trn_step E S (EvTimer Parent TimerMaxLifetime) = Some S' \<and> RemoveTransaction \<in> set (s_out S')))"
proof -
  have S: "reach_ok ty S"
    by (rule reach_invariant [OF assms(1)])
  then have ok: "set_ok S"
    by (simp add: reach_ok_def)
  obtain d where d: "t_timers (s_parent S) TimerMaxLifetime = Some d" "d \<le> s_now S + 300000"
    by (rule lifetime_armed [OF S assms(2)])
  have "s_now S' \<le> s_now S + 300000" if run: "trn_run E S evs = Some S'" "\<not> t_hasTerminated (s_parent S')" for S'
  proof -
    have "reach_ok ty S'" "evolves S S'"
      using run_reach [OF S run(1)] by simp_all
    moreover from this have "t_timers (s_parent S') TimerMaxLifetime = Some d"
      using S d(1) run(2) by (auto simp: evolves_def reach_ok_def getState_def)
    ultimately show ?thesis
      using set_ok_trn(2) [of S'] d(2) by (fastforce simp: reach_ok_def trn_ok_def)
  qed
  moreover have "admissible S (EvTick 1) \<or> (\<exists>w t. admissible S (EvTimer w t))"
    by (rule time_passes [OF ok])
  moreover have "\<exists>S'. trn_step E S (EvTimer Parent TimerMaxLifetime) = Some S' \<and> RemoveTransaction \<in> set (s_out S')"
    if adm: "admissible S (EvTimer Parent TimerMaxLifetime)"
  proof -
    have "due_after d S"
      using adm d(1) by simp
    from lifetime_ok [OF _ d(1) this]
    have "settled S (handleDelayedTerminate (expire S Parent TimerMaxLifetime d) Parent)"
      "t_hasTerminated (s_parent (handleDelayedTerminate (expire S Parent TimerMaxLifetime d) Parent))"
      using reach_started [OF S assms(2)] by simp_all
    moreover from this have "removals (handleDelayedTerminate (expire S Parent TimerMaxLifetime d) Parent) = 1"
      by (simp add: settled_def set_ok_def)
    ultimately show ?thesis
      using d(1) by (cases "s_type S") (auto simp: trn_step_def fsm_timer_def removals_def count_list_0_iff
          intro: ccontr)
  qed
  ultimately show ?thesis
    by blast
qed

section \<open>Examples\<close>

definition sample_env :: "bool \<Rightarrow> fsm_env" where
  "sample_env reliable = \<lparr>e_boost = boost_model, e_timers = SIPTransactionTimers, e_reliable = reliable, e_dispatch = False,
     e_throttle = None, e_requestHandler = False, e_remotePort = ''5060'', e_remoteAddress = ''10.0.0.1'',
     e_num = (\<lambda>_. 0)\<rparr>"

definition sample_fmsg :: "bool \<Rightarrow> string \<Rightarrow> fmsg" where
  "sample_fmsg isRequest tag = \<lparr>f_msg = (if isRequest then sample_request ''INVITE'' else SIPMessage_new), f_isRequest = Some isRequest, f_isAck = False,
     f_isResponse = Some (\<not> isRequest), f_is1xx = Some (\<not> isRequest), f_is2xx = Some False, f_isError = Some False,
     f_toTag = tag, f_timeout = None, f_reliableTimeout = None, f_expires = None, f_queued = False\<rparr>"

definition sample_set :: trn_set where
  "sample_set = the (trn_step (sample_env False) ((new_set TYPE_ICT)\<lparr>s_now := 7\<rparr>) (EvSendRequest True True True (sample_fmsg True [])))"

lemma sample_set_step:
  "trn_step (sample_env False) ((new_set TYPE_ICT)\<lparr>s_now := 7\<rparr>) (EvSendRequest True True True (sample_fmsg True [])) = Some sample_set"
  "s_now sample_set = 7" "\<not> t_hasTerminated (s_parent sample_set)" "s_branches sample_set = []"
  "t_timers (s_parent sample_set) = [TimerMaxLifetime \<mapsto> 300007, TimerA \<mapsto> 507, TimerB \<mapsto> 32007]"
  "getState sample_set Parent = CLIENT_TRYING" "s_type sample_set = TYPE_ICT"
  by (simp_all add: sample_set_def trn_step_def SIPTransaction_sendRequest_def sample_fmsg_def sample_env_def tri_if_def tri_not_def
      new_set_def SIPTransaction_writeMessage_def fsm_onSendMessage_def SIPIct_onSendMessage_def getState_def new_trn_def
      arm_def upd.simps startTimer_def setState_def SIPTransactionTimers_def emit_def Let_def)

section \<open>Retransmissions\<close>

text \<open>An invite client without response, after \<open>k\<close> retransmissions.\<close>

definition waiting :: "bool \<Rightarrow> fmsg \<Rightarrow> nat \<Rightarrow> nat \<Rightarrow> nat \<Rightarrow> trn_set \<Rightarrow> bool" where
  "waiting cb m n a k S \<longleftrightarrow>
     s_type S = TYPE_ICT \<and> getState S Parent = CLIENT_TRYING \<and> \<not> t_hasTerminated (s_parent S) \<and>
     t_request (s_parent S) = Some m \<and> t_timerAValue (s_parent S) = 2 ^ k * a \<and> s_branches S = [] \<and>
     t_timers (s_parent S) = (\<lambda>t. if t = TimerMaxLifetime then Some (n + 300000) else if t = TimerA then Some (n + (2 ^ (k + 1) - 1) * a)
       else if t = TimerB then Some (n + 64 * a) else None) \<and>
     s_transport S \<and> s_initial S = Some m \<and> s_hasTU S = cb \<and>
     s_now S = n + (2 ^ k - 1) * a \<and> s_out S = replicate (k + 1) (WriteMessage Parent m)"

lemma waiting_due:
  assumes "waiting cb m n a k S"
  shows "due_after d S \<longleftrightarrow> d \<le> n + 300000 \<and> d \<le> n + (2 ^ (k + 1) - 1) * a \<and> d \<le> n + 64 * a"
proof -
  have "t_timers (trn_of S (Branch b)) t = None" for b t
    using assms by (simp add: waiting_def trn_of.simps new_trn_def)
  moreover have "(w = Parent) \<or> (\<exists>b. w = Branch b)" for w
    by (cases w) auto
  ultimately have "due_after d S \<longleftrightarrow> (\<forall>t e. t_timers (s_parent S) t = Some e \<longrightarrow> d \<le> e)"
    unfolding due_after_iff by (metis option.distinct(1) trn_of.simps(1))
  also have "\<dots> \<longleftrightarrow> d \<le> n + 300000 \<and> d \<le> n + (2 ^ (k + 1) - 1) * a \<and> d \<le> n + 64 * a"
    using assms by (auto simp: waiting_def split: if_splits)
  finally show ?thesis .
qed

lemma waiting_retransmit:
  assumes "waiting cb m n a k S" "0 < a" "k < 6" "64 * a \<le> 300000"
  shows "\<exists>S'. trn_run E S [EvTimer Parent TimerA] = Some S' \<and> waiting cb m n a (Suc k) S'"
proof -
  let ?d = "n + (2 ^ (k + 1) - 1) * a"
  have "(2::nat) ^ (k + 1) \<le> 2 ^ 6"
    using assms(3) by (intro power_increasing) auto
  then have "?d \<le> n + 64 * a"
    by (intro add_left_mono mult_right_mono) auto
  then have due: "due_after ?d S"
    using assms(4) unfolding waiting_due [OF assms(1)] by (intro conjI) linarith+
  have sum: "?d + 2 * (2 ^ k * a) = n + (2 ^ (Suc k + 1) - 1) * a"
  proof -
    have "1 \<le> (2::nat) ^ k"
      by simp
    then have "(2::nat) ^ (Suc k + 1) - 1 = (2 ^ (k + 1) - 1) + 2 * 2 ^ k"
      by simp
    then show ?thesis
      by (simp only: distrib_right mult.assoc add.assoc)
  qed
  show ?thesis
    using assms(1,2) due sum
    by (auto simp: waiting_def trn_step_def fsm_timer_def expire_def SIPIct_handleRetransmitInvite_def getState_def
        cancelTimer_def startTimer_def arm_def upd.simps emit_def fun_eq_iff replicate_append_same)
qed

lemma trn_run_append: "trn_run E S (xs @ ys) = do { S \<leftarrow> trn_run E S xs; trn_run E S ys }"
  by (induction xs arbitrary: S) (auto split: bind_splits)

lemma waiting_retransmits:
  assumes "waiting cb m n a 0 S" "0 < a" "64 * a \<le> 300000"
  shows "k \<le> 6 \<Longrightarrow> \<exists>S'. trn_run E S (replicate k (EvTimer Parent TimerA)) = Some S' \<and> waiting cb m n a k S'"
proof (induction k)
  case (Suc k)
  then obtain T where T: "trn_run E S (replicate k (EvTimer Parent TimerA)) = Some T" "waiting cb m n a k T"
    by auto
  then obtain S' where "trn_run E T [EvTimer Parent TimerA] = Some S'" "waiting cb m n a (Suc k) S'"
    using waiting_retransmit [OF T(2) assms(2) _ assms(3)] Suc.prems by auto
  moreover have "replicate (Suc k) (EvTimer Parent TimerA) = replicate k (EvTimer Parent TimerA) @ [EvTimer Parent TimerA]"
    by (simp add: replicate_append_same)
  ultimately show ?case
    using T(1) by (simp only: trn_run_append) simp
qed (use assms in simp)

lemma removed_output: "\<not> t_hasTerminated (s_parent S) \<Longrightarrow> RemoveTransaction \<in> set (s_out (terminate_parent S))"
  by (simp add: terminate_parent_def Let_def)

lemma mark_keeps_output: "set (s_out S) \<subseteq> set (s_out (mark_terminated S w))"
  by (auto simp: mark_terminated_def onTerminate_def cancelAllTimers_def Let_def)

lemma branches_keep_output: "set (s_out S) \<subseteq> set (s_out (foldl terminate_branch S bs))"
  by (induction bs arbitrary: S) (use mark_keeps_output in \<open>force simp: terminate_branch_def\<close>)+

lemma terminate_keeps_output: "set (s_out S) \<subseteq> set (s_out (terminate_parent S))"
  using mark_keeps_output [of S Parent] branches_keep_output [of "mark_terminated S Parent"]
  by (auto simp: terminate_parent_def Let_def)

lemma invite_timeout:
  assumes "s_initial S = Some m" "s_transport S" "can_respond (e_boost E) (f_msg m)" "\<not> t_hasTerminated (s_parent S)"
    "getState S Parent = CLIENT_TRYING"
  obtains r S' where "SIPIct_handleInviteTimeout E S Parent = Some S'" "s_now S' = s_now S" "t_hasTerminated (s_parent S')"
    "RemoveTransaction \<in> set (s_out S')" "m_startLine r = response_start 408 []" "s_hasTU S \<longrightarrow> TimeoutTU Parent (Some r) \<in> set (s_out S')"
proof -
  obtain r where r: "create_response E 408 [] m = Some r" "m_startLine r = response_start 408 []"
    using create_response_cases [of E m 408 "[]"] assms(3) by auto
  let ?C = "cancelTimer TimerClientExpires (cancelTimer TimerA S Parent) Parent"
  define T where "T = (let T = (if s_hasTU S then emit (TimeoutTU Parent (Some r)) ?C else ?C) in
      if e_reliable E then emit StopConnection T else T)"
  have "handleTimeout E ?C Parent = Some T"
    using assms r(1) by (simp add: handleTimeout_def T_def Let_def cancelTimer_def getState_def)
  moreover have T: "\<not> t_hasTerminated (s_parent T)" "s_now T = s_now S" "s_hasTU S \<Longrightarrow> TimeoutTU Parent (Some r) \<in> set (s_out T)"
    using assms(4) by (simp_all add: T_def Let_def cancelTimer_def)
  ultimately show ?thesis
    using that [of "terminate_parent T" r] r(2) terminate_parent_simps(3) [OF T(1)] removed_output [OF T(1)] parent_terminated
      terminate_keeps_output [of T]
    by (auto simp: SIPIct_handleInviteTimeout_def)
qed

lemma waiting_timeout:
  assumes "waiting cb m n a 6 S" "0 < a" "64 * a \<le> 300000" "can_respond (e_boost E) (f_msg m)"
  shows "\<not> admissible S (EvTimer Parent TimerA) \<and> (\<exists>S'. trn_run E S [EvTimer Parent TimerB] = Some S' \<and>
    s_now S' = n + 64 * a \<and> t_hasTerminated (s_parent S') \<and> RemoveTransaction \<in> set (s_out S') \<and>
    (cb \<longrightarrow> (\<exists>r. m_startLine r = response_start 408 [] \<and> TimeoutTU Parent (Some r) \<in> set (s_out S'))))"
proof -
  let ?X = "expire S Parent TimerB (n + 64 * a)"
  have due: "due_after (n + 64 * a) S" "\<not> due_after (n + 127 * a) S"
    using assms(2,3) unfolding waiting_due [OF assms(1)] by simp_all
  have S: "t_timers (s_parent S) TimerA = Some (n + 127 * a)" "t_timers (s_parent S) TimerB = Some (n + 64 * a)"
      "\<not> t_hasTerminated (s_parent S)" "s_type S = TYPE_ICT"
    using assms(1) by (simp_all add: waiting_def)
  have X: "s_initial ?X = Some m" "s_transport ?X" "\<not> t_hasTerminated (s_parent ?X)" "getState ?X Parent = CLIENT_TRYING"
      "s_now ?X = n + 64 * a" "s_hasTU ?X = cb"
    using assms(1) by (simp_all add: waiting_def expire_def cancelTimer_def getState_def)
  obtain r S' where "SIPIct_handleInviteTimeout E ?X Parent = Some S'" "s_now S' = s_now ?X" "t_hasTerminated (s_parent S')"
    "RemoveTransaction \<in> set (s_out S')" "m_startLine r = response_start 408 []" "s_hasTU ?X \<longrightarrow> TimeoutTU Parent (Some r) \<in> set (s_out S')"
    by (rule invite_timeout [OF X(1,2) assms(4) X(3,4)])
  then show ?thesis
    using due S X by (auto simp: trn_step_def fsm_timer_def)
qed

text \<open>C16: without a response an INVITE over an unreliable transport is sent seven times, after
  0, \<open>a\<close>, \<open>3a\<close>, \<open>7a\<close> up to \<open>63a\<close> ms for the first interval \<open>a\<close> (timer A, or a
  64th of the timeout that the request asks for). Then timer A is not due any more before timer B, which
  ends the transaction after \<open>64a\<close> ms and reports a 408 response to the transaction user, when there is
  one. The INVITE has no Expires header and has the headers that \<open>createResponse\<close> needs for the 408; \<open>64a\<close>
  is at most the life of a transaction.\<close>

theorem invite_retransmissions:
  assumes "\<not> e_reliable E" "\<not> tri_if (tri_not (f_isRequest m))" "f_expires m = None"
    and a: "a = (case f_timeout m of Some t \<Rightarrow> t div 64 | None \<Rightarrow> timer_value (e_timers E) TimerA)"
    and "0 < a" "64 * a \<le> 300000" "can_respond (e_boost E) (f_msg m)"
  shows "\<exists>S. trn_step E ((new_set TYPE_ICT)\<lparr>s_now := n\<rparr>) (EvSendRequest cb tcb True m) = Some S \<and>
    (\<forall>k \<le> 6. \<exists>T. trn_run E S (replicate k (EvTimer Parent TimerA)) = Some T \<and> s_now T = n + (2 ^ k - 1) * a \<and>
       s_out T = replicate (k + 1) (WriteMessage Parent m)) \<and>
    (\<exists>T. trn_run E S (replicate 6 (EvTimer Parent TimerA)) = Some T \<and> \<not> admissible T (EvTimer Parent TimerA) \<and>
       (\<exists>U. trn_run E T [EvTimer Parent TimerB] = Some U \<and> s_now U = n + 64 * a \<and> RemoveTransaction \<in> set (s_out U) \<and>
          (cb \<longrightarrow> (\<exists>r. m_startLine r = response_start 408 [] \<and> TimeoutTU Parent (Some r) \<in> set (s_out U)))))"
proof -
  obtain S where S: "trn_step E ((new_set TYPE_ICT)\<lparr>s_now := n\<rparr>) (EvSendRequest cb tcb True m) = Some S" "waiting cb m n a 0 S"
    using assms
    by (auto simp: trn_step_def SIPTransaction_sendRequest_def new_set_def SIPTransaction_writeMessage_def fsm_onSendMessage_def
        SIPIct_onSendMessage_def getState_def new_trn_def arm_def upd.simps startTimer_def setState_def emit_def Let_def
        waiting_def fun_eq_iff split: option.splits)
  obtain T where T: "trn_run E S (replicate 6 (EvTimer Parent TimerA)) = Some T" "waiting cb m n a 6 T"
    using waiting_retransmits [OF S(2) assms(5,6), of 6 E] by auto
  have "\<exists>T. trn_run E S (replicate k (EvTimer Parent TimerA)) = Some T \<and> s_now T = n + (2 ^ k - 1) * a \<and>
      s_out T = replicate (k + 1) (WriteMessage Parent m)" if "k \<le> 6" for k
    using waiting_retransmits [OF S(2) assms(5,6) that, of E] by (auto simp: waiting_def)
  then show ?thesis
    using S(1) T(1) waiting_timeout [OF T(2) assms(5-7)] by blast
qed

text \<open>Without those headers timer B throws before the transaction is terminated.\<close>

theorem timeout_throws:
  assumes "s_initial S = Some m" "s_transport S" "\<not> can_respond (e_boost E) (f_msg m)"
  shows "SIPIct_handleInviteTimeout E S w = None"
  using assms create_response_cases [of E m 408 "[]"]
  by (simp add: SIPIct_handleInviteTimeout_def handleTimeout_def cancelTimer_def)

lemma sample_can_respond: "can_respond boost_model (sample_request ''INVITE'')"
  by code_simp

theorem invite_retransmissions_witness:
  "\<exists>S. trn_step (sample_env False) ((new_set TYPE_ICT)\<lparr>s_now := 7\<rparr>) (EvSendRequest True True True (sample_fmsg True [])) = Some S \<and>
    (\<exists>T. trn_run (sample_env False) S (replicate 2 (EvTimer Parent TimerA)) = Some T \<and> s_now T = 1507 \<and>
       s_out T = replicate 3 (WriteMessage Parent (sample_fmsg True []))) \<and>
    (\<exists>T U r. trn_run (sample_env False) S (replicate 6 (EvTimer Parent TimerA)) = Some T \<and>
       trn_run (sample_env False) T [EvTimer Parent TimerB] = Some U \<and> s_now U = 32007 \<and> RemoveTransaction \<in> set (s_out U) \<and>
       TimeoutTU Parent (Some r) \<in> set (s_out U))"
proof -
  have m: "\<not> e_reliable (sample_env False)" "\<not> tri_if (tri_not (f_isRequest (sample_fmsg True [])))"
    "f_expires (sample_fmsg True []) = None"
    "500 = (case f_timeout (sample_fmsg True []) of Some t \<Rightarrow> t div 64 | None \<Rightarrow> timer_value (e_timers (sample_env False)) TimerA)"
    by (simp_all add: sample_env_def sample_fmsg_def tri_if_def tri_not_def SIPTransactionTimers_def)
  have c: "can_respond (e_boost (sample_env False)) (f_msg (sample_fmsg True []))"
    using sample_can_respond by (simp add: sample_env_def sample_fmsg_def)
  obtain S where S: "trn_step (sample_env False) ((new_set TYPE_ICT)\<lparr>s_now := 7\<rparr>) (EvSendRequest True True True (sample_fmsg True [])) = Some S"
    "\<forall>k \<le> 6. \<exists>T. trn_run (sample_env False) S (replicate k (EvTimer Parent TimerA)) = Some T \<and>
       s_now T = 7 + (2 ^ k - 1) * 500 \<and> s_out T = replicate (k + 1) (WriteMessage Parent (sample_fmsg True []))"
    "\<exists>T U r. trn_run (sample_env False) S (replicate 6 (EvTimer Parent TimerA)) = Some T \<and>
       trn_run (sample_env False) T [EvTimer Parent TimerB] = Some U \<and> s_now U = 7 + 64 * 500 \<and> RemoveTransaction \<in> set (s_out U) \<and>
       TimeoutTU Parent (Some r) \<in> set (s_out U)"
    using invite_retransmissions [OF m _ _ c, of 7 True True] by auto
  from S(2) [rule_format, of 2] S(1,3) show ?thesis
    by (auto simp: numeral_3_eq_3)
qed



theorem transaction_ends_witness:
  "(\<exists>S'. trn_run (sample_env False) sample_set [EvTick 500] = Some S' \<and> s_now S' \<le> s_now sample_set + 300000) \<and>
   (admissible sample_set (EvTick 1) \<or> (\<exists>w t. admissible sample_set (EvTimer w t)))"
proof -
  have r: "trn_reach (sample_env False) TYPE_ICT sample_set"
    by (rule trn_reach.first [OF _ sample_set_step(1)]) (simp add: is_client_def sample_fmsg_def tri_if_def tri_not_def)
  have "due_after 507 sample_set"
    by (simp add: due_after_def known_def all_timers_def sample_set_step)
  then have "trn_run (sample_env False) sample_set [EvTick 500] = Some (sample_set\<lparr>s_now := 507\<rparr>)"
    by (simp add: sample_set_step trn_step_def)
  with transaction_ends [OF r sample_set_step(3), of "[EvTick 500]"] show ?thesis
    by (simp add: sample_set_step)
qed


section \<open>The messages of the invite client\<close>

lemma string_find_space: "CHR '' '' \<notin> set a \<Longrightarrow> string_find (a @ CHR '' '' # s) '' '' = Some (length a)"
  by (induction a) auto

lemma remove_single:
  assumes "hdr_ok m" "length (hdr_vals m (to_lower B h)) \<le> 1"
  shows "hdr_ok (snd (SIPMessage_hdrRemove B m h)) \<and>
    hdr_vals (snd (SIPMessage_hdrRemove B m h)) = (hdr_vals m)(to_lower B h := [])"
  using remove_one_vals [OF assms(1), of B h] assms(2) by (cases "hdr_vals m (to_lower B h)") (auto simp: fun_eq_iff)

lemma remove_rest [simp]: "m_startLine (snd (SIPMessage_hdrRemove B m h)) = m_startLine m" "m_body (snd (SIPMessage_hdrRemove B m h)) = m_body m"
  by (simp_all add: SIPMessage_hdrRemove_def Let_def split: option.split)

lemma tx_ack: "tx_method ''ACK'' = tx_method ''INVITE''"
  by code_simp

lemma tx_parts_ack:
  assumes "tx_parts m number ''INVITE'' ident" "hdr_ok ack"
    "hdr_vals ack = (hdr_vals m)(''to'' := t, ''cseq'' := [cseq_text number ''ACK''], ''content-length'' := l, ''content-type'' := c)"
  shows "tx_parts ack number ''ACK'' ident"
proof -
  obtain via vs callId cs cseqs where v: "cseq_wf number ''INVITE''" "hdr_vals m ''via'' = via # vs" "via \<noteq> []"
    "hdr_vals m ''call-id'' = callId # cs" "callId \<noteq> []" "hdr_vals m ''cseq'' = cseq_text number ''INVITE'' # cseqs"
    "case SIPVia_getBranch via [] of Some (_, branch) \<Rightarrow> ident = (if branch = [] then callId else branch) | None \<Rightarrow> False"
    using assms(1) by (auto simp: tx_parts_def split: list.splits)
  have "hdr_vals ack ''via'' = via # vs" "hdr_vals ack ''call-id'' = callId # cs" "hdr_vals ack ''cseq'' = [cseq_text number ''ACK'']"
    using v by (simp_all add: assms(3))
  moreover have "cseq_wf number ''ACK''"
    using v(1) by (simp add: cseq_wf_def is_lws_def)
  ultimately show ?thesis
    using v assms(2) by (simp add: tx_parts_def)
qed

lemma content_type_key:
  assumes "boost_ok B"
  shows "to_lower B ''Content-Type'' = ''content-type''"
proof -
  have "map ascii_lower ''Content-Type'' = ''content-type''"
    by code_simp
  with assms show ?thesis
    by (simp add: boost_ok_def del: list.map)
qed

lemma ack_made:
  assumes B: "boost_ok B" and m: "tx_parts m number ''INVITE'' ident" "m_startLine m = ''INVITE '' @ rest" "nul_free rest"
    and single: "\<And>k. k \<in> {''to'', ''cseq'', ''content-length'', ''content-type''} \<Longrightarrow> length (hdr_vals m k) \<le> 1"
    and r: "hdr_ok r" "hdr_vals r ''to'' = to # ts" "to \<noteq> []"
  shows "\<exists>ack. SIPIct_makeAck B m r = Some (True, ack) \<and> m_startLine ack = ''ACK '' @ rest \<and> m_body ack = [] \<and>
    hdr_vals ack = (hdr_vals m)(''to'' := [to], ''cseq'' := [number @ '' ACK''], ''content-length'' := [], ''content-type'' := []) \<and>
    tx_parts ack number ''ACK'' ident"
proof -
  note k = boost_keys [OF B]
  note ct = content_type_key [OF B]
  have mok: "hdr_ok m" "cseq_wf number ''INVITE''" and q: "SIPMessage_hdrGet B m ''CSeq'' 0 = cseq_text number ''INVITE''"
    using m(1) k by (auto simp: tx_parts_def hdrGet_key split: list.splits)
  have to: "SIPMessage_hdrGet B r ''To'' 0 = to"
    using r k by (simp add: hdrGet_key)
  let ?a0 = "(SIPMessage_assign SIPMessage_new m)\<lparr>m_startLine := ''ACK '' @ rest\<rparr>"
  let ?a1 = "snd (SIPMessage_hdrSet B ?a0 ''To'' to)"
  let ?a2 = "(snd (SIPMessage_hdrSet B ?a1 ''CSeq'' (number @ '' ACK'')))\<lparr>m_body := []\<rparr>"
  let ?a3 = "snd (SIPMessage_hdrRemove B ?a2 ''Content-Length'')"
  let ?a4 = "snd (SIPMessage_hdrRemove B ?a3 ''Content-Type'')"
  have a0: "hdr_ok ?a0" "hdr_vals ?a0 = hdr_vals m"
    using mok by (simp_all add: SIPMessage_assign_def hdr_ok_def hdr_wf_def hdr_vals_def fun_eq_iff)
  have tl: "tl (hdr_vals m k) = []" if "k \<in> {''to'', ''cseq''}" for k
    using single [of k] that by (cases "hdr_vals m k") auto
  have a1: "hdr_ok ?a1" "hdr_vals ?a1 = (hdr_vals m)(''to'' := [to])"
    using set_vals [OF a0(1) r(3), of B "''To''"] a0(2) k tl by simp_all
  have a2: "hdr_ok ?a2" "hdr_vals ?a2 = (hdr_vals m)(''to'' := [to], ''cseq'' := [number @ '' ACK''])"
    using set_vals [OF a1(1), of "number @ '' ACK''" B "''CSeq''"] a1(2) k tl
    by (simp_all add: hdr_ok_def hdr_wf_def hdr_vals_def fun_eq_iff)
  have a3: "hdr_ok ?a3" "hdr_vals ?a3 = (hdr_vals ?a2)(''content-length'' := [])"
    using remove_single [OF a2(1), of B "''Content-Length''"] single [of "''content-length''"] a2(2) k by simp_all
  have a4: "hdr_ok ?a4" "hdr_vals ?a4 = (hdr_vals ?a3)(''content-type'' := [])"
    using remove_single [OF a3(1), of B "''Content-Type''"] single [of "''content-type''"] a3(2) a2(2) ct by simp_all
  let ?ack = "SIPMessage_commitData ?a4"
  have find: "string_find (m_startLine m) '' '' = Some 6"
    using string_find_space [of "''INVITE''" rest] m(2) by simp
  have "str_of (drop 6 (cstr (m_startLine m))) = str_of ((CHR '' '' # rest) @ [NUL])"
    using m(2) by (simp add: cstr_def)
  also have "\<dots> = Some (CHR '' '' # rest)"
    using str_of_cstr [of "CHR '' '' # rest" "[]"] m(3) by simp
  finally have ack: "SIPIct_makeAck B m r = Some (True, ?ack)"
    using find q to cseq_getters(1) [OF mok(2), of "[]"] by (simp add: SIPIct_makeAck_def Let_def)
  have vals: "hdr_vals ?ack = (hdr_vals m)(''to'' := [to], ''cseq'' := [number @ '' ACK''], ''content-length'' := [], ''content-type'' := [])"
    using a4(2) a3(2) a2(2) by simp
  have "tx_parts ?ack number ''ACK'' ident"
    using tx_parts_ack [OF m(1), of ?ack "[to]" "[]" "[]"] vals a4(1) by (simp add: hdr_ok_def cseq_text_def)
  then show ?thesis
    using ack vals by auto
qed

text \<open>C15: the ACK that the invite client makes for an error response is the INVITE with another method
  and the \<open>To\<close> header of the response, without a body; it has the transaction identifier of the INVITE, so
  that the server finds the transaction it belongs to.\<close>

theorem ack_matches_invite:
  assumes B: "boost_ok B" and m: "tx_parts m number ''INVITE'' ident" "m_startLine m = ''INVITE '' @ rest" "nul_free rest"
    and single: "\<And>k. k \<in> {''to'', ''cseq'', ''content-length'', ''content-type''} \<Longrightarrow> length (hdr_vals m k) \<le> 1"
    and r: "hdr_ok r" "hdr_vals r ''to'' = to # ts" "to \<noteq> []"
  shows "\<exists>ack. SIPIct_makeAck B m r = Some (True, ack) \<and> m_startLine ack = ''ACK '' @ rest \<and> m_body ack = [] \<and>
    hdr_vals ack = (hdr_vals m)(''to'' := [to], ''cseq'' := [number @ '' ACK''], ''content-length'' := [], ''content-type'' := []) \<and>
    SIPMessage_getTransactionId B ack None old = SIPMessage_getTransactionId B m None old"
proof -
  obtain ack where a: "SIPIct_makeAck B m r = Some (True, ack)" "m_startLine ack = ''ACK '' @ rest" "m_body ack = []"
      "hdr_vals ack = (hdr_vals m)(''to'' := [to], ''cseq'' := [number @ '' ACK''], ''content-length'' := [], ''content-type'' := [])"
      "tx_parts ack number ''ACK'' ident"
    using ack_made [OF B m single r] by auto
  have "SIPMessage_getTransactionId B ack None old = SIPMessage_getTransactionId B m None old"
    using transaction_id [OF B m(1), of old] transaction_id [OF B a(5), of old] tx_ack by simp
  with a show ?thesis
    by auto
qed

theorem ack_matches_invite_witness:
  "\<exists>ack. SIPIct_makeAck boost_model (sample_request ''INVITE'') (sample_request ''BYE'') = Some (True, ack) \<and>
    m_startLine ack = ''ACK sip:a SIP/2.0'' \<and> hdr_vals ack ''cseq'' = [''17 ACK''] \<and>
    SIPMessage_getTransactionId boost_model ack None [] = SIPMessage_getTransactionId boost_model (sample_request ''INVITE'') None []"
proof -
  have "SIPVia_getBranch ''SIP/2.0/UDP h;branch=z9hG4bK7'' [] = Some (True, ''z9hG4bK7'')" "cseq_wf ''17'' ''INVITE''"
    by code_simp+
  then have p: "tx_parts (sample_request ''INVITE'') ''17'' ''INVITE'' ''z9hG4bK7''"
    by (simp add: tx_parts_def sample_request_vals)
  have l: "m_startLine (sample_request ''INVITE'') = ''INVITE '' @ ''sip:a SIP/2.0''" "nul_free ''sip:a SIP/2.0''"
    by (simp_all add: sample_request_def)
  have "length (hdr_vals (sample_request ''INVITE'') k) \<le> 1" if "k \<in> {''to'', ''cseq'', ''content-length'', ''content-type''}" for k
    using that by (auto simp: sample_request_def hdr_vals_def one_header_def SIPMessage_new_def)
  from ack_matches_invite [OF boost_model_ok p l this sample_request_vals(1) [of "''BYE''"], of "''<sip:b>''" "[]" "[]"]
  show ?thesis
    by (auto simp: sample_request_vals)
qed

section \<open>Intervals\<close>

lemma power2_step: "min (2 ^ Suc k * g) T = (if 2 * min (2 ^ k * g) T > T then T else 2 * min (2 ^ k * g) T)" for g T :: nat
  by (auto simp: min_def)

lemma ist_retransmit_step:
  fixes E S w
  assumes "getState S w = IST_COMPLETED" "t_response (trn_of S w) = Some r"
  defines "S' \<equiv> SIPIst_handleRetransmitResponse E S w"
  shows "t_timerGValue (trn_of S' w) = min (2 * t_timerGValue (trn_of S w)) (timerT2 (e_timers E))"
    "t_response (trn_of S' w) = Some r" "getState S' w = IST_COMPLETED" "s_out S' = s_out S @ [WriteMessage w r]" "s_now S' = s_now S"
    "t_timerGValue (trn_of S' w) \<noteq> 0 \<Longrightarrow> t_timers (trn_of S' w) TimerG = Some (s_now S + t_timerGValue (trn_of S' w))"
  using assms(1,2)
  by (auto simp: S'_def SIPIst_handleRetransmitResponse_def Let_def startTimer_def primitive_trn getState_def arm_def min_def)

text \<open>C38: the intervals at which an invite server sends its final response again double from timer G
  up to T2: after \<open>k\<close> retransmissions the next one is due in the minimum of \<open>2 ^ k\<close> times timer G and
  T2.\<close>

theorem response_retransmission_intervals:
  assumes "getState S w = IST_COMPLETED" "t_response (trn_of S w) = Some r" "t_timerGValue (trn_of S w) = g"
    and "0 < g" "g \<le> timerT2 (e_timers E)" "S' = ((\<lambda>S. SIPIst_handleRetransmitResponse E S w) ^^ k) S" "0 < k"
  shows "t_timers (trn_of S' w) TimerG = Some (s_now S' + min (2 ^ k * g) (timerT2 (e_timers E))) \<and>
    s_out S' = s_out S @ replicate k (WriteMessage w r)"
proof -
  let ?F = "\<lambda>k. ((\<lambda>S. SIPIst_handleRetransmitResponse E S w) ^^ k) S" and ?T = "timerT2 (e_timers E)"
  have inv: "getState (?F k) w = IST_COMPLETED \<and> t_response (trn_of (?F k) w) = Some r \<and>
      t_timerGValue (trn_of (?F k) w) = min (2 ^ k * g) ?T \<and> s_out (?F k) = s_out S @ replicate k (WriteMessage w r)" for k
  proof (induction k)
    case (Suc k)
    then show ?case
      using ist_retransmit_step [of "?F k" w r E] by (simp add: replicate_append_same)
  qed (use assms in simp)
  obtain j where "k = Suc j"
    using assms(7) by (cases k) auto
  then show ?thesis
    using inv [of j] inv [of k] ist_retransmit_step [of "?F j" w r E] assms(4-6) by auto
qed

theorem response_retransmission_intervals_witness:
  "\<exists>S :: trn_set. t_timers (s_parent (((\<lambda>S. SIPIst_handleRetransmitResponse (sample_env False) S Parent) ^^ 4) S)) TimerG =
     Some (s_now (((\<lambda>S. SIPIst_handleRetransmitResponse (sample_env False) S Parent) ^^ 4) S) + 4000)"
proof -
  let ?S = "(new_set TYPE_IST)\<lparr>s_parent := new_trn\<lparr>t_state := IST_COMPLETED, t_response := Some (sample_fmsg False []), t_timerGValue := 500\<rparr>\<rparr>"
  have "getState ?S Parent = IST_COMPLETED" "t_response (trn_of ?S Parent) = Some (sample_fmsg False [])"
    "t_timerGValue (trn_of ?S Parent) = 500" "timerT2 (e_timers (sample_env False)) = 4000"
    by (simp_all add: getState_def sample_env_def SIPTransactionTimers_def)
  from response_retransmission_intervals [OF this(1-3) _ _ refl, of "sample_env False" 4] this(4) show ?thesis
    by (intro exI [of _ ?S]) simp
qed

text \<open>The interval after \<open>k\<close> retransmissions of a request other than INVITE, with the default timers.\<close>

definition nict_interval :: "nat \<Rightarrow> nat" where
  "nict_interval k = min (2 ^ k * 500) 4000"

definition nict_multiplier :: "nat \<Rightarrow> nat" where
  "nict_multiplier k = (if k = 0 then 0 else if k = 1 then 2 else 4)"

lemma nict_interval_step:
  "(if nict_interval k * nict_multiplier (Suc k) > 4000 then 4000 else 500 * nict_multiplier (Suc k)) = nict_interval (Suc k)"
proof -
  consider "k = 0" | "k = 1" | "k = 2" | "k \<ge> 3"
    by linarith
  then show ?thesis
  proof cases
    case 4
    then have "(8::nat) \<le> 2 ^ k"
      using power_increasing [OF 4, of "2::nat"] by simp
    then show ?thesis
      using 4 by (simp add: nict_interval_def nict_multiplier_def)
  qed (simp_all add: nict_interval_def nict_multiplier_def)
qed

definition resending :: "trn_set \<Rightarrow> who \<Rightarrow> fmsg \<Rightarrow> nat \<Rightarrow> bool" where
  "resending S w r k \<longleftrightarrow> getState S w = CLIENT_TRYING \<and> t_request (trn_of S w) = Some r \<and>
     t_timerEMultiplier (trn_of S w) = nict_multiplier k \<and> t_timerEValue (trn_of S w) = nict_interval k"

lemma nict_retransmit_step:
  assumes "resending S w r k" "e_timers E = SIPTransactionTimers"
  shows "\<exists>S'. SIPNict_handleRetransmitRequest E S w = Some S' \<and> resending S' w r (Suc k) \<and> s_now S' = s_now S \<and>
    t_timers (trn_of S' w) TimerE = Some (s_now S' + nict_interval (Suc k)) \<and> s_out S' = s_out S @ [WriteMessage w r]"
proof -
  have mult: "(if nict_multiplier k = 0 then 2 else 4) = nict_multiplier (Suc k)"
    by (simp add: nict_multiplier_def)
  have pos: "nict_interval (Suc k) \<noteq> 0"
    by (simp add: nict_interval_def)
  have T: "timerT1 (e_timers E) = 500" "timerT2 (e_timers E) = 4000"
    by (simp_all add: assms(2) SIPTransactionTimers_def)
  show ?thesis
    using assms(1) mult pos nict_interval_step [of k]
    by (simp add: SIPNict_handleRetransmitRequest_def resending_def Let_def startTimer_def primitive_trn T)
      (auto simp: getState_def arm_def nict_multiplier_def split: if_splits)
qed

fun nict_resend :: "fsm_env \<Rightarrow> who \<Rightarrow> nat \<Rightarrow> trn_set \<Rightarrow> trn_set option" where
  "nict_resend E w 0 S = Some S"
| "nict_resend E w (Suc k) S = do { S \<leftarrow> nict_resend E w k S; SIPNict_handleRetransmitRequest E S w }"

text \<open>C39: with the default timers the intervals at which a request other than INVITE is sent again
  double from 500 ms up to 4000 ms, while no response has come.\<close>

theorem request_retransmission_intervals:
  assumes "e_timers E = SIPTransactionTimers" "getState S w = CLIENT_TRYING" "t_request (trn_of S w) = Some r"
    "t_timerEMultiplier (trn_of S w) = 0" "t_timerEValue (trn_of S w) = 500" "0 < k"
  shows "\<exists>S'. nict_resend E w k S = Some S' \<and> t_timers (trn_of S' w) TimerE = Some (s_now S + min (2 ^ k * 500) 4000) \<and>
    s_out S' = s_out S @ replicate k (WriteMessage w r)"
proof -
  have start: "resending S w r 0"
    using assms by (simp add: resending_def nict_interval_def nict_multiplier_def)
  have inv: "\<exists>S'. nict_resend E w k S = Some S' \<and> resending S' w r k \<and> s_now S' = s_now S \<and>
      (0 < k \<longrightarrow> t_timers (trn_of S' w) TimerE = Some (s_now S + nict_interval k)) \<and>
      s_out S' = s_out S @ replicate k (WriteMessage w r)" for k
  proof (induction k)
    case (Suc k)
    then obtain T where "nict_resend E w k S = Some T" "resending T w r k" "s_now T = s_now S"
        "s_out T = s_out S @ replicate k (WriteMessage w r)"
      by blast
    then show ?case
      using nict_retransmit_step [of T w r k E] assms(1) by (auto simp: replicate_append_same)
  qed (use start in simp)
  from inv [of k] assms(6) show ?thesis
    by (auto simp: nict_interval_def)
qed

theorem request_retransmission_intervals_witness:
  "\<exists>S S'. nict_resend (sample_env False) Parent 3 S = Some S' \<and> t_timers (trn_of S' Parent) TimerE = Some (s_now S + 4000)"
proof -
  let ?S = "(new_set TYPE_NICT)\<lparr>s_parent := new_trn\<lparr>t_state := CLIENT_TRYING, t_request := Some (sample_fmsg True []), t_timerEValue := 500\<rparr>\<rparr>"
  have "e_timers (sample_env False) = SIPTransactionTimers" "getState ?S Parent = CLIENT_TRYING"
    "t_request (trn_of ?S Parent) = Some (sample_fmsg True [])"
    "t_timerEMultiplier (trn_of ?S Parent) = 0" "t_timerEValue (trn_of ?S Parent) = 500"
    by (simp_all add: getState_def sample_env_def new_trn_def)
  from request_retransmission_intervals [OF this, of 3]
  have "\<exists>S'. nict_resend (sample_env False) Parent 3 ?S = Some S' \<and> t_timers (trn_of S' Parent) TimerE = Some (s_now ?S + 4000)"
    by auto
  then show ?thesis
    by blast
qed

text \<open>A custom timeout changes the first interval only: afterwards the intervals are multiples of T1.\<close>

theorem custom_timeout_first_interval:
  assumes "getState S w = CLIENT_TRYING" "t_request (trn_of S w) = Some r" "t_timerEMultiplier (trn_of S w) = 0"
    "t_timerEValue (trn_of S w) * 2 \<le> timerT2 (e_timers E)"
  shows "\<exists>S'. SIPNict_handleRetransmitRequest E S w = Some S' \<and> t_timerEValue (trn_of S' w) = 2 * timerT1 (e_timers E)"
  using assms by (simp add: SIPNict_handleRetransmitRequest_def Let_def startTimer_def primitive_trn getState_def arm_def)

text \<open>C40: over an unreliable transport the invite client acknowledges the first error response only: when
  the response comes again in the state COMPLETED, nothing is written.\<close>

theorem ack_not_sent_again:
  assumes "getState S w = CLIENT_COMPLETED" "t_ack (trn_of S w) = Some ack" "\<not> e_reliable E"
  shows "\<exists>S'. SIPIct_onReceivedMessage E S w m = Some S' \<and> s_out S' = s_out S"
  using assms
  by (simp add: SIPIct_onReceivedMessage_def ict_switch_def SIPIct_handleSendAck_def setState_def Let_def)

theorem ack_not_sent_again_witness:
  "\<exists>S S'. getState S Parent = CLIENT_COMPLETED \<and> t_ack (s_parent S) \<noteq> None \<and>
     SIPIct_onReceivedMessage (sample_env False) S Parent ((sample_fmsg False [])\<lparr>f_is1xx := Some False, f_isError := Some True\<rparr>) = Some S' \<and>
     s_out S' = s_out S"
proof -
  let ?S = "(new_set TYPE_ICT)\<lparr>s_parent := new_trn\<lparr>t_state := CLIENT_COMPLETED, t_ack := Some SIPMessage_new\<rparr>\<rparr>"
  have S: "getState ?S Parent = CLIENT_COMPLETED" "t_ack (trn_of ?S Parent) = Some SIPMessage_new" "\<not> e_reliable (sample_env False)"
    by (simp_all add: getState_def sample_env_def)
  obtain S' where "SIPIct_onReceivedMessage (sample_env False) ?S Parent
      ((sample_fmsg False [])\<lparr>f_is1xx := Some False, f_isError := Some True\<rparr>) = Some S'" "s_out S' = s_out ?S"
    using ack_not_sent_again [OF S] by blast
  with S show ?thesis
    by (intro exI [of _ ?S] exI [of _ S']) simp
qed

end
