(* ===== verification/SIP_TrnClock.thy ===== *)
theory SIP_TrnClock
  imports SIP_TrnProps
begin

text \<open>
  The clock and the outputs of a transaction set: the handlers of \<open>SIP_Fsm\<close> and \<open>SIP_Transaction\<close>
  take no time and only append to the outputs, and an invite server that terminates asks for its identifier to
  be blocked. The rules follow the structure of the definitions.
\<close>

definition blockable :: "trn_set \<Rightarrow> bool" where
  "blockable S \<longleftrightarrow> s_type S = TYPE_IST \<and> t_hasId (s_parent S)"

definition follows :: "trn_set \<Rightarrow> trn_set \<Rightarrow> bool" where
  "follows S S' \<longleftrightarrow> s_now S' = s_now S \<and> s_type S' = s_type S \<and> (blockable S \<longrightarrow> blockable S') \<and>
     (\<exists>outs. s_out S' = s_out S @ outs \<and>
        (blockable S \<and> \<not> t_hasTerminated (s_parent S) \<and> t_hasTerminated (s_parent S') \<longrightarrow> BlockIst \<in> set outs))"

definition o_follows :: "trn_set \<Rightarrow> trn_set option \<Rightarrow> bool" where
  "o_follows S r \<longleftrightarrow> (\<forall>S'. r = Some S' \<longrightarrow> follows S S')"

definition p_follows :: "trn_set \<Rightarrow> ('a \<times> trn_set) option \<Rightarrow> bool" where
  "p_follows S r \<longleftrightarrow> (\<forall>x S'. r = Some (x, S') \<longrightarrow> follows S S')"

named_theorems follows

lemma follows_refl [simp]: "follows S S"
  by (simp add: follows_def)

lemma follows_results [follows]:
  "follows S0 S \<Longrightarrow> o_follows S0 (Some S)" "o_follows S0 None"
  "follows S0 S \<Longrightarrow> p_follows S0 (Some (x, S))" "p_follows S0 None"
  by (simp_all add: o_follows_def p_follows_def)

lemma follows_bind [follows]:
  fixes r :: "trn_set option" and p :: "(bool \<times> trn_set) option"
  shows "o_follows S0 r \<Longrightarrow> (\<And>S. follows S0 S \<Longrightarrow> o_follows S0 (f S)) \<Longrightarrow> o_follows S0 (r \<bind> f)"
    "o_follows S0 r \<Longrightarrow> (\<And>S. follows S0 S \<Longrightarrow> p_follows S0 (g S)) \<Longrightarrow> p_follows S0 (r \<bind> g)"
    "p_follows S0 p \<Longrightarrow> (\<And>x S. follows S0 S \<Longrightarrow> o_follows S0 (h (x, S))) \<Longrightarrow> o_follows S0 (p \<bind> h)"
  by (cases r; cases p; auto simp: o_follows_def p_follows_def)+

lemma follows_bind_other [follows]:
  fixes r :: "fmsg option" and a :: "(bool \<times> sip_message) option" and q :: "sip_message option" and u :: "sip_message option option"
  shows "(\<And>x. o_follows S0 (f x)) \<Longrightarrow> o_follows S0 (r \<bind> f)" "(\<And>x. p_follows S0 (g x)) \<Longrightarrow> p_follows S0 (r \<bind> g)"
    "(\<And>x y. o_follows S0 (h (x, y))) \<Longrightarrow> o_follows S0 (a \<bind> h)"
    "(\<And>x. o_follows S0 (k x)) \<Longrightarrow> o_follows S0 (q \<bind> k)" "(\<And>x. o_follows S0 (l x)) \<Longrightarrow> o_follows S0 (u \<bind> l)"
  by (cases r; cases a; cases q; cases u; auto simp: o_follows_def p_follows_def)+

lemma follows_upd [follows]:
  assumes "follows S0 S" "\<And>x. t_hasTerminated (f x) = t_hasTerminated x" "\<And>x. t_hasId x \<Longrightarrow> t_hasId (f x)"
  shows "follows S0 (upd S w f)"
  using assms by (cases w) (auto simp: follows_def blockable_def upd.simps)

lemma follows_parts [follows]:
  assumes "follows S0 S"
  shows "follows S0 (emit ev S)" "follows S0 (arm t d S w)" "follows S0 (startTimer E t d S w)"
    "follows S0 (cancelTimer t S w)" "follows S0 (cancelAllTimers S w)" "follows S0 (informTU S w m)"
    "follows S0 (onTerminate S w)" "follows S0 (S\<lparr>s_initial := i\<rparr>)" "follows S0 (S\<lparr>s_transport := r\<rparr>)"
    "follows S0 (S\<lparr>s_hasTU := r\<rparr>)" "follows S0 (S\<lparr>s_hasTerminateCallback := r\<rparr>)"
proof -
  show e: "follows S0 (emit ev S)" for ev
    using assms by (auto simp: follows_def blockable_def emit_def)
  show "follows S0 (arm t d S w)" "follows S0 (startTimer E t d S w)" "follows S0 (cancelTimer t S w)" "follows S0 (cancelAllTimers S w)"
    using assms by (auto simp: arm_def startTimer_def cancelTimer_def cancelAllTimers_def intro!: follows_upd)
  show "follows S0 (informTU S w m)" "follows S0 (onTerminate S w)"
    using assms e by (simp_all add: informTU_def onTerminate_def)
qed (use assms in \<open>simp_all add: follows_def blockable_def\<close>)

lemma follows_setState [follows]: "follows S0 S \<Longrightarrow> o_follows S0 (setState st S w)"
  by (auto simp: setState_def intro!: follows)

lemma follows_branch [follows]: "follows S0 S \<Longrightarrow> follows S0 (mark_terminated S w)" "follows S0 S \<Longrightarrow> follows S0 (terminate_branch S b)"
proof -
  show m: "follows S0 (mark_terminated S w)" if "follows S0 S" for S w
    using that
    by (cases w) (auto simp: mark_terminated_def Let_def cancelAllTimers_def onTerminate_def follows_def blockable_def emit_def upd.simps)
  show "follows S0 S \<Longrightarrow> follows S0 (terminate_branch S b)"
    by (simp add: terminate_branch_def m)
qed

lemma follows_foldl [follows]: "follows S0 S \<Longrightarrow> follows S0 (foldl terminate_branch S bs)"
  by (induction bs arbitrary: S) (auto intro!: follows)

lemma follows_terminate [follows]:
  assumes "follows S0 S"
  shows "follows S0 (terminate_parent S)" "follows S0 (terminate S w)"
proof -
  show "follows S0 (terminate_parent S)"
    using assms by (auto simp: terminate_parent_def Let_def intro!: follows)
  then show "follows S0 (terminate S w)"
    using assms by (cases w) (auto intro!: follows)
qed

lemma follows_on_parent [follows]: "follows S0 S \<Longrightarrow> follows S0 (on_parent w (cancelTimer t) S)"
  by (auto simp: on_parent_def intro!: follows)

lemma follows_delayed [follows]: "follows S0 S \<Longrightarrow> follows S0 (handleDelayedTerminate S w)"
  by (auto simp: handleDelayedTerminate_def Let_def simp del: terminate.simps intro!: follows)

lemma follows_share [follows]: "follows S0 S \<Longrightarrow> follows S0 (share old new S w)"
  by (auto simp: share_def Let_def intro!: follows)

lemma follows_handler [follows]: "follows S0 S \<Longrightarrow> o_follows S0 (call_requestHandler E S w m)"
  by (auto simp: call_requestHandler_def Let_def intro!: follows split: option.split sum.split)

lemma follows_queue [follows]: "follows S0 S \<Longrightarrow> o_follows S0 (queue_request S w m)"
  by (auto simp: queue_request_def intro!: follows)

section \<open>The clients\<close>

lemma follows_ict_send [follows]: "follows S0 S \<Longrightarrow> p_follows S0 (SIPIct_onSendMessage E S w m)"
  by (auto simp: SIPIct_onSendMessage_def Let_def intro!: follows split: option.split)

lemma follows_send_ack [follows]: "follows S0 S \<Longrightarrow> o_follows S0 (SIPIct_handleSendAck E S w m b)"
  by (auto simp: SIPIct_handleSendAck_def Let_def intro!: follows split: option.split)

lemma follows_ict_final [follows]: "follows S0 S \<Longrightarrow> o_follows S0 (ict_2xx S w m)" "follows S0 S \<Longrightarrow> o_follows S0 (ict_error E S w m)"
  by (auto simp: ict_2xx_def ict_error_def Let_def intro!: follows)

lemma follows_ict_switch [follows]: "follows S0 S \<Longrightarrow> o_follows S0 (ict_switch E S w m)"
  by (auto simp: ict_switch_def ict_trying_def Let_def intro!: follows)

lemma follows_ict_receive [follows]: "follows S0 S \<Longrightarrow> o_follows S0 (SIPIct_onReceivedMessage E S w m)"
  by (auto simp: SIPIct_onReceivedMessage_def Let_def simp del: terminate.simps intro!: follows)

lemma follows_timeout [follows]: "follows S0 S \<Longrightarrow> o_follows S0 (handleTimeout E S w)"
  by (auto simp: handleTimeout_def Let_def intro!: follows)

lemma follows_ict_timers [follows]:
  assumes "follows S0 S"
  shows "o_follows S0 (SIPIct_handleRetransmitInvite E S w)" "o_follows S0 (SIPIct_handleInviteTimeout E S w)"
    "o_follows S0 (SIPIct_handleExpiresTimeout E S w)"
  using assms
  by (auto simp: SIPIct_handleRetransmitInvite_def SIPIct_handleInviteTimeout_def SIPIct_handleExpiresTimeout_def Let_def
      simp del: terminate.simps intro!: follows)

lemma follows_nict_send [follows]: "follows S0 S \<Longrightarrow> p_follows S0 (SIPNict_onSendMessage E S w m)"
  by (auto simp: SIPNict_onSendMessage_def Let_def intro!: follows split: option.split)

lemma follows_nict_stop [follows]: "follows S0 S \<Longrightarrow> follows S0 (nict_cancel S w)" "follows S0 S \<Longrightarrow> o_follows S0 (nict_stop S w b)"
  by (auto simp: nict_stop_def nict_cancel_def Let_def intro!: follows)

lemma follows_nict_final [follows]: "follows S0 S \<Longrightarrow> o_follows S0 (nict_final E S w m)"
  by (auto simp: nict_final_def Let_def intro!: follows)

lemma follows_nict_receive [follows]: "follows S0 S \<Longrightarrow> o_follows S0 (SIPNict_onReceivedMessage E S w m)"
  by (auto simp: SIPNict_onReceivedMessage_def nict_switch_def Let_def simp del: terminate.simps intro!: follows)

lemma follows_nict_timers [follows]:
  assumes "follows S0 S"
  shows "o_follows S0 (SIPNict_handleRetransmitRequest E S w)" "o_follows S0 (SIPNict_handleRequestTimeout E S w)"
  using assms
  by (auto simp: SIPNict_handleRetransmitRequest_def SIPNict_handleRequestTimeout_def Let_def simp del: terminate.simps intro!: follows)

section \<open>The servers\<close>

text \<open>A function that sends a response keeps the clock.\<close>

definition send_follows :: "(trn_set \<Rightarrow> fmsg \<Rightarrow> trn_set option) \<Rightarrow> bool" where
  "send_follows send \<longleftrightarrow> (\<forall>S0 S m. follows S0 S \<longrightarrow> o_follows S0 (send S m))"

lemma follows_send: "send_follows send \<Longrightarrow> follows S0 S \<Longrightarrow> o_follows S0 (send S m)"
  by (simp add: send_follows_def)

lemma follows_server_send [follows]:
  assumes "follows S0 S"
  shows "p_follows S0 (SIPIst_onSendMessage E S w m)" "p_follows S0 (SIPNist_onSendMessage E S w m)"
  using assms
  by (auto simp: SIPIst_onSendMessage_def SIPNist_onSendMessage_def Let_def simp del: terminate.simps intro!: follows)

lemma follows_queued [follows]: "send_follows send \<Longrightarrow> follows S0 S \<Longrightarrow> p_follows S0 (queued_request send E S w m)"
  by (auto simp: queued_request_def Let_def intro!: follows follows_send [of send])

lemma follows_first [follows]: "follows S0 S \<Longrightarrow> follows S0 (first_request S w m)"
  by (auto simp: first_request_def intro!: follows)

lemma follows_ist_first [follows]: "send_follows send \<Longrightarrow> follows S0 S \<Longrightarrow> o_follows S0 (ist_first send E S w m)"
  by (auto simp: ist_first_def Let_def intro!: follows follows_send [of send])

lemma follows_ist_receive [follows]:
  "send_follows send \<Longrightarrow> follows S0 S \<Longrightarrow> o_follows S0 (SIPIst_onReceivedMessage send E S w m)"
  by (auto simp: SIPIst_onReceivedMessage_def Let_def simp del: terminate.simps intro!: follows split: option.split)

lemma follows_nist_receive [follows]:
  "send_follows send \<Longrightarrow> follows S0 S \<Longrightarrow> o_follows S0 (SIPNist_onReceivedMessage send E S w m)"
  by (auto simp: SIPNist_onReceivedMessage_def nist_first_def Let_def intro!: follows split: option.split)

lemma follows_ist_timers [follows]:
  assumes "follows S0 S"
  shows "follows S0 (SIPIst_handleRetransmitResponse E S w)" "follows S0 (SIPIst_handleACKTimeout S w)"
  using assms
  by (auto simp: SIPIst_handleRetransmitResponse_def SIPIst_handleACKTimeout_def Let_def simp del: terminate.simps
      intro!: follows split: option.split)

section \<open>The transaction\<close>

lemma follows_write [follows]: "follows S0 S \<Longrightarrow> o_follows S0 (SIPTransaction_writeMessage E S w m)"
  by (auto simp: SIPTransaction_writeMessage_def fsm_onSendMessage_def simp del: terminate.simps intro!: follows split: trn_type.split)

lemma follows_branch_found [follows]: "follows S0 S \<Longrightarrow> follows S0 (snd (SIPTransaction_findBranch S m))"
  by (auto simp: SIPTransaction_findBranch_def Let_def follows_def blockable_def upd.simps)

lemma follows_response [follows]: "follows S0 S \<Longrightarrow> o_follows S0 (SIPTransaction_sendResponse E link S w m)"
  using follows_branch_found [of S0 S m]
  by (auto simp: SIPTransaction_sendResponse_def send_on_def simp del: terminate.simps intro!: follows split: prod.split option.split)

lemma follows_fsm [follows]: "follows S0 S \<Longrightarrow> o_follows S0 (fsm_onReceivedMessage E S w m)"
proof -
  assume "follows S0 S"
  moreover have "send_follows (\<lambda>S m. SIPTransaction_sendResponse E LinkAlive S w m)"
    by (simp add: send_follows_def follows)
  ultimately show ?thesis
    by (auto simp: fsm_onReceivedMessage_def Let_def intro!: follows split: trn_type.split)
qed

lemma follows_receive [follows]: "follows S0 S \<Longrightarrow> o_follows S0 (SIPTransaction_onReceivedMessage E S m)"
proof -
  assume S: "follows S0 S"
  define T where "T = (if tri_if (f_isRequest m) \<and> s_initial S = None \<and> \<not> f_isAck m then S\<lparr>s_initial := Some m\<rparr> else S)\<lparr>s_transport := True\<rparr>"
  have T: "follows S0 T"
    using S by (auto simp: T_def intro!: follows)
  moreover have "SIPTransaction_onReceivedMessage E S m =
      (if tri_if (f_isRequest m) \<and> \<not> f_isAck m then fsm_onReceivedMessage E T Parent m
       else if tri_if (tri_not (f_isRequest m)) \<or> f_isAck m then
         (case SIPTransaction_findBranch T m of
            (Some b, S) \<Rightarrow> fsm_onReceivedMessage E S b m
          | (None, S) \<Rightarrow> fsm_onReceivedMessage E S Parent m)
       else Some T)"
    by (simp only: SIPTransaction_onReceivedMessage_def Let_def T_def)
  ultimately show ?thesis
    using follows_branch_found [OF T, of m] by (auto intro!: follows split: prod.split option.split)
qed

lemma follows_request [follows]: "follows S0 S \<Longrightarrow> o_follows S0 (SIPTransaction_sendRequest E cb tcb created S m)"
  by (auto simp: SIPTransaction_sendRequest_def Let_def simp del: terminate.simps intro!: follows)

lemma follows_others [follows]:
  assumes "follows S0 S"
  shows "o_follows S0 (SIPTransaction_sendAckFor2xx E S m)" "o_follows S0 (SIPTransaction_handleConnectionError E reason S)"
  using assms
  by (auto simp: SIPTransaction_sendAckFor2xx_def SIPTransaction_handleConnectionError_def intro!: follows split: option.split)

lemma follows_timer: "follows S0 S \<Longrightarrow> o_follows S0 (fsm_timer E S w t)"
  by (cases "s_type S"; cases t) (auto simp: fsm_timer_def intro!: follows)

text \<open>A step takes the time to its timer, or the time that passes.\<close>

lemma step_follows:
  assumes "trn_step E S ev = Some S'" "\<And>n. ev \<noteq> EvTick n"
    "\<And>w t d. ev = EvTimer w t \<Longrightarrow> t_timers (trn_of S w) t = Some d \<Longrightarrow> d = s_now S"
  shows "follows S S'"
proof -
  have "o_follows S (trn_step E S ev)"
  proof (cases ev)
    case (EvTimer w t)
    have "follows S (expire S w t (s_now S))"
      by (auto simp: expire_def intro!: follows)
    then show ?thesis
      using assms(3) [OF EvTimer] EvTimer
      by (auto simp: trn_step_def intro!: follows follows_timer split: option.split)
  qed (use assms(2) in \<open>auto simp: trn_step_def intro!: follows\<close>)
  with assms(1) show ?thesis
    by (simp add: o_follows_def)
qed

end
