(* ===== verification/SIP_Dispatch.thy ===== *)
theory SIP_Dispatch
  imports SIP_TrnClock
begin

text \<open>
  The pools of transactions and the dispatcher of \<^verbatim>\<open>src/sipfsm/SIPTransactionPool.cpp\<close> and
  \<^verbatim>\<open>src/sipfsm/SIPFSMDispatch.cpp\<close>: which transaction a received message is given to, and which
  one is made for a request that is sent. The four pools are a function of the type of transaction. The
  cache of blocked identifiers is one of the Poco library: the state holds the calls of \<open>add\<close> with their
  times, and its \<open>has\<close> is an argument.
\<close>

section \<open>Definitions\<close>

record dispatcher =
  d_pool :: "trn_type \<Rightarrow> (string \<times> trn_set) list"
  d_now :: nat
  d_blocker :: "(string \<times> nat) list"
  d_ackHandler :: bool
  d_orphans :: "sip_message list"

definition set_pool :: "trn_type \<Rightarrow> (string \<times> trn_set) list \<Rightarrow> dispatcher \<Rightarrow> dispatcher" where
  "set_pool ty p D = D\<lparr>d_pool := (d_pool D)(ty := p)\<rparr>"

definition SIPTransactionPool_findTransaction ::
    "trn_type \<Rightarrow> string \<Rightarrow> bool \<Rightarrow> dispatcher \<Rightarrow> trn_set option \<times> dispatcher" where
  "SIPTransactionPool_findTransaction ty ident canCreateTrn D =
     (case map_of (d_pool D ty) ident of
        Some S \<Rightarrow> (Some S, D)
      | None \<Rightarrow>
          if \<not> canCreateTrn then (None, D)
          else let S = (new_set ty)\<lparr>s_now := d_now D\<rparr> in (Some S, set_pool ty ((ident, S) # d_pool D ty) D))"

definition SIPTransactionPool_removeTransaction :: "trn_type \<Rightarrow> string \<Rightarrow> dispatcher \<Rightarrow> bool \<times> dispatcher" where
  "SIPTransactionPool_removeTransaction ty ident D =
     (if map_of (d_pool D ty) ident = None then (False, D)
      else (True, set_pool ty (AList.delete ident (d_pool D ty)) D))"

definition SIPFSMDispatch_blockIst :: "string \<Rightarrow> dispatcher \<Rightarrow> dispatcher" where
  "SIPFSMDispatch_blockIst ident D = D\<lparr>d_blocker := d_blocker D @ [(ident, d_now D)]\<rparr>"

definition orphan :: "sip_message \<Rightarrow> dispatcher \<Rightarrow> dispatcher" where
  "orphan m D = (if d_ackHandler D then D\<lparr>d_orphans := d_orphans D @ [m]\<rparr> else D)"

text \<open>A transaction \<open>S\<close> has become \<open>S'\<close>; what it asked of its pool and of the dispatcher on
  the way is done.\<close>

definition store :: "trn_type \<Rightarrow> string \<Rightarrow> trn_set \<Rightarrow> trn_set \<Rightarrow> dispatcher \<Rightarrow> dispatcher" where
  "store ty ident S S' D =
     (let outs = set (drop (length (s_out S)) (s_out S'));
          D = (if BlockIst \<in> outs then SIPFSMDispatch_blockIst ident D else D);
          D = set_pool ty (AList.update ident S' (d_pool D ty)) D
      in if RemoveTransaction \<in> outs then snd (SIPTransactionPool_removeTransaction ty ident D) else D)"

text \<open>The type of the transaction for a received message, and whether one may be created. Nothing is
  done with a blocked INVITE and with a message that is neither a request nor a response.\<close>

definition route :: "boost_fns \<Rightarrow> bool \<Rightarrow> bool option \<Rightarrow> sip_message \<Rightarrow> (trn_type \<times> bool) option" where
  "route B blocked isRequest m =
     (if tri_if isRequest then
        if string_caseless_starts_with B (m_startLine m) ''invite'' then if blocked then None else Some (TYPE_IST, True)
        else if string_caseless_starts_with B (m_startLine m) ''ack'' then Some (TYPE_IST, False)
        else Some (TYPE_NIST, True)
      else if tri_if (tri_not isRequest) then
        if string_caseless_ends_with B (SIPMessage_hdrGet B m ''CSeq'' 0) ''invite'' then Some (TYPE_ICT, False)
        else Some (TYPE_NICT, False)
      else None)"

definition no_transaction :: "boost_fns \<Rightarrow> trn_type \<Rightarrow> sip_message \<Rightarrow> dispatcher \<Rightarrow> dispatcher option" where
  "no_transaction B ty m D =
     (if ty = TYPE_IST \<and> SIPMessage_isRequest_method B m ''ACK'' then Some (orphan m D)
      else if ty = TYPE_ICT then
        (case SIPMessage_is2xx m of
           Some (Inr (t, _)) \<Rightarrow> Some (if tri_if t then orphan m D else D)
         | _ \<Rightarrow> None)
      else Some D)"

text \<open>An ACK for a transaction that has sent a 2xx response or has terminated. The branch it is looked for
  in is created when it is missing.\<close>

definition over_for :: "trn_set \<Rightarrow> who \<Rightarrow> bool" where
  "over_for S w \<longleftrightarrow> t_hasSent2xx (trn_of S w) \<or> getState S w = TRN_STATE_TERMINATED"

definition ack_for_2xx :: "trn_set \<Rightarrow> fmsg \<Rightarrow> bool \<times> trn_set" where
  "ack_for_2xx S v =
     (case SIPTransaction_findBranch S v of
        (b, S) \<Rightarrow> ((case b of Some w \<Rightarrow> over_for S w | None \<Rightarrow> False) \<or> over_for S Parent, S))"

definition to_transaction ::
    "fsm_env \<Rightarrow> trn_type \<Rightarrow> string \<Rightarrow> trn_set \<Rightarrow> sip_message \<Rightarrow> dispatcher \<Rightarrow> dispatcher option" where
  "to_transaction E ty ident S m D = do {
     v \<leftarrow> fsm_view (e_num E) (e_boost E) m;
     let isAck = (ty = TYPE_IST \<and> f_isAck v);
     let (over, S) = (if isAck then ack_for_2xx S v else (False, S));
     if over \<and> d_ackHandler D then Some (orphan m (set_pool ty (AList.update ident S (d_pool D ty)) D))
     else do {
       S' \<leftarrow> SIPTransaction_onReceivedMessage E S v;
       Some (store ty ident S S' D)
     }
   }"

text \<open>What is done with a message that has been parsed.\<close>

definition dispatch_parsed ::
    "((string \<times> nat) list \<Rightarrow> nat \<Rightarrow> string \<Rightarrow> bool) \<Rightarrow> fsm_env \<Rightarrow> sip_message \<Rightarrow> dispatcher \<Rightarrow> dispatcher option" where
  "dispatch_parsed has E m D = do {
     (ok, ident) \<leftarrow> SIPMessage_getTransactionId (e_boost E) m None [];
     if \<not> ok then Some D
     else do {
       (isRequest, m) \<leftarrow> SIPMessage_isRequest m;
       case route (e_boost E) (has (d_blocker D) (d_now D) ident) isRequest m of
         None \<Rightarrow> Some D
       | Some (ty, canCreateTrn) \<Rightarrow>
           (case SIPTransactionPool_findTransaction ty ident canCreateTrn D of
              (None, D) \<Rightarrow> no_transaction (e_boost E) ty m D
            | (Some S, D) \<Rightarrow> to_transaction E ty ident S m D)
     }
   }"

text \<open>\<open>short\<close> is the test for a datagram of less than ten bytes.\<close>

definition SIPFSMDispatch_onReceivedMessage ::
    "((string \<times> nat) list \<Rightarrow> nat \<Rightarrow> string \<Rightarrow> bool) \<Rightarrow> fsm_env \<Rightarrow> bool \<Rightarrow> sip_message \<Rightarrow> dispatcher \<Rightarrow> dispatcher option" where
  "SIPFSMDispatch_onReceivedMessage has E short m D =
     (if short then Some D else dispatch_parsed has E (SIPMessage_parse (e_boost E) m) D)"

definition SIPFSMDispatch_createClientTransaction ::
    "boost_fns \<Rightarrow> sip_message \<Rightarrow> dispatcher \<Rightarrow> ((trn_type \<times> string \<times> trn_set) option \<times> dispatcher) option" where
  "SIPFSMDispatch_createClientTransaction B m D = do {
     (isRequest, m) \<leftarrow> SIPMessage_isRequest m;
     (ok, ident) \<leftarrow> SIPMessage_getTransactionId B m None [];
     if tri_if (tri_not isRequest) \<or> \<not> ok then None
     else if \<not> string_caseless_starts_with B (m_startLine m) ''invite'' \<and> SIPMessage_isRequest_method B m ''ACK'' then Some (None, D)
     else let ty = (if string_caseless_starts_with B (m_startLine m) ''invite'' then TYPE_ICT else TYPE_NICT) in
       case SIPTransactionPool_findTransaction ty ident True D of
         (trn, D) \<Rightarrow> Some (map_option (\<lambda>S. (ty, ident, S)) trn, D)
   }"

definition SIPFSMDispatch_sendRequest ::
    "fsm_env \<Rightarrow> bool \<Rightarrow> bool \<Rightarrow> bool \<Rightarrow> sip_message \<Rightarrow> dispatcher \<Rightarrow> dispatcher option" where
  "SIPFSMDispatch_sendRequest E callback terminateCallback created m D = do {
     (trn, D) \<leftarrow> SIPFSMDispatch_createClientTransaction (e_boost E) m D;
     case trn of
       None \<Rightarrow> Some D
     | Some (ty, ident, S) \<Rightarrow> do {
         v \<leftarrow> fsm_view (e_num E) (e_boost E) m;
         S' \<leftarrow> SIPTransaction_sendRequest E callback terminateCallback created S v;
         Some (store ty ident S S' D)
       }
   }"

text \<open>\<open>stop\<close>: the transactions of the pools are set to TERMINATED and their timers are cancelled; those
  of their branches are not. The pools are emptied. What becomes of the transactions is returned with the
  dispatcher.\<close>

definition stop_transaction :: "trn_set \<Rightarrow> trn_set option" where
  "stop_transaction S = map_option (\<lambda>S. cancelAllTimers S Parent) (setState TRN_STATE_TERMINATED S Parent)"

definition SIPTransactionPool_stop :: "trn_type \<Rightarrow> dispatcher \<Rightarrow> (trn_set list \<times> dispatcher) option" where
  "SIPTransactionPool_stop ty D = do {
     stopped \<leftarrow> those (map (stop_transaction \<circ> snd) (d_pool D ty));
     Some (stopped, set_pool ty [] D)
   }"

definition SIPFSMDispatch_stop :: "dispatcher \<Rightarrow> (trn_set list \<times> dispatcher) option" where
  "SIPFSMDispatch_stop D = do {
     (a, D) \<leftarrow> SIPTransactionPool_stop TYPE_ICT D;
     (b, D) \<leftarrow> SIPTransactionPool_stop TYPE_NICT D;
     (c, D) \<leftarrow> SIPTransactionPool_stop TYPE_IST D;
     (d, D) \<leftarrow> SIPTransactionPool_stop TYPE_NIST D;
     Some (a @ b @ c @ d, D)
   }"

section \<open>Steps\<close>

text \<open>All transactions share the clock of the dispatcher. A timer runs when its time has come, and time
  does not pass a timer that has not run.\<close>

datatype dispatch_event =
    DReceive fsm_env bool sip_message
  | DSendRequest fsm_env bool bool bool sip_message
  | DTransaction fsm_env trn_type string event
  | DTick nat

definition dispatch_step ::
    "((string \<times> nat) list \<Rightarrow> nat \<Rightarrow> string \<Rightarrow> bool) \<Rightarrow> dispatcher \<Rightarrow> dispatch_event \<Rightarrow> dispatcher option" where
  "dispatch_step has D ev =
     (case ev of
        DReceive E short m \<Rightarrow> SIPFSMDispatch_onReceivedMessage has E short m D
      | DSendRequest E callback terminateCallback created m \<Rightarrow>
          SIPFSMDispatch_sendRequest E callback terminateCallback created m D
      | DTransaction E ty ident ev \<Rightarrow> do {
          S \<leftarrow> map_of (d_pool D ty) ident;
          S' \<leftarrow> trn_step E S ev;
          Some (store ty ident S S' D)
        }
      | DTick n \<Rightarrow> Some (D\<lparr>d_now := d_now D + n,
          d_pool := (\<lambda>ty. map (\<lambda>(ident, S). (ident, S\<lparr>s_now := s_now S + n\<rparr>)) (d_pool D ty))\<rparr>))"

text \<open>The events of a transaction that do not go through the dispatcher.\<close>

fun own_event :: "trn_set \<Rightarrow> event \<Rightarrow> bool" where
  "own_event S (EvTimer w t) = (t_timers (trn_of S w) t = Some (s_now S))"
| "own_event S (EvSendResponse link m) = admissible S (EvSendResponse link m)"
| "own_event S (EvAckFor2xx m) = admissible S (EvAckFor2xx m)"
| "own_event S (EvConnectionError reason) = True"
| "own_event S _ = False"

fun dispatch_admissible :: "dispatcher \<Rightarrow> dispatch_event \<Rightarrow> bool" where
  "dispatch_admissible D (DTransaction E ty ident ev) =
     (case map_of (d_pool D ty) ident of None \<Rightarrow> False | Some S \<Rightarrow> own_event S ev)"
| "dispatch_admissible D (DTick n) =
     (\<forall>ty. list_all (\<lambda>(ident, S). due_after (s_now S + n) S) (d_pool D ty))"
| "dispatch_admissible D (DReceive E short m) = boost_ok (e_boost E)"
| "dispatch_admissible D (DSendRequest E callback terminateCallback created m) = boost_ok (e_boost E)"

definition new_dispatcher :: "bool \<Rightarrow> dispatcher" where
  "new_dispatcher handler = \<lparr>d_pool = (\<lambda>_. []), d_now = 0, d_blocker = [], d_ackHandler = handler, d_orphans = []\<rparr>"

inductive dispatch_reach ::
    "((string \<times> nat) list \<Rightarrow> nat \<Rightarrow> string \<Rightarrow> bool) \<Rightarrow> dispatcher \<Rightarrow> bool" for has where
  start: "dispatch_reach has (new_dispatcher handler)"
| step: "dispatch_reach has D \<Longrightarrow> dispatch_admissible D ev \<Longrightarrow> dispatch_step has D ev = Some D' \<Longrightarrow> dispatch_reach has D'"

section \<open>The invariant\<close>

text \<open>A pool holds live transactions of its type under distinct identifiers. An invite server has been told
  its identifier.\<close>

definition entry_ok :: "trn_type \<Rightarrow> nat \<Rightarrow> trn_set \<Rightarrow> bool" where
  "entry_ok ty now S \<longleftrightarrow> reach_ok ty S \<and> \<not> t_hasTerminated (s_parent S) \<and> s_now S = now \<and>
     (ty = TYPE_IST \<longrightarrow> blockable S)"

definition dispatcher_ok :: "dispatcher \<Rightarrow> bool" where
  "dispatcher_ok D \<longleftrightarrow> (\<forall>ty. distinct (map fst (d_pool D ty)) \<and>
     (\<forall>ident S. map_of (d_pool D ty) ident = Some S \<longrightarrow> entry_ok ty (d_now D) S))"

lemma dispatcher_ok_entry: "dispatcher_ok D \<Longrightarrow> map_of (d_pool D ty) ident = Some S \<Longrightarrow> entry_ok ty (d_now D) S"
  by (simp add: dispatcher_ok_def)

lemma set_pool_simps [simp]:
  "d_pool (set_pool ty p D) ty' = (if ty' = ty then p else d_pool D ty')" "d_now (set_pool ty p D) = d_now D"
  "d_blocker (set_pool ty p D) = d_blocker D" "d_ackHandler (set_pool ty p D) = d_ackHandler D" "d_orphans (set_pool ty p D) = d_orphans D"
  by (simp_all add: set_pool_def)

lemma block_orphan_simps [simp]:
  "d_pool (SIPFSMDispatch_blockIst i D) = d_pool D" "d_now (SIPFSMDispatch_blockIst i D) = d_now D"
  "d_pool (orphan m D) = d_pool D" "d_now (orphan m D) = d_now D" "d_blocker (orphan m D) = d_blocker D"
  by (simp_all add: SIPFSMDispatch_blockIst_def orphan_def)

lemma dispatcher_ok_cong: "d_pool D' = d_pool D \<Longrightarrow> d_now D' = d_now D \<Longrightarrow> dispatcher_ok D' = dispatcher_ok D"
  by (simp add: dispatcher_ok_def)

text \<open>The transaction a step is about may be a new one, which is in the pool before it has got its first
  message: the others are as they should be.\<close>

definition ok_but :: "trn_type \<Rightarrow> string \<Rightarrow> dispatcher \<Rightarrow> bool" where
  "ok_but ty ident D \<longleftrightarrow> (\<forall>t. distinct (map fst (d_pool D t)) \<and>
     (\<forall>i S. map_of (d_pool D t) i = Some S \<longrightarrow> (t, i) \<noteq> (ty, ident) \<longrightarrow> entry_ok t (d_now D) S))"

lemma ok_but: "dispatcher_ok D \<Longrightarrow> ok_but ty ident D"
  by (simp add: dispatcher_ok_def ok_but_def)

lemma ok_but_cong: "d_pool D' = d_pool D \<Longrightarrow> d_now D' = d_now D \<Longrightarrow> ok_but ty ident D' = ok_but ty ident D"
  by (simp add: ok_but_def)

lemma ok_but_update:
  assumes "ok_but ty ident D" "entry_ok ty (d_now D) S"
  shows "dispatcher_ok (set_pool ty (AList.update ident S (d_pool D ty)) D)"
  using assms by (auto simp: ok_but_def dispatcher_ok_def distinct_update update_conv' simp del: map_of_eq_Some_iff split: if_splits)

lemma ok_but_delete:
  assumes "ok_but ty ident D"
  shows "dispatcher_ok (set_pool ty (AList.delete ident (AList.update ident S (d_pool D ty))) D)"
  using assms by (auto simp: ok_but_def dispatcher_ok_def distinct_update distinct_delete delete_conv' update_conv' simp del: map_of_eq_Some_iff split: if_splits)

lemma no_removal: "set_ok S \<Longrightarrow> RemoveTransaction \<in> set (s_out S) \<longleftrightarrow> t_hasTerminated (s_parent S)"
  using count_list_0_iff [of "s_out S" RemoveTransaction] by (cases "t_hasTerminated (s_parent S)") (simp_all add: set_ok_def removals_def)

lemma store_ok:
  assumes "ok_but ty ident D" "follows S S'" "reach_ok ty S'" "s_now S = d_now D" "RemoveTransaction \<notin> set (s_out S)"
    "ty = TYPE_IST \<Longrightarrow> blockable S'"
  shows "dispatcher_ok (store ty ident S S' D)" "d_now (store ty ident S S' D) = d_now D"
proof -
  obtain outs where outs: "s_out S' = s_out S @ outs" "s_now S' = d_now D"
    using assms(2,4) by (auto simp: follows_def)
  have removed: "RemoveTransaction \<in> set outs \<longleftrightarrow> t_hasTerminated (s_parent S')"
    using no_removal [of S'] assms(3,5) outs(1) by (simp add: reach_ok_def)
  define D1 where "D1 = (if BlockIst \<in> set outs then SIPFSMDispatch_blockIst ident D else D)"
  have D1: "d_pool D1 = d_pool D" "d_now D1 = d_now D"
    by (simp_all add: D1_def)
  define D2 where "D2 = set_pool ty (AList.update ident S' (d_pool D1 ty)) D1"
  have found: "map_of (d_pool D2 ty) ident = Some S'"
    by (simp add: D2_def update_conv' del: map_of_eq_Some_iff)
  have "drop (length (s_out S)) (s_out S') = outs"
    by (simp add: outs(1))
  then have "store ty ident S S' D = (if RemoveTransaction \<in> set outs then snd (SIPTransactionPool_removeTransaction ty ident D2) else D2)"
    unfolding store_def Let_def D2_def D1_def by (simp only:)
  then have D2: "store ty ident S S' D = (if t_hasTerminated (s_parent S') then set_pool ty (AList.delete ident (d_pool D2 ty)) D2 else D2)"
    using removed found by (simp only: SIPTransactionPool_removeTransaction_def option.distinct if_False snd_conv)
  have ok1: "ok_but ty ident D1"
    using assms(1) ok_but_cong [OF D1] by simp
  show "d_now (store ty ident S S' D) = d_now D"
    by (simp add: D2 D2_def D1)
  show "dispatcher_ok (store ty ident S S' D)"
  proof (cases "t_hasTerminated (s_parent S')")
    case True
    then have "store ty ident S S' D = set_pool ty (AList.delete ident (AList.update ident S' (d_pool D1 ty))) D1"
      by (simp add: D2 D2_def set_pool_def)
    then show ?thesis
      using ok_but_delete [OF ok1] by simp
  next
    case False
    then show ?thesis
      using ok_but_update [OF ok1, of S'] assms(3,6) outs(2) D1(2) by (simp add: D2 D2_def entry_ok_def)
  qed
qed

section \<open>Finding and using a transaction\<close>

definition new_entry :: "trn_type \<Rightarrow> nat \<Rightarrow> trn_set \<Rightarrow> bool" where
  "new_entry ty now S \<longleftrightarrow> S = (new_set ty)\<lparr>s_now := now\<rparr>"

lemma find_ok:
  assumes "dispatcher_ok D" "SIPTransactionPool_findTransaction ty ident c D = (r, D')"
  shows "ok_but ty ident D'" "d_now D' = d_now D" "r = None \<Longrightarrow> D' = D"
    "r = Some S \<Longrightarrow> entry_ok ty (d_now D) S \<or> c \<and> new_entry ty (d_now D) S"
  using assms dispatcher_ok_entry [OF assms(1)] ok_but [OF assms(1)]
  by (auto simp: SIPTransactionPool_findTransaction_def new_entry_def ok_but_def map_of_eq_None_iff Let_def
      simp del: map_of_eq_Some_iff split: option.splits if_splits)

lemma entry_no_removal: "entry_ok ty now S \<Longrightarrow> RemoveTransaction \<notin> set (s_out S)" "new_entry ty now S \<Longrightarrow> RemoveTransaction \<notin> set (s_out S)"
  using no_removal [of S] by (simp_all add: entry_ok_def reach_ok_def new_entry_def new_set_def)

lemma findBranch_entry:
  assumes "entry_ok ty now S" "SIPTransaction_findBranch S v = (b, S')"
  shows "entry_ok ty now S'"
proof -
  have "started S" "nict_live S"
    using assms(1) reach_started by (auto simp: entry_ok_def)
  then have "running S Parent S"
    using started_running by blast
  then show ?thesis
  proof (cases rule: findBranch_ok [where m = v])
    case 1
    with assms show ?thesis by simp
  next
    case (2 c U)
    then have U: "set_ok U" "\<not> t_hasTerminated (s_parent U)" "S' = U"
      using assms(2) by (auto simp: running_def)
    moreover have "s_now U = s_now S" "blockable S \<Longrightarrow> blockable U"
      using follows_branch_found [of S S v] 2(1) by (simp_all add: follows_def)
    ultimately show ?thesis
      using assms(1) 2 by (auto simp: entry_ok_def reach_ok_def nict_live_def getState_def)
  qed
qed

lemma ack_branch_entry:
  assumes "(if ty = TYPE_IST \<and> f_isAck v then ack_for_2xx S v else (False, S)) = (b, T)"
  shows "entry_ok ty now S \<Longrightarrow> entry_ok ty now T" "\<not> f_isAck v \<Longrightarrow> T = S \<and> \<not> b"
  using assms findBranch_entry [of ty now S v]
  by (cases "SIPTransaction_findBranch S v"; auto simp: ack_for_2xx_def split: if_splits)+

lemma receive_entry:
  assumes "entry_ok ty now S" "SIPTransaction_onReceivedMessage E S v = Some S'"
  shows "reach_ok ty S'"
  using reach_step(2) [of ty S "EvReceive v" E S'] assms by (simp add: entry_ok_def trn_step_def)

lemma receive_new:
  assumes "new_entry ty now S" "\<not> is_client ty" "tri_if (f_isRequest v)" "\<not> f_isAck v" "SIPTransaction_onReceivedMessage E S v = Some S'"
  shows "reach_ok ty S'"
  using first_request_received [of ty v E now S'] assms by (simp add: new_entry_def)

lemma receive_blockable:
  assumes "entry_ok TYPE_IST now S \<or> new_entry TYPE_IST now S \<and> tri_if (f_isRequest v) \<and> \<not> f_isAck v"
    "SIPTransaction_onReceivedMessage E S v = Some S'"
  shows "blockable S'"
proof -
  consider "entry_ok TYPE_IST now S" | "new_entry TYPE_IST now S" "tri_if (f_isRequest v)" "\<not> f_isAck v"
    using assms(1) by blast
  then show ?thesis
  proof cases
    case 1
    then show ?thesis
      using follows_receive [of S S E v] assms(2) by (auto simp: o_follows_def follows_def entry_ok_def)
  next
    case 2
    define T where "T = (new_set TYPE_IST)\<lparr>s_now := now, s_initial := Some v, s_transport := True\<rparr>"
    let ?send = "\<lambda>S m. SIPTransaction_sendResponse E LinkAlive S Parent m" and ?T = "upd T Parent (\<lambda>x. x\<lparr>t_hasId := True\<rparr>)"
    have "SIPIst_onReceivedMessage ?send E T Parent v = Some S'"
      using 2 assms(2) by (simp add: new_entry_def SIPTransaction_onReceivedMessage_def fsm_onReceivedMessage_def T_def new_set_def Let_def)
    moreover have "SIPIst_onReceivedMessage ?send E T Parent v = SIPIst_onReceivedMessage ?send E ?T Parent v"
      by (simp add: SIPIst_onReceivedMessage_def upd.simps Let_def)
    moreover have "send_follows ?send" "blockable ?T"
      by (simp_all add: send_follows_def follows blockable_def T_def new_set_def upd.simps)
    ultimately show ?thesis
      using follows_ist_receive [of ?send ?T ?T E Parent v] by (simp add: o_follows_def follows_def)
  qed
qed

lemma to_transaction_ok:
  assumes D: "ok_but ty ident D" and S: "entry_ok ty (d_now D) S \<or>
      new_entry ty (d_now D) S \<and> \<not> is_client ty \<and> (\<forall>v. fsm_view (e_num E) (e_boost E) m = Some v \<longrightarrow> tri_if (f_isRequest v) \<and> \<not> f_isAck v)"
    and r: "to_transaction E ty ident S m D = Some D'"
  shows "dispatcher_ok D'" "d_now D' = d_now D"
proof -
  obtain v where v: "fsm_view (e_num E) (e_boost E) m = Some v"
    using r by (auto simp: to_transaction_def bind_eq_Some_conv)
  obtain over T where T: "(if ty = TYPE_IST \<and> f_isAck v then ack_for_2xx S v else (False, S)) = (over, T)"
    by fastforce
  have T_ok: "entry_ok ty (d_now D) T \<or> new_entry ty (d_now D) T \<and> \<not> is_client ty \<and> tri_if (f_isRequest v) \<and> \<not> f_isAck v \<and> \<not> over"
    using S v ack_branch_entry [OF T] by blast
  have now: "s_now T = d_now D" "RemoveTransaction \<notin> set (s_out T)"
    using T_ok entry_no_removal by (auto simp: entry_ok_def new_entry_def)
  have "dispatcher_ok D' \<and> d_now D' = d_now D"
  proof (cases "over \<and> d_ackHandler D")
    case True
    then have "D' = orphan m (set_pool ty (AList.update ident T (d_pool D ty)) D)"
      using r v T by (simp add: to_transaction_def)
    moreover have "dispatcher_ok (set_pool ty (AList.update ident T (d_pool D ty)) D)"
      using ok_but_update [OF D] T_ok True by blast
    ultimately show ?thesis
      using dispatcher_ok_cong [of "orphan m (set_pool ty (AList.update ident T (d_pool D ty)) D)"] by simp
  next
    case False
    then obtain S' where S': "SIPTransaction_onReceivedMessage E T v = Some S'" "D' = store ty ident T S' D"
      using r v T by (auto simp: to_transaction_def bind_eq_Some_conv)
    then have "follows T S'"
      using follows_receive [of T T E v] by (simp add: o_follows_def)
    moreover have "reach_ok ty S'"
      using T_ok receive_entry S'(1) receive_new by blast
    moreover have "blockable S'" if "ty = TYPE_IST"
      using receive_blockable [of "d_now D" T v E S'] T_ok S'(1) that by blast
    ultimately show ?thesis
      using store_ok [OF D _ _ now] S'(2) by simp
  qed
  then show "dispatcher_ok D'" "d_now D' = d_now D"
    by simp_all
qed

section \<open>Every step keeps the invariant\<close>

lemma isRequest_again:
  assumes "SIPMessage_isRequest m = Some (t, m')"
  shows "m_startLine m' = m_startLine m" "\<exists>m''. SIPMessage_isRequest m' = Some (t, m'')"
    "SIPMessage_getTransactionId B m' method old = SIPMessage_getTransactionId B m method old" "SIPMessage_hdrGet B m' h i = SIPMessage_hdrGet B m h i"
proof -
  obtain x where x: "m' = m\<lparr>m_isRequest := x\<rparr>"
    using isRequest_total [of m] assms by auto
  show "m_startLine m' = m_startLine m" and h: "SIPMessage_hdrGet B m' h i = SIPMessage_hdrGet B m h i" for B h i
    by (simp_all add: x SIPMessage_hdrGet_def)
  then show "SIPMessage_getTransactionId B m' method old = SIPMessage_getTransactionId B m method old"
    by (simp add: SIPMessage_getTransactionId_def)
  show "\<exists>m''. SIPMessage_isRequest m' = Some (t, m'')"
    using assms verify_total [of "m_startLine m"] by (auto simp: x SIPMessage_isRequest_def tri_if_def split: if_splits)
qed

lemma string_find_0: "string_find s t = Some 0 \<longleftrightarrow> take (length t) s = t"
  by (cases s) (auto split: if_splits)

lemma starts_with_key:
  assumes "boost_ok B"
  shows "string_caseless_starts_with B s key \<longleftrightarrow> take (length key) (map ascii_lower s) = map ascii_lower key"
  using assms by (simp add: string_caseless_starts_with_def boost_ok_def string_find_0)

lemma view_of_route:
  assumes B: "boost_ok B" and m: "SIPMessage_isRequest m = Some (t, m')" and r: "route B blocked t m' = Some (ty, True)"
    and v: "fsm_view num B m' = Some v"
  shows "\<not> is_client ty" "tri_if (f_isRequest v)" "\<not> f_isAck v"
proof -
  obtain m'' where "SIPMessage_isRequest m' = Some (t, m'')"
    using isRequest_again(2) [OF m] by blast
  then have vt: "f_isRequest v = t" "f_isAck v = string_caseless_starts_with B (m_startLine m') ''ACK''"
    using v by (auto simp: fsm_view_def bind_eq_Some_conv Let_def SIPMessage_isRequest_method_def)
  have low: "map ascii_lower ''ACK'' = ''ack''" "map ascii_lower ''ack'' = ''ack''" "map ascii_lower ''invite'' = ''invite''"
    by code_simp+
  show "\<not> is_client ty" "tri_if (f_isRequest v)"
    using r vt by (auto simp: route_def is_client_def split: if_splits)
  show "\<not> f_isAck v"
    using r low unfolding vt route_def starts_with_key [OF B]
    by (cases "map ascii_lower (m_startLine m')") (auto split: if_splits)
qed

lemma dispatch_parsed_cases [consumes 3, case_names same orphan transaction]:
  assumes D: "dispatcher_ok D" and B: "boost_ok (e_boost E)" and r: "dispatch_parsed has E m0 D = Some D'"
  obtains (same) "D' = D"
    | (orphan) m1 where "D' = orphan m1 D"
    | (transaction) ty ident c S D1 m1 where "SIPTransactionPool_findTransaction ty ident c D = (Some S, D1)"
        "to_transaction E ty ident S m1 D1 = Some D'"
        "entry_ok ty (d_now D1) S \<or> new_entry ty (d_now D1) S \<and> \<not> is_client ty \<and>
          (\<forall>v. fsm_view (e_num E) (e_boost E) m1 = Some v \<longrightarrow> tri_if (f_isRequest v) \<and> \<not> f_isAck v)"
proof (cases "D' = D")
  case False
  obtain t x where m1: "SIPMessage_isRequest m0 = Some (t, m0\<lparr>m_isRequest := x\<rparr>)"
    using isRequest_total by blast
  define m1 where "m1 = m0\<lparr>m_isRequest := x\<rparr>"
  note m1 = m1 [folded m1_def]
  from r False m1 obtain ident ty c where rt: "route (e_boost E) (has (d_blocker D) (d_now D) ident) t m1 = Some (ty, c)"
    and f: "(case SIPTransactionPool_findTransaction ty ident c D of
        (None, D) \<Rightarrow> no_transaction (e_boost E) ty m1 D | (Some S, D) \<Rightarrow> to_transaction E ty ident S m1 D) = Some D'"
    by (auto simp: dispatch_parsed_def bind_eq_Some_conv split: if_splits option.splits)
  obtain q D1 where q: "SIPTransactionPool_findTransaction ty ident c D = (q, D1)"
    by fastforce
  show thesis
  proof (cases q)
    case None
    then show thesis
      using f q find_ok(3) [OF D q] same orphan by (auto simp: no_transaction_def split: if_splits option.splits sum.splits)
  next
    case (Some S)
    obtain v where v: "fsm_view (e_num E) (e_boost E) m1 = Some v"
      using f q Some by (auto simp: to_transaction_def bind_eq_Some_conv)
    have "entry_ok ty (d_now D1) S \<or> new_entry ty (d_now D1) S \<and> \<not> is_client ty \<and>
        (\<forall>v. fsm_view (e_num E) (e_boost E) m1 = Some v \<longrightarrow> tri_if (f_isRequest v) \<and> \<not> f_isAck v)"
      using find_ok(2,4) [OF D q] Some view_of_route [OF B m1 _ v] rt v by auto
    then show thesis
      using transaction [of ty ident c S D1 m1] f q Some by simp
  qed
qed (rule same)

lemma dispatch_parsed_ok:
  assumes D: "dispatcher_ok D" and B: "boost_ok (e_boost E)" and r: "dispatch_parsed has E m0 D = Some D'"
  shows "dispatcher_ok D' \<and> d_now D' = d_now D"
  using D B r
proof (cases rule: dispatch_parsed_cases)
  case (orphan m1)
  then show ?thesis
    using D dispatcher_ok_cong [of "orphan m1 D" D] by auto
next
  case (transaction ty ident c S D1 m1)
  then show ?thesis
    using to_transaction_ok [OF find_ok(1) [OF D transaction(1)] transaction(3,2)] find_ok(2) [OF D transaction(1)] by simp
qed (use D in simp)

lemma dispatch_send_ok:
  assumes D: "dispatcher_ok D" and r: "SIPFSMDispatch_sendRequest E cb tcb created m D = Some D'"
  shows "dispatcher_ok D' \<and> d_now D' = d_now D"
proof -
  obtain t x where m1: "SIPMessage_isRequest m = Some (t, m\<lparr>m_isRequest := x\<rparr>)"
    using isRequest_total by blast
  obtain q D1 where q: "SIPFSMDispatch_createClientTransaction (e_boost E) m D = Some (q, D1)"
    using r by (auto simp: SIPFSMDispatch_sendRequest_def bind_eq_Some_conv)
  show ?thesis
  proof (cases q)
    case None
    then have "D1 = D"
      using q by (auto simp: SIPFSMDispatch_createClientTransaction_def bind_eq_Some_conv Let_def
          SIPTransactionPool_findTransaction_def split: if_splits option.splits prod.splits)
    then show ?thesis
      using r q None D by (simp add: SIPFSMDispatch_sendRequest_def)
  next
    case (Some y)
    obtain ty ident S where y: "y = (ty, ident, S)"
      by (cases y) auto
    have c: "is_client ty" "SIPTransactionPool_findTransaction ty ident True D = (Some S, D1)" "\<not> tri_if (tri_not t)"
      using q Some y m1 by (auto simp: SIPFSMDispatch_createClientTransaction_def bind_eq_Some_conv Let_def is_client_def
          split: if_splits prod.splits)
    note find = find_ok [OF D c(2)]
    obtain v S' where v: "fsm_view (e_num E) (e_boost E) m = Some v" "SIPTransaction_sendRequest E cb tcb created S v = Some S'"
        "D' = store ty ident S S' D1"
      using r q Some y by (auto simp: SIPFSMDispatch_sendRequest_def bind_eq_Some_conv)
    have "f_isRequest v = t"
      using v(1) m1 by (auto simp: fsm_view_def bind_eq_Some_conv Let_def)
    then have "reach_ok ty S'"
      using find(4) [OF refl] first_request_sent [of ty v E cb tcb created "d_now D" S'] v(2) c(1,3)
        reach_step(2) [of ty S "EvSendRequest cb tcb created v" E S']
      by (auto simp: entry_ok_def new_entry_def trn_step_def reach_ok_def)
    moreover have "follows S S'"
      using follows_request [of S S E cb tcb created v] v(2) by (simp add: o_follows_def)
    moreover have "s_now S = d_now D1" "RemoveTransaction \<notin> set (s_out S)"
      using find(2,4) entry_no_removal by (auto simp: entry_ok_def new_entry_def)
    ultimately show ?thesis
      using store_ok [OF find(1)] find(2) v(3) c(1) by (cases "ty = TYPE_IST") (simp_all add: is_client_def)
  qed
qed

lemma own_event_admissible:
  assumes "entry_ok ty now S" "own_event S ev"
  shows "admissible S ev" "\<And>n. ev \<noteq> EvTick n"
    "\<And>w t d. ev = EvTimer w t \<Longrightarrow> t_timers (trn_of S w) t = Some d \<Longrightarrow> d = s_now S"
proof -
  have "due_after (s_now S) S"
    using assms(1) by (auto simp: due_after_iff entry_ok_def reach_ok_def set_ok_def trn_ok_def)
  then show "admissible S ev"
    using assms(2) by (cases ev) auto
  show "\<And>n. ev \<noteq> EvTick n" "\<And>w t d. ev = EvTimer w t \<Longrightarrow> t_timers (trn_of S w) t = Some d \<Longrightarrow> d = s_now S"
    using assms(2) by auto
qed

lemma tick_entry: "entry_ok ty now S \<Longrightarrow> due_after (s_now S + n) S \<Longrightarrow> entry_ok ty (now + n) (S\<lparr>s_now := s_now S + n\<rparr>)"
  using reach_step(2) [of ty S "EvTick n" E "S\<lparr>s_now := s_now S + n\<rparr>"]
  by (simp add: entry_ok_def trn_step_def blockable_def)

lemma dispatch_step_ok:
  assumes D: "dispatcher_ok D" and a: "dispatch_admissible D ev" and r: "dispatch_step has D ev = Some D'"
  shows "dispatcher_ok D' \<and> d_now D \<le> d_now D'"
proof (cases ev)
  case (DTransaction E ty ident e)
  then obtain S S' where S: "map_of (d_pool D ty) ident = Some S" "own_event S e" "trn_step E S e = Some S'" "D' = store ty ident S S' D"
    using a r by (auto simp: dispatch_step_def bind_eq_Some_conv split: option.splits)
  have e: "entry_ok ty (d_now D) S"
    by (rule dispatcher_ok_entry [OF D S(1)])
  note own = own_event_admissible [OF e S(2)]
  have "follows S S'"
    using step_follows [OF S(3)] own(2,3) by blast
  moreover have "reach_ok ty S'"
    using reach_step(2) [of ty S e E S'] e S(3) own(1) by (simp add: entry_ok_def)
  ultimately show ?thesis
    using store_ok [OF ok_but [OF D]] e entry_no_removal(1) [OF e] S(4) by (simp add: entry_ok_def follows_def)
next
  case (DTick n)
  have "entry_ok ty (d_now D + n) S'"
    if at: "map_of (map (\<lambda>(ident, S). (ident, S\<lparr>s_now := s_now S + n\<rparr>)) (d_pool D ty)) i = Some S'" for ty i S'
  proof -
    obtain S where S: "map_of (d_pool D ty) i = Some S" "S' = S\<lparr>s_now := s_now S + n\<rparr>"
      using at unfolding map_of_map by (auto simp del: map_of_eq_Some_iff)
    moreover have "due_after (s_now S + n) S"
      using a DTick S(1) by (auto simp: list_all_iff dest: map_of_SomeD)
    ultimately show ?thesis
      using tick_entry dispatcher_ok_entry [OF D S(1)] by blast
  qed
  moreover have "distinct (map fst (map (\<lambda>(ident, S). (ident, S\<lparr>s_now := s_now S + n\<rparr>)) (d_pool D ty)))" for ty
    using D by (simp add: dispatcher_ok_def comp_def case_prod_beta)
  ultimately show ?thesis
    using r DTick by (auto simp: dispatch_step_def dispatcher_ok_def simp del: map_of_eq_Some_iff)
next
  case (DReceive E short m)
  show ?thesis
  proof (cases short)
    case False
    then have "dispatch_parsed has E (SIPMessage_parse (e_boost E) m) D = Some D'"
      using r DReceive by (simp add: dispatch_step_def SIPFSMDispatch_onReceivedMessage_def)
    then show ?thesis
      using dispatch_parsed_ok [OF D] a DReceive by simp
  qed (use r DReceive D in \<open>simp add: dispatch_step_def SIPFSMDispatch_onReceivedMessage_def\<close>)
next
  case (DSendRequest E cb tcb created m)
  then have "SIPFSMDispatch_sendRequest E cb tcb created m D = Some D'"
    using r by (simp add: dispatch_step_def)
  from dispatch_send_ok [OF D this] show ?thesis
    by simp
qed

lemma dispatch_reach_ok: "dispatch_reach has D \<Longrightarrow> dispatcher_ok D"
proof (induction rule: dispatch_reach.induct)
  case (step D ev D')
  then show ?case
    using dispatch_step_ok by blast
qed (simp add: new_dispatcher_def dispatcher_ok_def)

section \<open>Received messages\<close>

lemma header_lines_nonempty:
  "[] \<notin> set toks \<Longrightarrow> [] \<notin> set lines \<Longrightarrow> [] \<notin> set (header_lines tr toks prev lines)"
  by (induction tr toks prev lines rule: header_lines.induct) (auto simp: Let_def dest: in_set_butlastD)

lemma parse_headers_startLine: "m_startLine (parse_headers B hs m) = m_startLine m"
  by (induction B hs m rule: parse_headers.induct) (auto simp: add_header_def new_header_def Let_def split: option.split prod.split)

text \<open>A message that was parsed has a start line unless it has no headers.\<close>

lemma parsed_start_line:
  assumes B: "boost_ok B" and "m_data m \<noteq> []" "m_startLine (SIPMessage_parse B m) = []"
  shows "m_headers (SIPMessage_parse B m) = []"
proof -
  have "[] \<notin> set (tokenizer B sep s)" for sep s
    using B by (simp add: boost_ok_def)
  then have "[] \<notin> set (snd (SIPMessage_headerTokenize B s CRLF []))" for s
    using header_lines_nonempty by (simp add: SIPMessage_headerTokenize_def Let_def)
  then have "hd (snd (SIPMessage_headerTokenize B s CRLF [])) \<noteq> []" if "snd (SIPMessage_headerTokenize B s CRLF []) \<noteq> []" for s
    using that by (metis hd_in_set)
  then show ?thesis
    using assms(2,3)
    by (auto simp: SIPMessage_parse_def Let_def parse_headers_startLine split: option.splits prod.splits if_splits)
       (metis snd_conv)+
qed

lemma no_headers_no_id:
  assumes "m_headers m = []" shows "SIPMessage_getTransactionId B m None old = Some (False, old)"
  using assms by (simp add: SIPMessage_getTransactionId_def SIPMessage_hdrGet_def Let_def)

end
