(* ===== verification/SIP_DispatchProps.thy ===== *)
theory SIP_DispatchProps
  imports SIP_Dispatch
begin

text \<open>
  What the dispatcher promises: it handles every received message, its pools hold live transactions of
  their type, and a message reaches the transaction it belongs to.
\<close>

section \<open>No message makes the dispatcher fail\<close>

lemma parse_properties: "m_properties (SIPMessage_parse B m) = m_properties m"
proof -
  have "m_properties (parse_headers B hs m) = m_properties m" for hs m
    by (induction B hs m rule: parse_headers.induct) (auto simp: add_header_def new_header_def Let_def split: option.split prod.split)
  then show ?thesis
    by (auto simp: SIPMessage_parse_def Let_def split: option.split prod.split)
qed

lemma new_receive_fine:
  assumes "new_entry ty now S" "\<not> is_client ty" "tri_if (f_isRequest v)" "\<not> f_isAck v" "handler_ok E v"
  shows "\<exists>S'. SIPTransaction_onReceivedMessage E S v = Some S'"
proof -
  let ?N = "(new_set ty)\<lparr>s_now := now\<rparr>"
  let ?T = "?N\<lparr>s_initial := Some v, s_transport := True\<rparr>"
  have "same_trns (?N\<lparr>s_transport := True\<rparr>) ?T"
    by (simp add: same_trns_def)
  then have "ready ?N Parent ?T"
    using new_set_fresh same_fresh by (simp add: ready_def)
  from fsm_receive_ok [OF this, of E v] have "fine ?N (server_fails E ?T Parent v) (fsm_onReceivedMessage E ?T Parent v)"
    using assms(2) by (auto simp: new_set_def is_client_def)
  moreover have "\<not> server_fails E ?T Parent v"
    using assms(5) by (simp add: server_fails_def getState_def new_set_def new_trn_def)
  ultimately show ?thesis
    using assms by (auto simp: fine_def new_entry_def SIPTransaction_onReceivedMessage_def Let_def new_set_def split: option.splits)
qed

lemma entry_receive_fine:
  assumes "entry_ok ty now S" "is_client ty \<or> handler_ok E v \<and> \<not> f_queued v"
  shows "\<exists>S'. SIPTransaction_onReceivedMessage E S v = Some S'"
proof -
  have "started S" "nict_live S" "s_type S = ty"
    using assms(1) reach_started by (auto simp: entry_ok_def reach_ok_def)
  with receive_ok [of S E v] assms(2) show ?thesis
    by (auto simp: fine_def receive_fails_def server_fails_def split: option.splits)
qed

lemma to_transaction_fine:
  assumes S: "entry_ok ty now S \<or> new_entry ty now S \<and> \<not> is_client ty \<and> tri_if (f_isRequest v) \<and> \<not> f_isAck v"
    and v: "fsm_view (e_num E) (e_boost E) m = Some v" and h: "is_client ty \<or> handler_ok E v \<and> \<not> f_queued v"
  shows "\<exists>D'. to_transaction E ty ident S m D = Some D'"
proof -
  obtain over T where T: "(if ty = TYPE_IST \<and> f_isAck v then ack_for_2xx S v else (False, S)) = (over, T)"
    by fastforce
  have T_ok: "entry_ok ty now T \<or> new_entry ty now T \<and> \<not> is_client ty \<and> tri_if (f_isRequest v) \<and> \<not> f_isAck v"
    using S ack_branch_entry [OF T] by blast
  then have "\<exists>S'. SIPTransaction_onReceivedMessage E T v = Some S'"
    using entry_receive_fine h new_receive_fine by blast
  then show ?thesis
    using v T by (auto simp: to_transaction_def)
qed

text \<open>What is asked of a request when there are a request handler and a throttle handler.\<close>

definition request_ok :: "fsm_env \<Rightarrow> sip_message \<Rightarrow> bool" where
  "request_ok E m \<longleftrightarrow>
     (e_requestHandler E \<longrightarrow> (\<exists>m'. fix_rport E m = Some (Inr m'))) \<and> (e_throttle E \<noteq> None \<longrightarrow> can_respond (e_boost E) m)"

lemma server_of_request: "route B blocked t m = Some (ty, c) \<Longrightarrow> \<not> is_client ty \<Longrightarrow> t = Some True"
  by (cases t) (auto simp: route_def tri_if_def tri_not_def is_client_def split: if_splits)

lemma dispatch_parsed_total:
  assumes ok: "dispatcher_ok D" and B: "boost_ok (e_boost E)" and line: "m_startLine m0 = [] \<Longrightarrow> m_headers m0 = []"
    and h: "\<And>m'. SIPMessage_isRequest m0 = Some (Some True, m') \<Longrightarrow> request_ok E m'"
    and q: "\<not> fst (SIPMessage_getProperty m0 ''queued-request'' [])"
  shows "\<exists>D'. dispatch_parsed has E m0 D = Some D'"
proof -
  obtain k ident where k: "SIPMessage_getTransactionId (e_boost E) m0 None [] = Some (k, ident)"
    using transaction_id_total by blast
  obtain t x where t: "SIPMessage_isRequest m0 = Some (t, m0\<lparr>m_isRequest := x\<rparr>)"
    using isRequest_total by blast
  let ?m1 = "m0\<lparr>m_isRequest := x\<rparr>"
  obtain v where v: "fsm_view (e_num E) (e_boost E) ?m1 = Some v" "f_msg v = ?m1"
    using view_total by blast
  have qv: "\<not> f_queued v"
    using q v(1) by (auto simp: fsm_view_def bind_eq_Some_conv Let_def SIPMessage_getProperty_def)
  show ?thesis
  proof (cases "k \<and> route (e_boost E) (has (d_blocker D) (d_now D) ident) t ?m1 \<noteq> None")
    case True
    then obtain ty c where r: "route (e_boost E) (has (d_blocker D) (d_now D) ident) t ?m1 = Some (ty, c)"
      by auto
    have hv: "is_client ty \<or> handler_ok E v \<and> \<not> f_queued v"
      using server_of_request [OF r] h [of ?m1] t v(2) qv by (auto simp: handler_ok_def request_ok_def)
    obtain q D1 where q: "SIPTransactionPool_findTransaction ty ident c D = (q, D1)"
      by fastforce
    show ?thesis
    proof (cases q)
      case None
      have "m_startLine m0 \<noteq> []"
        using line no_headers_no_id [of m0 "e_boost E" "[]"] k True by auto
      moreover have "t = Some False" if "ty = TYPE_ICT"
        using r that by (cases t) (auto simp: route_def tri_if_def tri_not_def split: if_splits)
      ultimately have "\<exists>u. SIPMessage_is2xx ?m1 = Some (Inr u)" if "ty = TYPE_ICT"
        using response_reads_total(3) [of ?m1] isRequest_again(2) [OF t] that by auto
      then show ?thesis
        using None q k t r True by (auto simp: dispatch_parsed_def no_transaction_def)
    next
      case (Some S)
      have "entry_ok ty (d_now D) S \<or> new_entry ty (d_now D) S \<and> \<not> is_client ty \<and> tri_if (f_isRequest v) \<and> \<not> f_isAck v"
        using find_ok(4) [OF ok q Some] view_of_route [OF B t _ v(1)] r by auto
      from to_transaction_fine [OF this v(1) hv] show ?thesis
        using Some q k t r True by (auto simp: dispatch_parsed_def)
    qed
  qed (use k t in \<open>auto simp: dispatch_parsed_def split: option.split\<close>)
qed

text \<open>C6: in every reachable state of the dispatcher, a received message is handled: no exception leaves the
  dispatcher and nothing is read outside a string, whatever transactions there are. The message is any
  non-empty sequence of bytes; nothing at all is asked of a response or of what is no message. Of a request
  it is asked that the functions that put the source address into the top \<open>Via\<close> header succeed, when
  there is a request handler, and that it has the headers of a response, when there is a throttle handler.
  The message is not marked as one that has waited.\<close>

theorem dispatcher_handles_every_message:
  assumes D: "dispatch_reach has D" and B: "boost_ok (e_boost E)" and m: "m_data m \<noteq> []"
    and h: "\<And>m'. SIPMessage_isRequest (SIPMessage_parse (e_boost E) m) = Some (Some True, m') \<Longrightarrow> request_ok E m'"
    and q: "\<not> fst (SIPMessage_getProperty m ''queued-request'' [])"
  shows "\<exists>D'. dispatch_step has D (DReceive E short m) = Some D' \<and> dispatch_reach has D' \<and> d_now D' = d_now D"
proof -
  let ?m0 = "SIPMessage_parse (e_boost E) m"
  note ok = dispatch_reach_ok [OF D]
  have q0: "\<not> fst (SIPMessage_getProperty ?m0 ''queued-request'' [])"
    using q by (simp add: SIPMessage_getProperty_def parse_properties)
  obtain D1 where D1: "dispatch_parsed has E ?m0 D = Some D1"
    using dispatch_parsed_total [OF ok B parsed_start_line [OF B m] h q0] by blast
  have step: "dispatch_step has D (DReceive E short m) = Some (if short then D else D1)"
    using D1 by (simp add: dispatch_step_def SIPFSMDispatch_onReceivedMessage_def)
  moreover have "dispatch_reach has (if short then D else D1)"
    using dispatch_reach.step [OF D _ step] B by simp
  ultimately show ?thesis
    using dispatch_parsed_ok [OF ok B D1] by auto
qed

theorem dispatcher_handles_every_message_witness:
  "\<exists>D'. dispatch_step (\<lambda>_ _ _. False) (new_dispatcher True) (DReceive (sample_env False) False (SIPMessage_new\<lparr>m_data := [NUL, CHR 0xFF, CHR '':'']\<rparr>)) = Some D' \<and>
     d_now D' = 0"
proof -
  have "boost_ok (e_boost (sample_env False))" "request_ok (sample_env False) m'" for m'
    by (simp_all add: sample_env_def boost_model_ok request_ok_def)
  with dispatcher_handles_every_message [OF dispatch_reach.start [of "\<lambda>_ _ _. False" True], of "sample_env False"
      "SIPMessage_new\<lparr>m_data := [NUL, CHR 0xFF, CHR '':'']\<rparr>" False]
  show ?thesis
    by (simp add: new_dispatcher_def SIPMessage_getProperty_def SIPMessage_new_def) blast
qed

section \<open>The pools\<close>

lemma pool_entry: "entry_ok ty now S \<Longrightarrow> s_type S = ty \<and> s_transport S \<and> \<not> t_hasTerminated (s_parent S)"
  by (auto simp: entry_ok_def reach_ok_def set_ok_def parent_ok_def getState_def)

text \<open>C7: the pools are well typed in every reachable state: the pool of a type holds transactions of that
  type, each under one identifier, none of them terminated, each with the clock of the dispatcher, with a
  transport, with a state other than IDLE, with a lifetime timer that is due within 300 seconds and no
  overdue timer. So no transaction is left behind in a pool.\<close>

theorem pools_well_typed:
  assumes "dispatch_reach has D" "(ident, S) \<in> set (d_pool D ty)"
  shows "s_type S = ty \<and> distinct (map fst (d_pool D ty)) \<and> s_now S = d_now D \<and> s_transport S \<and>
    getState S Parent \<noteq> TRN_STATE_IDLE \<and> \<not> t_hasTerminated (s_parent S) \<and> RemoveTransaction \<notin> set (s_out S) \<and>
    due_after (d_now D) S \<and>
    (\<exists>d \<le> d_now D + 300000. t_timers (s_parent S) TimerMaxLifetime = Some d)"
proof -
  have ok: "dispatcher_ok D"
    by (rule dispatch_reach_ok [OF assms(1)])
  then have d: "distinct (map fst (d_pool D ty))"
    by (simp add: dispatcher_ok_def)
  then have e: "entry_ok ty (d_now D) S"
    using dispatcher_ok_entry [OF ok] assms(2) by simp
  then have r: "reach_ok ty S" "\<not> t_hasTerminated (s_parent S)" "s_now S = d_now D"
    by (simp_all add: entry_ok_def)
  obtain x where "t_timers (s_parent S) TimerMaxLifetime = Some x" "x \<le> s_now S + 300000"
    by (rule lifetime_armed [OF r(1,2)])
  moreover have "due_after (d_now D) S"
    using r by (auto simp: due_after_iff reach_ok_def set_ok_def trn_ok_def)
  ultimately show ?thesis
    using d r pool_entry [OF e] entry_no_removal(1) [OF e] by (auto simp: reach_ok_def)
qed

section \<open>Requests that are sent\<close>

lemma first_send_live:
  assumes "is_client ty" "\<not> tri_if (tri_not (f_isRequest v))"
  shows "\<exists>S'. SIPTransaction_sendRequest E cb tcb True ((new_set ty)\<lparr>s_now := n\<rparr>) v = Some S' \<and>
    \<not> t_hasTerminated (s_parent S') \<and> RemoveTransaction \<notin> set (s_out S')"
  using assms
  by (cases ty)
     (auto simp: is_client_def SIPTransaction_sendRequest_def new_set_def SIPTransaction_writeMessage_def fsm_onSendMessage_def
      SIPIct_onSendMessage_def SIPNict_onSendMessage_def getState_def new_trn_def arm_def upd.simps startTimer_def setState_def emit_def
      Let_def split: option.splits)

text \<open>Searches for a key without a space in a text with one.\<close>

lemma ends_with_iff: "string_ends_with s k \<longleftrightarrow> (\<exists>p. s = p @ k)"
proof
  assume "string_ends_with s k"
  then show "\<exists>p. s = p @ k"
    by (intro exI [of _ "take (length s - length k) s"]) (simp add: string_ends_with_def, metis append_take_drop_id)
qed (auto simp: string_ends_with_def)

lemma ends_with_field: "c \<notin> set k \<Longrightarrow> string_ends_with (a @ c # b) k \<longleftrightarrow> string_ends_with b k"
proof -
  assume c: "c \<notin> set k"
  have "\<exists>q. b = q @ k" if "a @ c # b = p @ k" for p
    using that c by (auto simp: append_eq_append_conv2 Cons_eq_append_conv)
  then show ?thesis
    by (auto simp: ends_with_iff)
qed

lemma starts_with_field: "c \<notin> set k \<Longrightarrow> take (length k) (a @ c # b) = k \<longleftrightarrow> take (length k) a = k"
proof -
  assume c: "c \<notin> set k"
  show ?thesis
  proof (cases "length k \<le> length a")
    case False
    then have "c \<in> set (take (length k) (a @ c # b))"
      by (cases "length k - length a") (auto simp: not_le)
    then have "take (length k) (a @ c # b) \<noteq> k"
      using c by metis
    moreover have "take (length k) a \<noteq> k"
      using False by (metis length_take min.cobounded1 nat_le_linear take_all)
    ultimately show ?thesis
      by simp
  qed simp
qed

lemma low_keys: "map ascii_lower ''ACK'' = ''ack''" "map ascii_lower ''ack'' = ''ack''" "map ascii_lower ''invite'' = ''invite''"
    "ascii_lower (CHR '' '') = CHR '' ''"
  by code_simp+

text \<open>The method of a request in its start line and in its \<open>CSeq\<close> header.\<close>

definition method_in :: "string \<Rightarrow> string \<Rightarrow> bool" where
  "method_in key method \<longleftrightarrow> take (length key) (map ascii_lower method) = key"

lemma start_line_method:
  assumes "boost_ok B" "m_startLine m = method @ CHR '' '' # rest"
  shows "string_caseless_starts_with B (m_startLine m) ''invite'' = method_in ''invite'' method"
    "string_caseless_starts_with B (m_startLine m) ''ack'' = method_in ''ack'' method"
    "SIPMessage_isRequest_method B m ''ACK'' = method_in ''ack'' method"
proof -
  have sw: "string_caseless_starts_with B (m_startLine m) key = method_in (map ascii_lower key) method"
    if "CHR '' '' \<notin> set (map ascii_lower key)" for key
    using starts_with_field [OF that, of "map ascii_lower method" "map ascii_lower rest"]
    by (simp add: starts_with_key [OF assms(1)] assms(2) method_in_def low_keys(4))
  show "string_caseless_starts_with B (m_startLine m) ''invite'' = method_in ''invite'' method"
    using sw [of "''invite''"] unfolding low_keys by simp
  show "string_caseless_starts_with B (m_startLine m) ''ack'' = method_in ''ack'' method"
    using sw [of "''ack''"] unfolding low_keys by simp
  show "SIPMessage_isRequest_method B m ''ACK'' = method_in ''ack'' method"
    using sw [of "''ACK''"] unfolding low_keys by (simp add: SIPMessage_isRequest_method_def)
qed

lemma cseq_method:
  assumes "boost_ok B" "tx_parts m number method ident"
  shows "string_caseless_ends_with B (SIPMessage_hdrGet B m ''CSeq'' 0) ''invite'' = string_ends_with (map ascii_lower method) ''invite''"
proof -
  have "SIPMessage_hdrGet B m ''CSeq'' 0 = cseq_text number method"
    using assms(2) boost_keys [OF assms(1)] by (auto simp: tx_parts_def hdrGet_key split: list.splits)
  then show ?thesis
    using assms(1) ends_with_field [of "CHR '' ''" "''invite''"] low_keys(4)
    by (simp add: string_caseless_ends_with_def boost_ok_def cseq_text_def)
qed

definition client_type :: "string \<Rightarrow> trn_type" where
  "client_type method = (if method_in ''invite'' method then TYPE_ICT else TYPE_NICT)"

lemma client_type_simps [simp]: "is_client (client_type method)" "client_type method \<noteq> TYPE_IST"
  by (simp_all add: client_type_def is_client_def)

lemma request_line_kind:
  assumes "requestLineVerify (cstr (m_startLine m)) = Some True" "m_startLine m \<noteq> []"
  shows "SIPMessage_isRequest m = Some (Some True, m\<lparr>m_isRequest := Some True\<rparr>)"
  using assms by (simp add: SIPMessage_isRequest_def tri_if_def)

lemma store_pool:
  "map_of (d_pool (store ty ident S S' D) t) i =
     (if (t, i) = (ty, ident) then if RemoveTransaction \<in> set (drop (length (s_out S)) (s_out S')) then None else Some S'
      else map_of (d_pool D t) i)"
  "d_blocker (store ty ident S S' D) =
     d_blocker D @ (if BlockIst \<in> set (drop (length (s_out S)) (s_out S')) then [(ident, d_now D)] else [])"
  "d_now (store ty ident S S' D) = d_now D"
  by (auto simp: store_def Let_def SIPTransactionPool_removeTransaction_def SIPFSMDispatch_blockIst_def set_pool_def update_conv' delete_conv'
      simp del: map_of_eq_Some_iff)

lemma store_alive:
  assumes "RemoveTransaction \<notin> set (s_out S')"
  shows "map_of (d_pool (store ty ident S S' D) ty) ident = Some S'"
  using assms by (auto simp: store_pool dest: in_set_dropD)

text \<open>A request that is sent has its transaction in the pool.\<close>

lemma send_request_stored:
  assumes D: "dispatcher_ok D" and B: "boost_ok (e_boost E)" and m: "tx_parts m number method ident"
    "m_startLine m = method @ CHR '' '' # rest" "requestLineVerify (cstr (m_startLine m)) = Some True" "\<not> method_in ''ack'' method"
    and new: "map_of (d_pool D (client_type method)) (tx_method method @ number @ ident) = None"
  shows "\<exists>D1 S. SIPFSMDispatch_sendRequest E cb tcb True m D = Some D1 \<and> dispatcher_ok D1 \<and>
    map_of (d_pool D1 (client_type method)) (tx_method method @ number @ ident) = Some S"
proof -
  let ?ty = "client_type method" and ?id = "tx_method method @ number @ ident" and ?m = "m\<lparr>m_isRequest := Some True\<rparr>"
  let ?N = "(new_set ?ty)\<lparr>s_now := d_now D\<rparr>"
  have q: "SIPMessage_isRequest m = Some (Some True, ?m)"
    using request_line_kind [OF m(3)] m(2) by simp
  have i: "SIPMessage_getTransactionId (e_boost E) ?m None [] = Some (True, ?id)"
    using isRequest_again(3) [OF q] transaction_id [OF B m(1)] by simp
  have f: "SIPTransactionPool_findTransaction ?ty ?id True D = (Some ?N, set_pool ?ty ((?id, ?N) # d_pool D ?ty) D)" (is "_ = (_, ?D0)")
    using new by (simp add: SIPTransactionPool_findTransaction_def Let_def)
  have c: "SIPFSMDispatch_createClientTransaction (e_boost E) m D = Some (Some (?ty, ?id, ?N), ?D0)"
    using q i f start_line_method [OF B, of ?m] m(2,4)
    by (simp add: SIPFSMDispatch_createClientTransaction_def tri_if_def tri_not_def client_type_def Let_def)
  obtain v where v: "fsm_view (e_num E) (e_boost E) m = Some v" "f_isRequest v = Some True"
    using q tags_total(1) [of "e_boost E" m] by (auto simp: fsm_view_def Let_def)
  obtain S' where S': "SIPTransaction_sendRequest E cb tcb True ?N v = Some S'" "RemoveTransaction \<notin> set (s_out S')"
    using first_send_live [of ?ty v E cb tcb "d_now D"] v(2) by (auto simp: tri_if_def tri_not_def)
  have "SIPFSMDispatch_sendRequest E cb tcb True m D = Some (store ?ty ?id ?N S' ?D0)"
    using c v(1) S'(1) by (simp add: SIPFSMDispatch_sendRequest_def)
  then show ?thesis
    using store_alive [OF S'(2)] dispatch_send_ok [OF D] by blast
qed

text \<open>C11: a request goes out and its response comes back to it. After \<open>sendRequest\<close> of a request that has no
  transaction yet, a response with the method and number of its \<open>CSeq\<close> header and with its \<open>Via\<close> branch is
  given to the transaction of the request, and the machine takes it. The hypothesis on the method is the
  one under which the dispatcher looks for both in the same pool: the method begins with \<open>invite\<close> when
  and only when it ends with it.\<close>

theorem response_reaches_client:
  assumes D: "dispatch_reach has D" and B: "boost_ok (e_boost E)" "boost_ok (e_boost E')" and m: "tx_parts m number method ident"
    "m_startLine m = method @ CHR '' '' # rest" "requestLineVerify (cstr (m_startLine m)) = Some True"
    and meth: "\<not> method_in ''ack'' method" "method_in ''invite'' method = string_ends_with (map ascii_lower method) ''invite''"
    and new: "map_of (d_pool D (client_type method)) (tx_method method @ number @ ident) = None"
    and r: "tx_parts r number method ident" "SIPMessage_isRequest r = Some (Some False, r')"
  shows "\<exists>D1 S v S'. SIPFSMDispatch_sendRequest E cb tcb True m D = Some D1 \<and>
    map_of (d_pool D1 (client_type method)) (tx_method method @ number @ ident) = Some S \<and>
    fsm_view (e_num E') (e_boost E') r' = Some v \<and> SIPTransaction_onReceivedMessage E' S v = Some S' \<and>
    dispatch_parsed has E' r D1 = Some (store (client_type method) (tx_method method @ number @ ident) S S' D1)"
proof -
  let ?ty = "client_type method" and ?id = "tx_method method @ number @ ident"
  obtain D1 S where S: "SIPFSMDispatch_sendRequest E cb tcb True m D = Some D1" "dispatcher_ok D1" "map_of (d_pool D1 ?ty) ?id = Some S"
    using send_request_stored [OF dispatch_reach_ok [OF D] B(1) m meth(1) new] by blast
  obtain v where v: "fsm_view (e_num E') (e_boost E') r' = Some v"
    using view_total by blast
  obtain S' where S': "SIPTransaction_onReceivedMessage E' S v = Some S'"
    using entry_receive_fine [OF dispatcher_ok_entry [OF S(2,3)]] client_type_simps by blast
  have "route (e_boost E') b (Some False) r' = Some (?ty, False)" for b
    using cseq_method [OF B(2) r(1)] isRequest_again(4) [OF r(2)] meth(2)
    by (simp add: route_def tri_if_def tri_not_def client_type_def)
  then have "dispatch_parsed has E' r D1 = to_transaction E' ?ty ?id S r' D1"
    using transaction_id [OF B(2) r(1)] r(2) S(3) by (simp add: dispatch_parsed_def SIPTransactionPool_findTransaction_def)
  then have "dispatch_parsed has E' r D1 = Some (store ?ty ?id S S' D1)"
    using v S' by (simp add: to_transaction_def)
  with S v S' show ?thesis
    by blast
qed

theorem response_reaches_client_witness:
  "\<exists>D1 S v S'. SIPFSMDispatch_sendRequest (sample_env False) True True True (sample_request ''INVITE'') (new_dispatcher True) = Some D1 \<and>
    map_of (d_pool D1 TYPE_ICT) ''invite17z9hG4bK7'' = Some S \<and> SIPTransaction_onReceivedMessage (sample_env False) S v = Some S' \<and>
    dispatch_parsed (\<lambda>_ _ _. False) (sample_env False) ((sample_request ''INVITE'')\<lparr>m_startLine := ''SIP/2.0 180 Ringing''\<rparr>) D1 =
      Some (store TYPE_ICT ''invite17z9hG4bK7'' S S' D1)"
proof -
  let ?m = "sample_request ''INVITE''"
  let ?r = "?m\<lparr>m_startLine := ''SIP/2.0 180 Ringing''\<rparr>"
  have wf: "cseq_wf ''17'' ''INVITE''" and line: "requestLineVerify (cstr ''INVITE sip:a SIP/2.0'') = Some True"
    and stat: "requestLineVerify (cstr ''SIP/2.0 180 Ringing'') = Some False" "statusLineVerify (cstr ''SIP/2.0 180 Ringing'') = Some True"
    and meth: "method_in ''invite'' ''INVITE''" "\<not> method_in ''ack'' ''INVITE''" "string_ends_with (map ascii_lower ''INVITE'') ''invite''"
    and txm: "tx_method ''INVITE'' = ''invite''"
    by code_simp+
  have parts: "tx_parts ?m ''17'' ''INVITE'' ''z9hG4bK7''"
    by (rule sample_request_parts [OF wf])
  have rparts: "tx_parts ?r ''17'' ''INVITE'' ''z9hG4bK7''"
    using parts by (simp add: tx_parts_def hdr_ok_def hdr_wf_def hdr_vals_def)
  have start: "m_startLine ?m = ''INVITE'' @ CHR '' '' # ''sip:a SIP/2.0''"
    by (simp add: sample_request_def)
  have rl: "requestLineVerify (cstr (m_startLine ?m)) = Some True"
    using line by (simp add: start)
  have kind: "SIPMessage_isRequest ?r = Some (Some False, ?r\<lparr>m_isRequest := Some False\<rparr>)"
    using stat by (simp add: SIPMessage_isRequest_def tri_if_def)
  have B: "boost_ok (e_boost (sample_env False))"
    by (simp add: sample_env_def boost_model_ok)
  have ty: "client_type ''INVITE'' = TYPE_ICT"
    using meth(1) by (simp add: client_type_def)
  have "method_in ''invite'' ''INVITE'' = string_ends_with (map ascii_lower ''INVITE'') ''invite''"
    using meth by blast
  from response_reaches_client [OF dispatch_reach.start [of "\<lambda>_ _ _. False" True] B B parts start rl meth(2) this _ rparts kind, of True True]
  show ?thesis
    by (simp add: new_dispatcher_def ty txm) blast
qed

theorem pools_well_typed_witness:
  "\<exists>D. \<exists>S :: trn_set. dispatch_reach (\<lambda>_ _ _. False) D \<and> s_type S = TYPE_ICT \<and> (\<exists>d \<le> d_now D + 300000. t_timers (s_parent S) TimerMaxLifetime = Some d)"
proof -
  let ?m = "sample_request ''INVITE''"
  have wf: "cseq_wf ''17'' ''INVITE''" "requestLineVerify (cstr ''INVITE sip:a SIP/2.0'') = Some True"
    "method_in ''invite'' ''INVITE''" "\<not> method_in ''ack'' ''INVITE''"
    by code_simp+
  have start: "m_startLine ?m = ''INVITE'' @ CHR '' '' # ''sip:a SIP/2.0''"
    by (simp add: sample_request_def)
  have rl: "requestLineVerify (cstr (m_startLine ?m)) = Some True"
    using wf(2) by (simp add: start)
  have ok: "dispatcher_ok (new_dispatcher True)" "boost_ok (e_boost (sample_env False))"
    by (simp_all add: new_dispatcher_def dispatcher_ok_def sample_env_def boost_model_ok)
  obtain D1 S where D1: "SIPFSMDispatch_sendRequest (sample_env False) True True True ?m (new_dispatcher True) = Some D1"
      "map_of (d_pool D1 (client_type ''INVITE'')) (tx_method ''INVITE'' @ ''17'' @ ''z9hG4bK7'') = Some S"
    using send_request_stored [OF ok sample_request_parts [OF wf(1)] start rl wf(4)] by (fastforce simp: new_dispatcher_def)
  have "dispatch_reach (\<lambda>_ _ _. False) D1"
    by (rule dispatch_reach.step [OF dispatch_reach.start [of _ True], of "DSendRequest (sample_env False) True True True ?m"])
       (use ok D1(1) in \<open>simp_all add: dispatch_step_def\<close>)
  with pools_well_typed [OF this map_of_SomeD [OF D1(2)]] wf(3) show ?thesis
    by (intro exI [of _ D1] exI [of _ S]) (simp add: client_type_def)
qed

section \<open>Requests that are received\<close>

lemma first_invite:
  assumes "\<not> f_isAck v" "tri_if (f_isRequest v)" "e_throttle E = None"
    and h: "e_requestHandler E \<Longrightarrow> fix_rport E (f_msg v) = Some (Inr m')"
  shows "\<exists>S'. SIPTransaction_onReceivedMessage E ((new_set TYPE_IST)\<lparr>s_now := n\<rparr>) v = Some S' \<and> getState S' Parent = IST_PROCEEDING \<and>
    s_out S' = (if e_requestHandler E then [RequestHandler (v\<lparr>f_msg := m'\<rparr>)] else []) \<and> s_branches S' = [] \<and>
    t_timers (s_parent S') = [TimerMaxLifetime \<mapsto> n + 300000] \<and> SIPTransaction_onReceivedMessage E S' v = Some S'"
  using assms
  by (auto simp: SIPTransaction_onReceivedMessage_def fsm_onReceivedMessage_def new_set_def new_trn_def SIPIst_onReceivedMessage_def
      queued_request_def getState_def ist_first_def first_request_def arm_def upd.simps throttle_delay_def setState_def
      call_requestHandler_def share_def emit_def Let_def)

text \<open>A request that is routed to a server of its own.\<close>

lemma invite_routed:
  assumes B: "boost_ok B" and m: "m_startLine m = method @ CHR '' '' # rest"
      "requestLineVerify (cstr (m_startLine m)) = Some True" "method_in ''invite'' method"
  defines "m1 \<equiv> m\<lparr>m_isRequest := Some True\<rparr>"
  shows "SIPMessage_isRequest m = Some (Some True, m1)" "route B b (Some True) m1 = (if b then None else Some (TYPE_IST, True))"
    "fsm_view num B m1 = Some v \<Longrightarrow> f_isRequest v = Some True \<and> \<not> f_isAck v \<and> f_msg v = m1"
proof -
  show q: "SIPMessage_isRequest m = Some (Some True, m1)"
    using request_line_kind m by (simp add: m1_def)
  show r: "route B b (Some True) m1 = (if b then None else Some (TYPE_IST, True))" for b
    using start_line_method(1) [OF B, of m1] m by (simp add: m1_def route_def tri_if_def)
  assume v: "fsm_view num B m1 = Some v"
  have "\<not> f_isAck v"
    using view_of_route(3) [OF B q _ v, of False TYPE_IST] r by simp
  then show "f_isRequest v = Some True \<and> \<not> f_isAck v \<and> f_msg v = m1"
    using v isRequest_again(2) [OF q] by (auto simp: fsm_view_def bind_eq_Some_conv Let_def)
qed

lemma invite_stored:
  assumes B: "boost_ok (e_boost E)" and m: "tx_parts m number method ident"
      "m_startLine m = method @ CHR '' '' # rest" "requestLineVerify (cstr (m_startLine m)) = Some True" "method_in ''invite'' method"
    and new: "map_of (d_pool D TYPE_IST) (tx_method method @ number @ ident) = None"
      "\<not> has (d_blocker D) (d_now D) (tx_method method @ number @ ident)"
    and E: "e_throttle E = None" "e_requestHandler E \<Longrightarrow> fix_rport E (m\<lparr>m_isRequest := Some True\<rparr>) = Some (Inr m')"
  obtains D' S v where "dispatch_parsed has E m D = Some D'" "dispatch_parsed has E m D' = Some D'"
    "d_pool D' = (d_pool D)(TYPE_IST := (tx_method method @ number @ ident, S) # d_pool D TYPE_IST)"
    "fsm_view (e_num E) (e_boost E) (m\<lparr>m_isRequest := Some True\<rparr>) = Some v"
    "getState S Parent = IST_PROCEEDING" "s_out S = (if e_requestHandler E then [RequestHandler (v\<lparr>f_msg := m'\<rparr>)] else [])" "s_branches S = []"
    "t_timers (s_parent S) = [TimerMaxLifetime \<mapsto> d_now D + 300000]"
proof -
  let ?id = "tx_method method @ number @ ident" and ?m = "m\<lparr>m_isRequest := Some True\<rparr>" and ?N = "(new_set TYPE_IST)\<lparr>s_now := d_now D\<rparr>"
  note r = invite_routed [OF B m(2,3,4)]
  obtain v where v: "fsm_view (e_num E) (e_boost E) ?m = Some v"
    using view_total by blast
  have v': "f_isRequest v = Some True" "\<not> f_isAck v" "f_msg v = ?m" "tri_if (f_isRequest v)"
    using r(3) [OF v] by (simp_all add: tri_if_def)
  obtain S where S: "SIPTransaction_onReceivedMessage E ?N v = Some S" "getState S Parent = IST_PROCEEDING" "s_branches S = []"
      "s_out S = (if e_requestHandler E then [RequestHandler (v\<lparr>f_msg := m'\<rparr>)] else [])" "SIPTransaction_onReceivedMessage E S v = Some S"
      "t_timers (s_parent S) = [TimerMaxLifetime \<mapsto> d_now D + 300000]"
    using first_invite [OF v'(2,4) E(1), of m' "d_now D"] E(2) v'(3) by auto
  let ?D = "set_pool TYPE_IST ((?id, S) # d_pool D TYPE_IST) D"
  have to: "to_transaction E TYPE_IST ?id T ?m D1 = Some (store TYPE_IST ?id T S D1)" if "SIPTransaction_onReceivedMessage E T v = Some S" for T D1
    using v v'(2) that by (simp add: to_transaction_def)
  have st: "store TYPE_IST ?id T S D1 = set_pool TYPE_IST (AList.update ?id S (d_pool D1 TYPE_IST)) D1"
    if "s_out T = [] \<or> T = S" for T D1
    using that S(4) by (auto simp: store_def Let_def)
  have "dispatch_parsed has E m D = Some ?D"
    using transaction_id [OF B m(1)] r(1,2) new to [OF S(1)] st [of ?N]
    by (simp add: dispatch_parsed_def SIPTransactionPool_findTransaction_def Let_def new_set_def set_pool_def)
  moreover have "dispatch_parsed has E m ?D = Some ?D"
    using transaction_id [OF B m(1)] r(1,2) new(2) to [OF S(5)] st [of S]
    by (simp add: dispatch_parsed_def SIPTransactionPool_findTransaction_def set_pool_def)
  moreover have "d_pool ?D = (d_pool D)(TYPE_IST := (?id, S) # d_pool D TYPE_IST)"
    by (simp add: set_pool_def)
  ultimately show thesis
    using that v S(2,3,4,6) by blast
qed

text \<open>C9: an INVITE is handed to the request handler once. An INVITE that is not blocked and has no transaction
  gets one, in the pool under the identifier of the request and in the state PROCEEDING, and the handler
  is called once, with the source address in the top \<open>Via\<close> header. The same INVITE again changes
  nothing: the dispatcher and all transactions are as they were.\<close>

theorem invite_handed_once:
  assumes B: "boost_ok (e_boost E)" and m: "tx_parts m number method ident"
      "m_startLine m = method @ CHR '' '' # rest" "requestLineVerify (cstr (m_startLine m)) = Some True" "method_in ''invite'' method"
    and new: "map_of (d_pool D TYPE_IST) (tx_method method @ number @ ident) = None"
      "\<not> has (d_blocker D) (d_now D) (tx_method method @ number @ ident)"
    and E: "e_throttle E = None" "e_requestHandler E" "fix_rport E (m\<lparr>m_isRequest := Some True\<rparr>) = Some (Inr m')"
  shows "\<exists>D' S v. dispatch_parsed has E m D = Some D' \<and> dispatch_parsed has E m D' = Some D' \<and>
    d_pool D' = (d_pool D)(TYPE_IST := (tx_method method @ number @ ident, S) # d_pool D TYPE_IST) \<and>
    fsm_view (e_num E) (e_boost E) (m\<lparr>m_isRequest := Some True\<rparr>) = Some v \<and>
    getState S Parent = IST_PROCEEDING \<and> s_out S = [RequestHandler (v\<lparr>f_msg := m'\<rparr>)]"
proof -
  obtain D' S v where "dispatch_parsed has E m D = Some D'" "dispatch_parsed has E m D' = Some D'"
    "d_pool D' = (d_pool D)(TYPE_IST := (tx_method method @ number @ ident, S) # d_pool D TYPE_IST)"
    "fsm_view (e_num E) (e_boost E) (m\<lparr>m_isRequest := Some True\<rparr>) = Some v" "getState S Parent = IST_PROCEEDING"
    "s_out S = (if e_requestHandler E then [RequestHandler (v\<lparr>f_msg := m'\<rparr>)] else [])"
    by (rule invite_stored [where has = has, OF B m new E(1,3)])
  with E(2) show ?thesis
    by (intro exI [of _ D'] exI [of _ S] exI [of _ v]) simp
qed

section \<open>Requests that come again\<close>

text \<open>An invite server that has left its pool is blocked from then on.\<close>

definition gone_blocked :: "dispatcher \<Rightarrow> dispatcher \<Rightarrow> bool" where
  "gone_blocked D D' \<longleftrightarrow> set (d_blocker D) \<subseteq> set (d_blocker D') \<and>
     (\<forall>i. map_of (d_pool D TYPE_IST) i \<noteq> None \<longrightarrow> map_of (d_pool D' TYPE_IST) i \<noteq> None \<or> (i, d_now D) \<in> set (d_blocker D'))"

lemma gone_blocked_keep: "d_blocker D' = d_blocker D \<Longrightarrow> (\<And>i. map_of (d_pool D TYPE_IST) i \<noteq> None \<Longrightarrow> map_of (d_pool D' TYPE_IST) i \<noteq> None) \<Longrightarrow> gone_blocked D D'"
  by (auto simp: gone_blocked_def)

lemma store_gone:
  assumes S: "ty = TYPE_IST \<Longrightarrow> map_of (d_pool D0 ty) ident \<noteq> None \<Longrightarrow> entry_ok ty (d_now D0) S" "follows S S'" "reach_ok ty S'"
    and D: "d_blocker D = d_blocker D0" "d_now D = d_now D0" "\<And>t i. (t, i) \<noteq> (ty, ident) \<Longrightarrow> map_of (d_pool D t) i = map_of (d_pool D0 t) i"
  shows "gone_blocked D0 (store ty ident S S' D)"
proof -
  obtain outs where outs: "s_out S' = s_out S @ outs" "blockable S \<and> \<not> t_hasTerminated (s_parent S) \<and> t_hasTerminated (s_parent S') \<longrightarrow> BlockIst \<in> set outs"
    using S(2) by (auto simp: follows_def)
  have "BlockIst \<in> set outs" if "RemoveTransaction \<in> set outs" "ty = TYPE_IST" "map_of (d_pool D0 ty) ident \<noteq> None"
    using that S(1,3) outs no_removal [of S'] by (auto simp: entry_ok_def reach_ok_def)
  then show ?thesis
    using D outs(1) by (auto simp: gone_blocked_def store_pool split: if_splits simp del: map_of_eq_Some_iff)
qed

lemma find_gone:
  assumes "SIPTransactionPool_findTransaction ty ident c D = (q, D1)"
  shows "d_blocker D1 = d_blocker D" "d_now D1 = d_now D" "(t, i) \<noteq> (ty, ident) \<Longrightarrow> map_of (d_pool D1 t) i = map_of (d_pool D t) i"
    "q = Some S \<Longrightarrow> map_of (d_pool D ty) ident = None \<or> map_of (d_pool D ty) ident = Some S"
  using assms by (auto simp: SIPTransactionPool_findTransaction_def Let_def split: option.splits if_splits)

lemma to_transaction_gone:
  assumes D: "dispatcher_ok D0" "SIPTransactionPool_findTransaction ty ident c D0 = (Some S, D)"
    and S: "entry_ok ty (d_now D) S \<or>
      new_entry ty (d_now D) S \<and> \<not> is_client ty \<and> (\<forall>v. fsm_view (e_num E) (e_boost E) m = Some v \<longrightarrow> tri_if (f_isRequest v) \<and> \<not> f_isAck v)"
    and r: "to_transaction E ty ident S m D = Some D'"
  shows "gone_blocked D0 D'"
proof -
  note find = find_gone [OF D(2)]
  obtain v where v: "fsm_view (e_num E) (e_boost E) m = Some v"
    using r by (auto simp: to_transaction_def bind_eq_Some_conv)
  obtain over T where T: "(if ty = TYPE_IST \<and> f_isAck v then ack_for_2xx S v else (False, S)) = (over, T)"
    by fastforce
  have T_ok: "entry_ok ty (d_now D) T \<or> new_entry ty (d_now D) T \<and> \<not> is_client ty \<and> tri_if (f_isRequest v) \<and> \<not> f_isAck v"
    using S v ack_branch_entry [OF T] by blast
  have old: "entry_ok ty (d_now D0) T" if "map_of (d_pool D0 ty) ident \<noteq> None"
    using that find(4) [OF refl] dispatcher_ok_entry [OF D(1)] ack_branch_entry(1) [OF T] by auto
  show ?thesis
  proof (cases "over \<and> d_ackHandler D")
    case True
    then have "D' = orphan m (set_pool ty (AList.update ident T (d_pool D ty)) D)"
      using r v T by (simp add: to_transaction_def)
    then show ?thesis
      using find(1,3) by (intro gone_blocked_keep) (auto simp: update_conv' simp del: map_of_eq_Some_iff)
  next
    case False
    then obtain S' where S': "SIPTransaction_onReceivedMessage E T v = Some S'" "D' = store ty ident T S' D"
      using r v T by (auto simp: to_transaction_def bind_eq_Some_conv)
    have "follows T S'"
      using follows_receive [of T T E v] S'(1) by (simp add: o_follows_def)
    moreover have "reach_ok ty S'"
      using T_ok receive_entry S'(1) receive_new by blast
    ultimately show ?thesis
      using store_gone [OF old _ _ find(1,2,3)] S'(2) by simp
  qed
qed

lemma dispatch_parsed_gone:
  assumes D: "dispatcher_ok D" and B: "boost_ok (e_boost E)" and r: "dispatch_parsed has E m0 D = Some D'"
  shows "gone_blocked D D'"
  using D B r
proof (cases rule: dispatch_parsed_cases)
  case (transaction ty ident c S D1 m1)
  then show ?thesis
    using to_transaction_gone [OF D] by blast
qed (simp_all add: gone_blocked_keep)

lemma dispatch_send_gone:
  assumes r: "SIPFSMDispatch_sendRequest E cb tcb created m D = Some D'"
  shows "gone_blocked D D'"
proof -
  obtain q D1 where q: "SIPFSMDispatch_createClientTransaction (e_boost E) m D = Some (q, D1)"
    using r by (auto simp: SIPFSMDispatch_sendRequest_def bind_eq_Some_conv)
  then have D1: "d_blocker D1 = d_blocker D" "d_pool D1 TYPE_IST = d_pool D TYPE_IST" "\<And>ty ident S. q = Some (ty, ident, S) \<Longrightarrow> ty \<noteq> TYPE_IST"
    by (auto simp: SIPFSMDispatch_createClientTransaction_def bind_eq_Some_conv Let_def SIPTransactionPool_findTransaction_def
        split: if_splits option.splits prod.splits)
  show ?thesis
  proof (cases q)
    case (Some y)
    then show ?thesis
      using r q D1 by (cases y) (auto simp: SIPFSMDispatch_sendRequest_def bind_eq_Some_conv gone_blocked_def store_pool)
  qed (use r q D1 in \<open>simp add: SIPFSMDispatch_sendRequest_def gone_blocked_keep\<close>)
qed

lemma dispatch_step_gone:
  assumes D: "dispatcher_ok D" and a: "dispatch_admissible D ev" and r: "dispatch_step has D ev = Some D'"
  shows "gone_blocked D D'"
proof (cases ev)
  case (DTransaction E ty ident e)
  then obtain S S' where S: "map_of (d_pool D ty) ident = Some S" "own_event S e" "trn_step E S e = Some S'" "D' = store ty ident S S' D"
    using a r by (auto simp: dispatch_step_def bind_eq_Some_conv split: option.splits)
  have e: "entry_ok ty (d_now D) S"
    by (rule dispatcher_ok_entry [OF D S(1)])
  note own = own_event_admissible [OF e S(2)]
  have "follows S S'" "reach_ok ty S'"
    using step_follows [OF S(3)] own(2,3) reach_step(2) [of ty S e E S'] e S(3) own(1) by (auto simp: entry_ok_def)
  then show ?thesis
    using e S(4) by (auto intro!: store_gone)
next
  case (DReceive E short m)
  then show ?thesis
    using r a dispatch_parsed_gone [OF D, of E has "SIPMessage_parse (e_boost E) m"]
    by (auto simp: dispatch_step_def SIPFSMDispatch_onReceivedMessage_def gone_blocked_keep split: if_splits)
next
  case (DSendRequest E cb tcb created m)
  then show ?thesis
    using r dispatch_send_gone by (simp add: dispatch_step_def)
next
  case (DTick n)
  then show ?thesis
    using r by (intro gone_blocked_keep) (auto simp: dispatch_step_def map_of_map)
qed

text \<open>The states that follow a state of the dispatcher.\<close>

inductive dispatch_later ::
    "((string \<times> nat) list \<Rightarrow> nat \<Rightarrow> string \<Rightarrow> bool) \<Rightarrow> dispatcher \<Rightarrow> dispatcher \<Rightarrow> bool" for has D where
  now: "dispatch_later has D D"
| later: "dispatch_later has D D1 \<Longrightarrow> dispatch_admissible D1 ev \<Longrightarrow> dispatch_step has D1 ev = Some D2 \<Longrightarrow> dispatch_later has D D2"

lemma later_blocked:
  assumes "dispatch_later has D D'" "dispatcher_ok D"
  shows "dispatcher_ok D' \<and> d_now D \<le> d_now D' \<and> set (d_blocker D) \<subseteq> set (d_blocker D')"
  using assms
proof (induction rule: dispatch_later.induct)
  case (later D1 ev D2)
  then show ?case
    using dispatch_step_ok [of D1 ev has D2] dispatch_step_gone [of D1 ev has D2] by (auto simp: gone_blocked_def)
qed simp

text \<open>What is asked of the cache: an identifier is there for the sixty seconds after it was added.\<close>

definition cache_ok :: "((string \<times> nat) list \<Rightarrow> nat \<Rightarrow> string \<Rightarrow> bool) \<Rightarrow> bool" where
  "cache_ok has \<longleftrightarrow> (\<forall>log now i t. (i, t) \<in> set log \<longrightarrow> t \<le> now \<longrightarrow> now < t + 60000 \<longrightarrow> has log now i)"

text \<open>C10: an INVITE that comes again when its transaction is over starts no second one. When a step of a
  reachable dispatcher takes an invite server out of its pool, then for the sixty seconds that follow,
  whatever else happens, a request with its identifier changes nothing at all: it is given to no transaction
  and to no handler.\<close>

theorem repeated_invite_dropped:
  assumes D: "dispatch_reach has D" "dispatch_admissible D ev" "dispatch_step has D ev = Some D1"
    and gone: "map_of (d_pool D TYPE_IST) (tx_method method @ number @ ident) = Some S"
      "map_of (d_pool D1 TYPE_IST) (tx_method method @ number @ ident) = None"
    and later: "dispatch_later has D1 D2" "d_now D2 < d_now D + 60000" and cache: "cache_ok has"
    and B: "boost_ok (e_boost E)" and m: "tx_parts m number method ident" "m_startLine m = method @ CHR '' '' # rest"
      "requestLineVerify (cstr (m_startLine m)) = Some True" "method_in ''invite'' method"
  shows "dispatch_parsed has E m D2 = Some D2"
proof -
  let ?id = "tx_method method @ number @ ident"
  have ok: "dispatcher_ok D" "dispatcher_ok D1" "d_now D \<le> d_now D1"
    using dispatch_step_ok [OF dispatch_reach_ok [OF D(1)] D(2,3)] dispatch_reach_ok [OF D(1)] by simp_all
  have "(?id, d_now D) \<in> set (d_blocker D1)"
    using dispatch_step_gone [OF ok(1) D(2,3)] gone by (auto simp: gone_blocked_def)
  then have "has (d_blocker D2) (d_now D2) ?id"
    using later_blocked [OF later(1) ok(2)] ok(3) later(2) cache by (auto simp: cache_ok_def)
  then show ?thesis
    using transaction_id [OF B m(1)] invite_routed(1,2) [OF B m(2,3,4)] by (simp add: dispatch_parsed_def)
qed

section \<open>The ACK\<close>

text \<open>The transaction or branch a message with a given tag is for.\<close>

definition ack_who :: "fmsg \<Rightarrow> who" where
  "ack_who v = (if f_toTag v = [] then Parent else Branch (f_toTag v))"

lemma findBranch_present:
  assumes "getState S (ack_who v) \<noteq> TRN_STATE_IDLE"
  shows "SIPTransaction_findBranch S v = (if f_toTag v = [] then None else Some (ack_who v), S)"
proof -
  have "f_toTag v = [] \<or> f_toTag v \<in> branch_tags S"
    using assms absent_branch [of "f_toTag v" S]
    by (cases "f_toTag v \<in> branch_tags S") (auto simp: ack_who_def getState_def new_trn_def split: if_splits)
  then show ?thesis
    by (auto simp: SIPTransaction_findBranch_def ack_who_def branch_tags_def Let_def)
qed

lemma ack_confirms:
  assumes "s_type S = TYPE_IST" "f_isAck v" "getState S (ack_who v) = IST_COMPLETED" "\<not> e_reliable E"
  shows "\<exists>S'. SIPTransaction_onReceivedMessage E S v = Some S' \<and> getState S' (ack_who v) = IST_CONFIRMED \<and> s_out S' = s_out S \<and>
    t_timers (trn_of S' (ack_who v)) TimerG = None \<and> t_timers (trn_of S' (ack_who v)) TimerH = None \<and>
    t_timers (trn_of S' (ack_who v)) TimerI = Some (s_now S + timer_value (e_timers E) TimerI)"
proof -
  let ?S = "S\<lparr>s_transport := True\<rparr>"
  have t: "trn_of ?S w = trn_of S w" for w
    by (cases w) simp_all
  then have "SIPTransaction_findBranch ?S v = (if f_toTag v = [] then None else Some (ack_who v), ?S)"
    using assms(3) by (intro findBranch_present) (simp add: getState_def)
  then have "SIPTransaction_onReceivedMessage E S v = fsm_onReceivedMessage E ?S (ack_who v) v"
    using assms(2) by (simp add: SIPTransaction_onReceivedMessage_def ack_who_def Let_def)
  then show ?thesis
    using assms t by (simp add: fsm_onReceivedMessage_def SIPIst_onReceivedMessage_def queued_request_def Let_def getState_def
        setState_def startTimer_def arm_def cancelTimer_def)
qed

lemma terminate_outputs:
  assumes "\<not> t_hasTerminated (s_parent S)" "blockable S"
  shows "RemoveTransaction \<in> set (drop (length (s_out S)) (s_out (terminate_parent S)))"
    "BlockIst \<in> set (drop (length (s_out S)) (s_out (terminate_parent S)))"
proof -
  obtain U where U: "terminate_parent S = emit RemoveTransaction U" "follows S U"
    using assms(1) by (auto simp: terminate_parent_def Let_def intro!: follows that)
  then show "RemoveTransaction \<in> set (drop (length (s_out S)) (s_out (terminate_parent S)))"
    by (auto simp: follows_def)
  have "follows S (terminate_parent S)"
    by (simp add: follows)
  then show "BlockIst \<in> set (drop (length (s_out S)) (s_out (terminate_parent S)))"
    using assms parent_terminated [of S] by (auto simp: follows_def)
qed

lemma ack_terminates:
  assumes "s_type S = TYPE_IST" "f_isAck v" "getState S (ack_who v) = IST_COMPLETED" "e_reliable E" "\<not> t_hasTerminated (trn_of S (ack_who v))"
  obtains S' where "SIPTransaction_onReceivedMessage E S v = Some S'" "t_hasTerminated (trn_of S' (ack_who v))"
    "getState S' (ack_who v) = TRN_STATE_TERMINATED" "t_timers (trn_of S' (ack_who v)) = Map.empty"
    "ack_who v = Parent \<longrightarrow> {RemoveTransaction, BlockIst} \<subseteq> set (drop (length (s_out S)) (s_out S'))"
proof -
  let ?w = "ack_who v" and ?S = "S\<lparr>s_transport := True\<rparr>"
  define T where "T = put TRN_STATE_TERMINATED (cancelTimer TimerH (upd ?S ?w (\<lambda>x. x\<lparr>t_hasId := True\<rparr>)) ?w) ?w"
  have "SIPTransaction_findBranch ?S v = (if f_toTag v = [] then None else Some ?w, ?S)"
    using assms(3) by (intro findBranch_present) (simp add: getState_def)
  then have "SIPTransaction_onReceivedMessage E S v = fsm_onReceivedMessage E ?S ?w v"
    using assms(2) by (simp add: SIPTransaction_onReceivedMessage_def ack_who_def Let_def)
  also have "\<dots> = Some (terminate T ?w)"
    using assms by (simp add: fsm_onReceivedMessage_def SIPIst_onReceivedMessage_def queued_request_def Let_def setState_put T_def getState_def)
  finally have r: "SIPTransaction_onReceivedMessage E S v = Some (terminate T ?w)" .
  have T: "\<not> t_hasTerminated (trn_of T ?w)" "s_out T = s_out S" "?w = Parent \<longrightarrow> blockable T"
    using assms(1,5) by (simp_all add: T_def primitive_trn put_def cancelTimer_def blockable_def)
  have killed: "trn_of (terminate T ?w) ?w = killed (trn_of T ?w)"
    using terminate_parent_simps(1) [of T Parent] T(1) by (cases ?w) simp_all
  show thesis
  proof (rule that [OF r])
    show "t_hasTerminated (trn_of (terminate T ?w) ?w)" "getState (terminate T ?w) ?w = TRN_STATE_TERMINATED"
      "t_timers (trn_of (terminate T ?w) ?w) = Map.empty"
      using T(1) unfolding killed getState_def by (simp_all add: killed_def)
    show "?w = Parent \<longrightarrow> {RemoveTransaction, BlockIst} \<subseteq> set (drop (length (s_out S)) (s_out (terminate T ?w)))"
      using terminate_outputs [of T] T by auto
  qed
qed

text \<open>C12: the ACK of a client stops the server. The ACK that an INVITE client makes for the error response it got
  is given by the dispatcher to the invite server with the identifier of the INVITE, and there to the branch
  with the tag of the response, which is COMPLETED. Over an unreliable transport it is CONFIRMED from then
  on and sends nothing any more: timers G and H are cancelled, timer I will end it, and nothing else changes.
  Over a reliable transport it terminates at once, with no timer left; without a tag that is the whole
  transaction, which leaves its pool and is blocked.\<close>

theorem ack_confirms_server:
  assumes B: "boost_ok (e_boost E)" and m: "tx_parts m number ''INVITE'' ident" "m_startLine m = ''INVITE '' @ rest" "nul_free rest"
    and single: "\<And>k. k \<in> {''to'', ''cseq'', ''content-length'', ''content-type''} \<Longrightarrow> length (hdr_vals m k) \<le> 1"
    and r: "hdr_ok r" "hdr_vals r ''to'' = to # ts" "to \<noteq> []" and line: "requestLineVerify (cstr (''ACK '' @ rest)) = Some True"
    and ack: "SIPIct_makeAck (e_boost E) m r = Some (True, ack)" "fsm_view (e_num E) (e_boost E) (ack\<lparr>m_isRequest := Some True\<rparr>) = Some v"
    and S: "map_of (d_pool D TYPE_IST) (tx_method ''INVITE'' @ number @ ident) = Some S" "s_type S = TYPE_IST"
      "getState S (ack_who v) = IST_COMPLETED" "\<not> over_for S (ack_who v)" "\<not> over_for S Parent" "\<not> t_hasTerminated (trn_of S (ack_who v))"
  shows "\<exists>S' D'. dispatch_parsed has E ack D = Some D' \<and> SIPTransaction_onReceivedMessage E S v = Some S' \<and>
    D' = store TYPE_IST (tx_method ''INVITE'' @ number @ ident) S S' D \<and>
    (if e_reliable E
     then t_hasTerminated (trn_of S' (ack_who v)) \<and> getState S' (ack_who v) = TRN_STATE_TERMINATED \<and>
       t_timers (trn_of S' (ack_who v)) = Map.empty \<and>
       (ack_who v = Parent \<longrightarrow> map_of (d_pool D' TYPE_IST) (tx_method ''INVITE'' @ number @ ident) = None \<and>
          (tx_method ''INVITE'' @ number @ ident, d_now D) \<in> set (d_blocker D'))
     else D' = set_pool TYPE_IST (AList.update (tx_method ''INVITE'' @ number @ ident) S' (d_pool D TYPE_IST)) D \<and>
       getState S' (ack_who v) = IST_CONFIRMED \<and> s_out S' = s_out S \<and>
       t_timers (trn_of S' (ack_who v)) TimerG = None \<and> t_timers (trn_of S' (ack_who v)) TimerH = None \<and>
       t_timers (trn_of S' (ack_who v)) TimerI = Some (s_now S + timer_value (e_timers E) TimerI))"
proof -
  let ?id = "tx_method ''INVITE'' @ number @ ident" and ?ack = "ack\<lparr>m_isRequest := Some True\<rparr>"
  have a: "m_startLine ack = ''ACK'' @ CHR '' '' # rest" "tx_parts ack number ''ACK'' ident"
    using ack_made [OF B m single r] ack(1) by auto
  have low: "\<not> method_in ''invite'' ''ACK''" "method_in ''ack'' ''ACK''" "tx_method ''ACK'' = tx_method ''INVITE''"
    by code_simp+
  have q: "SIPMessage_isRequest ack = Some (Some True, ?ack)"
    using request_line_kind [of ack] line a(1) by simp
  note start = start_line_method [OF B, of ?ack "''ACK''" rest]
  have isAck: "f_isAck v"
    using ack(2) start(3) a(1) low by (auto simp: fsm_view_def bind_eq_Some_conv Let_def)
  have "ack_for_2xx S v = (False, S)"
    using findBranch_present [of S v] S(3,4,5) by (simp add: ack_for_2xx_def ack_who_def split: if_splits)
  moreover have "route (e_boost E) b (Some True) ?ack = Some (TYPE_IST, False)" for b
    using start(1,2) a(1) low by (simp add: route_def tri_if_def)
  ultimately have to: "dispatch_parsed has E ack D = Some (store TYPE_IST ?id S S' D)" if "SIPTransaction_onReceivedMessage E S v = Some S'" for S'
    using that ack(2) isAck transaction_id [OF B a(2)] q S(1) low(3)
    by (simp add: dispatch_parsed_def SIPTransactionPool_findTransaction_def to_transaction_def)
  show ?thesis
  proof (cases "e_reliable E")
    case True
    obtain S' where S': "SIPTransaction_onReceivedMessage E S v = Some S'" "t_hasTerminated (trn_of S' (ack_who v))"
      "getState S' (ack_who v) = TRN_STATE_TERMINATED" "t_timers (trn_of S' (ack_who v)) = Map.empty"
      "ack_who v = Parent \<longrightarrow> {RemoveTransaction, BlockIst} \<subseteq> set (drop (length (s_out S)) (s_out S'))"
      by (rule ack_terminates [OF S(2) isAck S(3) True S(6)])
    then show ?thesis
      using True to [OF S'(1)] by (intro exI [of _ S'] exI [of _ "store TYPE_IST ?id S S' D"]) (simp add: store_pool)
  next
    case False
    then obtain S' where S': "SIPTransaction_onReceivedMessage E S v = Some S'" "getState S' (ack_who v) = IST_CONFIRMED" "s_out S' = s_out S"
        "t_timers (trn_of S' (ack_who v)) TimerG = None" "t_timers (trn_of S' (ack_who v)) TimerH = None"
        "t_timers (trn_of S' (ack_who v)) TimerI = Some (s_now S + timer_value (e_timers E) TimerI)"
      using ack_confirms isAck S(2,3) by blast
    have "store TYPE_IST ?id S S' D = set_pool TYPE_IST (AList.update ?id S' (d_pool D TYPE_IST)) D"
      by (simp add: store_def S'(3))
    then show ?thesis
      using False S' to [OF S'(1)] by (intro exI [of _ S'] exI [of _ "store TYPE_IST ?id S S' D"]) simp
  qed
qed

section \<open>The pools empty themselves\<close>









section \<open>Stopping\<close>

text \<open>\<open>stop\<close> succeeds and empties the pools, and no transaction keeps a timer of its own. The timers of its
  branches are as they were.\<close>

theorem stop_transaction_timers:
  "\<exists>S'. stop_transaction S = Some S' \<and> getState S' Parent = TRN_STATE_TERMINATED \<and> t_timers (s_parent S') = Map.empty \<and>
     trn_of S' (Branch b) = trn_of S (Branch b)"
  by (auto simp: stop_transaction_def setState_def cancelAllTimers_def getState_def upd.simps trn_of.simps)

lemma pool_stop_total:
  "\<exists>stopped. SIPTransactionPool_stop ty D = Some (stopped, set_pool ty [] D)"
proof -
  have "\<exists>stopped. those (map (stop_transaction \<circ> snd) p) = Some stopped" for p :: "(string \<times> trn_set) list"
  proof (induction p)
    case (Cons x p)
    then show ?case
      using stop_transaction_timers [of "snd x" "[]"] by auto
  qed simp
  from this [of "d_pool D ty"] show ?thesis
    by (auto simp: SIPTransactionPool_stop_def)
qed

theorem stop_empties_pools: "\<exists>stopped D'. SIPFSMDispatch_stop D = Some (stopped, D') \<and> d_pool D' ty = []"
  using pool_stop_total [of TYPE_ICT D] pool_stop_total [of TYPE_NICT "set_pool TYPE_ICT [] D"]
    pool_stop_total [of TYPE_IST "set_pool TYPE_NICT [] (set_pool TYPE_ICT [] D)"]
    pool_stop_total [of TYPE_NIST "set_pool TYPE_IST [] (set_pool TYPE_NICT [] (set_pool TYPE_ICT [] D))"]
  by (cases ty) (auto simp: SIPFSMDispatch_stop_def)

section \<open>Examples\<close>

definition sample_cache :: "(string \<times> nat) list \<Rightarrow> nat \<Rightarrow> string \<Rightarrow> bool" where
  "sample_cache log now i \<longleftrightarrow> list_ex (\<lambda>(j, t). j = i \<and> now < t + 60000) log"

lemma sample_invite:
  "tx_parts (sample_request ''INVITE'') ''17'' ''INVITE'' ''z9hG4bK7''" "method_in ''invite'' ''INVITE''" "tx_method ''INVITE'' = ''invite''"
  "m_startLine (sample_request ''INVITE'') = ''INVITE'' @ CHR '' '' # ''sip:a SIP/2.0''"
  "requestLineVerify (cstr (''INVITE'' @ CHR '' '' # ''sip:a SIP/2.0'')) = Some True" "boost_ok (e_boost (sample_env b))"
proof -
  have "cseq_wf ''17'' ''INVITE''" "requestLineVerify (cstr ''INVITE sip:a SIP/2.0'') = Some True"
    by code_simp+
  then show "tx_parts (sample_request ''INVITE'') ''17'' ''INVITE'' ''z9hG4bK7''"
    "requestLineVerify (cstr (''INVITE'' @ CHR '' '' # ''sip:a SIP/2.0'')) = Some True"
    by (simp_all add: sample_request_parts)
  show "method_in ''invite'' ''INVITE''" "tx_method ''INVITE'' = ''invite''"
    by code_simp+
qed (simp_all add: sample_request_def sample_env_def boost_model_ok)

lemma sample_invite_parsed:
  defines "p \<equiv> SIPMessage_parse boost_model (SIPMessage_commitData (sample_request ''INVITE''))"
  shows "tx_parts p ''17'' ''INVITE'' ''z9hG4bK7''" "m_startLine p = ''INVITE'' @ CHR '' '' # ''sip:a SIP/2.0''"
proof -
  let ?m = "sample_request ''INVITE''"
  have "start_ok ''INVITE sip:a SIP/2.0''" "header_pair_ok (''Via'', ''SIP/2.0/UDP h;branch=z9hG4bK7'')"
    "header_pair_ok (''From'', ''<sip:a>;tag=1'')" "header_pair_ok (''To'', ''<sip:b>'')" "header_pair_ok (''Call-ID'', ''c@h'')"
    "header_pair_ok (''CSeq'', cseq_text ''17'' ''INVITE'')"
    "header_key boost_model ''Via'' = ''via''" "header_key boost_model ''From'' = ''from''" "header_key boost_model ''To'' = ''to''"
    "header_key boost_model ''Call-ID'' = ''call-id''" "header_key boost_model ''CSeq'' = ''cseq''"
    by code_simp+
  moreover have "hdr_wf ?m"
    using sample_request_vals(1) [of "''INVITE''"] by (simp add: hdr_ok_def)
  ultimately have ok: "msg_text_ok boost_model ?m"
    by (simp add: msg_text_ok_def sample_request_def one_header_def)
  then have "start_ok (m_startLine ?m)"
    by (simp add: msg_text_ok_def)
  note parsed = parse_message [OF boost_model_ok this header_pairs_ok [OF ok] commit_text [OF ok]]
  show "m_startLine p = ''INVITE'' @ CHR '' '' # ''sip:a SIP/2.0''"
    using parsed(1) sample_invite(4) by (simp add: p_def)
  show "tx_parts p ''17'' ''INVITE'' ''z9hG4bK7''"
    using parsed(3,4) sample_invite(1) header_pairs_vals [OF ok] by (simp add: p_def tx_parts_def)
qed

lemma invite_answered:
  assumes "s_type S = TYPE_IST" "s_transport S" "getState S Parent = IST_PROCEEDING" "\<not> t_hasTerminated (s_parent S)" "s_branches S = []" "\<not> e_reliable E"
    "f_toTag v = []" "f_isResponse v = Some True" "f_is1xx v = Some False" "f_is2xx v = Some True"
  shows "\<exists>S'. trn_step E S (EvSendResponse LinkAlive v) = Some S' \<and> RemoveTransaction \<in> set (drop (length (s_out S)) (s_out S'))"
  using assms
  by (simp add: trn_step_def SIPTransaction_sendResponse_def SIPTransaction_findBranch_def send_on_def SIPTransaction_writeMessage_def
      fsm_onSendMessage_def SIPIst_onSendMessage_def terminate_parent_def mark_terminated_def onTerminate_def cancelAllTimers_def
      setState_def getState_def upd.simps emit_def tri_if_def tri_not_def Let_def)

theorem invite_handed_once_witness:
  "\<exists>D' S. dispatch_parsed sample_cache ((sample_env False)\<lparr>e_requestHandler := True\<rparr>) (sample_request ''INVITE'') (new_dispatcher True) = Some D' \<and>
     d_pool D' TYPE_IST = [(''invite17z9hG4bK7'', S)] \<and> getState S Parent = IST_PROCEEDING \<and> length (s_out S) = 1"
proof -
  let ?E = "(sample_env False)\<lparr>e_requestHandler := True\<rparr>" and ?m = "sample_request ''INVITE''" and ?D = "new_dispatcher True"
  have "(case fix_rport ?E (?m\<lparr>m_isRequest := Some True\<rparr>) of Some (Inr _) \<Rightarrow> True | _ \<Rightarrow> False)"
    by code_simp
  then obtain m' where m': "fix_rport ?E (?m\<lparr>m_isRequest := Some True\<rparr>) = Some (Inr m')"
    by (auto split: option.splits sum.splits)
  have E: "boost_ok (e_boost ?E)" "e_throttle ?E = None" "e_requestHandler ?E"
    using sample_invite(6) [of False] by (simp_all add: sample_env_def)
  have line: "requestLineVerify (cstr (m_startLine ?m)) = Some True"
    using sample_invite(4,5) by simp
  have new: "map_of (d_pool ?D TYPE_IST) (tx_method ''INVITE'' @ ''17'' @ ''z9hG4bK7'') = None"
    "\<not> sample_cache (d_blocker ?D) (d_now ?D) (tx_method ''INVITE'' @ ''17'' @ ''z9hG4bK7'')"
    by (simp_all add: new_dispatcher_def sample_cache_def)
  obtain D' S v where "dispatch_parsed sample_cache ?E ?m ?D = Some D'"
    "d_pool D' = (d_pool ?D)(TYPE_IST := (tx_method ''INVITE'' @ ''17'' @ ''z9hG4bK7'', S) # d_pool ?D TYPE_IST)"
    "getState S Parent = IST_PROCEEDING" "s_out S = [RequestHandler (v\<lparr>f_msg := m'\<rparr>)]"
    using invite_handed_once [where has = sample_cache and D = ?D, OF E(1) sample_invite(1,4) line sample_invite(2) new E(2,3) m'] by blast
  then show ?thesis
    by (intro exI [of _ D'] exI [of _ S]) (simp add: sample_invite(3) new_dispatcher_def)
qed


theorem ack_confirms_server_witness:
  "\<exists>ack v S S'. SIPIct_makeAck boost_model (sample_request ''INVITE'') (sample_request ''BYE'') = Some (True, ack) \<and>
     getState S (ack_who v) = IST_COMPLETED \<and>
     dispatch_parsed sample_cache (sample_env False) ack (set_pool TYPE_IST [(''invite17z9hG4bK7'', S)] (new_dispatcher True)) =
       Some (set_pool TYPE_IST [(''invite17z9hG4bK7'', S')] (new_dispatcher True)) \<and> getState S' (ack_who v) = IST_CONFIRMED"
proof -
  let ?m = "sample_request ''INVITE''" and ?r = "sample_request ''BYE''" and ?E = "sample_env False"
  have line: "requestLineVerify (cstr (''ACK '' @ ''sip:a SIP/2.0'')) = Some True" and nul: "nul_free ''sip:a SIP/2.0''"
    by code_simp+
  have start: "m_startLine ?m = ''INVITE '' @ ''sip:a SIP/2.0''"
    by (simp add: sample_request_def)
  have single: "length (hdr_vals ?m k) \<le> 1" if "k \<in> {''to'', ''cseq'', ''content-length'', ''content-type''}" for k
    using that by (auto simp: sample_request_def hdr_vals_def one_header_def SIPMessage_new_def)
  have to: "hdr_vals ?r ''to'' = ''<sip:b>'' # []" "''<sip:b>'' \<noteq> []"
    by (simp_all add: sample_request_vals)
  note parts = sample_invite(6) [of False] sample_invite(1) start nul single sample_request_vals(1) [of "''BYE''"] to
  obtain ack where ack: "SIPIct_makeAck (e_boost ?E) ?m ?r = Some (True, ack)"
    by (rule exE [OF ack_made [OF parts]], assumption, elim conjE, rule that)
  obtain v where v: "fsm_view (e_num ?E) (e_boost ?E) (ack\<lparr>m_isRequest := Some True\<rparr>) = Some v"
    using view_total [of "e_num ?E" "e_boost ?E" "ack\<lparr>m_isRequest := Some True\<rparr>"] by (elim exE conjE) (rule that)
  define S where "S = upd (new_set TYPE_IST) (ack_who v) (\<lambda>x. x\<lparr>t_state := IST_COMPLETED\<rparr>)"
  define D where "D = set_pool TYPE_IST [(''invite17z9hG4bK7'', S)] (new_dispatcher True)"
  have S: "s_type S = TYPE_IST" "getState S (ack_who v) = IST_COMPLETED" "\<not> over_for S (ack_who v)" "\<not> over_for S Parent"
      "\<not> t_hasTerminated (trn_of S (ack_who v))"
    using new_set_trn by (simp_all add: S_def over_for_def getState_def new_trn_def del: trn_of.simps) (simp add: new_set_def)
  have at: "map_of (d_pool D TYPE_IST) (tx_method ''INVITE'' @ ''17'' @ ''z9hG4bK7'') = Some S" and E: "\<not> e_reliable ?E"
    by (simp_all add: D_def sample_invite(3) sample_env_def)
  have "\<exists>S' D'. dispatch_parsed sample_cache ?E ack D = Some D' \<and>
      D' = set_pool TYPE_IST (AList.update (tx_method ''INVITE'' @ ''17'' @ ''z9hG4bK7'') S' (d_pool D TYPE_IST)) D \<and>
      getState S' (ack_who v) = IST_CONFIRMED"
    using ack_confirms_server [OF parts line ack v at S, where has = sample_cache] E by (simp only: if_False) blast
  then obtain S' where S': "dispatch_parsed sample_cache ?E ack D =
      Some (set_pool TYPE_IST (AList.update (tx_method ''INVITE'' @ ''17'' @ ''z9hG4bK7'') S' (d_pool D TYPE_IST)) D)"
      "getState S' (ack_who v) = IST_CONFIRMED"
    by blast
  have "set_pool TYPE_IST (AList.update (tx_method ''INVITE'' @ ''17'' @ ''z9hG4bK7'') S' (d_pool D TYPE_IST)) D =
      set_pool TYPE_IST [(''invite17z9hG4bK7'', S')] (new_dispatcher True)"
    by (simp add: D_def sample_invite(3) set_pool_def)
  with S' S(2) ack show ?thesis
    unfolding D_def by (intro exI [of _ ack] exI [of _ v] exI [of _ S] exI [of _ S']) (simp add: sample_env_def)
qed

text \<open>A dispatcher that has got an INVITE.\<close>

lemma sample_served:
  obtains D S where "dispatch_reach sample_cache D" "d_pool D = (\<lambda>_. [])(TYPE_IST := [(''invite17z9hG4bK7'', S)])" "d_now D = 0"
    "entry_ok TYPE_IST 0 S" "getState S Parent = IST_PROCEEDING" "s_out S = []" "s_branches S = []"
    "t_timers (s_parent S) = [TimerMaxLifetime \<mapsto> 300000]"
proof -
  let ?E = "sample_env False" and ?D = "new_dispatcher True"
  let ?data = "SIPMessage_commitData (sample_request ''INVITE'')" and ?id = "tx_method ''INVITE'' @ ''17'' @ ''z9hG4bK7''"
  let ?p = "SIPMessage_parse boost_model ?data"
  have E: "e_boost ?E = boost_model" "e_throttle ?E = None" "\<not> e_requestHandler ?E"
    by (simp_all add: sample_env_def)
  have new: "map_of (d_pool ?D TYPE_IST) ?id = None" "\<not> sample_cache (d_blocker ?D) (d_now ?D) ?id"
    by (simp_all add: new_dispatcher_def sample_cache_def)
  have line: "requestLineVerify (cstr (m_startLine ?p)) = Some True"
    using sample_invite(5) sample_invite_parsed(2) by simp
  obtain D1 S where D1: "dispatch_parsed sample_cache ?E ?p ?D = Some D1" "d_pool D1 = (d_pool ?D)(TYPE_IST := (?id, S) # d_pool ?D TYPE_IST)"
      and S: "getState S Parent = IST_PROCEEDING" "s_out S = []" "s_branches S = []" "t_timers (s_parent S) = [TimerMaxLifetime \<mapsto> 300000]"
    by (rule invite_stored [where has = sample_cache, OF sample_invite(6) sample_invite_parsed line sample_invite(2) new E(2)])
       (use E(3) in \<open>simp_all add: new_dispatcher_def\<close>)
  have r: "dispatch_reach sample_cache D1"
    by (rule dispatch_reach.step [OF dispatch_reach.start [of _ True], of "DReceive ?E False ?data"])
       (use D1(1) E(1) boost_model_ok in \<open>simp_all add: dispatch_step_def SIPFSMDispatch_onReceivedMessage_def\<close>)
  have now: "d_now D1 = 0"
    using dispatch_parsed_ok [OF dispatch_reach_ok [OF dispatch_reach.start] sample_invite(6) D1(1)] by (simp add: new_dispatcher_def)
  have p: "d_pool D1 = (\<lambda>_. [])(TYPE_IST := [(''invite17z9hG4bK7'', S)])"
    by (simp add: D1(2) sample_invite(3) new_dispatcher_def)
  then have "entry_ok TYPE_IST 0 S"
    using dispatcher_ok_entry [OF dispatch_reach_ok [OF r], of TYPE_IST "''invite17z9hG4bK7''" S] now by simp
  with that r p now S show thesis
    by blast
qed

theorem repeated_invite_dropped_witness:
  "\<exists>D. dispatch_reach sample_cache D \<and> map_of (d_pool D TYPE_IST) ''invite17z9hG4bK7'' = None \<and>
     dispatch_parsed sample_cache (sample_env False) (sample_request ''INVITE'') D = Some D"
proof -
  let ?E = "sample_env False"
  let ?id = "tx_method ''INVITE'' @ ''17'' @ ''z9hG4bK7''" and ?v = "(sample_fmsg False [])\<lparr>f_is1xx := Some False, f_is2xx := Some True\<rparr>"
  let ?ev = "DTransaction ?E TYPE_IST ?id (EvSendResponse LinkAlive ?v)"
  obtain D1 S where r1: "dispatch_reach sample_cache D1" and p: "d_pool D1 = (\<lambda>_. [])(TYPE_IST := [(''invite17z9hG4bK7'', S)])"
    and e: "entry_ok TYPE_IST 0 S" and S0: "getState S Parent = IST_PROCEEDING" "s_branches S = []"
    by (rule sample_served)
  have at: "map_of (d_pool D1 TYPE_IST) ?id = Some S"
    by (simp add: p sample_invite(3))
  from pool_entry [OF e] have S: "s_type S = TYPE_IST" "s_transport S" "\<not> t_hasTerminated (s_parent S)"
    by simp_all
  have v: "f_toTag ?v = []" "f_isResponse ?v = Some True" "f_is1xx ?v = Some False" "f_is2xx ?v = Some True" and E: "\<not> e_reliable ?E"
    by (simp_all add: sample_fmsg_def sample_env_def)
  obtain S' where S': "trn_step ?E S (EvSendResponse LinkAlive ?v) = Some S'" "RemoveTransaction \<in> set (drop (length (s_out S)) (s_out S'))"
    using invite_answered [OF S(1,2) S0(1) S(3) S0(2) E v] by blast
  have a: "dispatch_admissible D1 ?ev"
    using at S(1) v by (simp add: is_client_def tri_if_def tri_not_def)
  have s: "dispatch_step sample_cache D1 ?ev = Some (store TYPE_IST ?id S S' D1)" (is "_ = Some ?D2")
    using at S'(1) by (simp add: dispatch_step_def)
  have gone: "map_of (d_pool ?D2 TYPE_IST) ?id = None"
    using S'(2) by (simp add: store_pool)
  have line: "requestLineVerify (cstr (m_startLine (sample_request ''INVITE''))) = Some True"
    using sample_invite(4,5) by simp
  have "cache_ok sample_cache"
    by (auto simp: cache_ok_def sample_cache_def list_ex_iff)
  from repeated_invite_dropped [OF r1 a s at gone dispatch_later.now _ this sample_invite(6,1,4) line sample_invite(2)]
  have "dispatch_parsed sample_cache ?E (sample_request ''INVITE'') ?D2 = Some ?D2"
    by (simp add: store_pool)
  with dispatch_reach.step [OF r1 a s] gone show ?thesis
    by (intro exI [of _ ?D2]) (simp add: sample_invite(3))
qed



end
