(* ===== verification/Spec2Isabelle.thy ===== *)
theory Spec2Isabelle
  imports ABNF_Search ABNF_Delim SIP_Parser SIP_CSeq SIP_URI SIP_StartLine SIP_Message SIP_MessageText SIP_Consume SIP_Identity SIP_DispatchProps
begin

text \<open>
  A verification development for the OSS core library, the C++ SIP stack under
  \<^verbatim>\<open>src/\<close>.

  \<^bold>\<open>The program.\<close> The library parses SIP with a set of C++ templates
  (\<^verbatim>\<open>include/OSS/ABNF\<close>): a rule is a class whose \<open>parse\<close> takes a pointer into a
  NUL-terminated buffer and returns the pointer behind the text it accepts, or the same pointer
  when it accepts nothing. The SIP grammar (\<^verbatim>\<open>src/abnf\<close>) is a family of such classes, built
  from the templates. The header classes (\<^verbatim>\<open>src/sipparser\<close>) keep a header as a string and
  read and write parts of it with the grammar and with a few search functions. Transactions,
  transports, the back-to-back user agent and the session border controller work on the messages
  these classes make up.

  \<^bold>\<open>The model.\<close> A pointer is the list of bytes from the pointer to the end of the buffer
  (\<open>mem\<close>); moving it by \<open>n\<close> bytes is \<open>drop n\<close>, and reading at the end of the buffer is the
  value \<^const>\<open>None\<close>, so that a proof of \<open>Some\<close> is a proof that nothing outside the buffer
  is read. \<open>c_str()\<close> is \<open>cstr s = s @ [NUL]\<close>. A \<open>char\<close> is signed (\<open>schar\<close>). A function
  with an output parameter takes its old value and returns the new one beside the result.
  Functions of boost (\<open>to_upper\<close>, \<open>to_lower\<close>, \<open>split\<close>, \<open>trim\<close>,
  \<open>lexical_cast\<close>) and the generator of identifiers are arguments of the definitions that use
  them, and what a theorem needs of them is a hypothesis of it.

  \<^bold>\<open>The theories.\<close>

  \<^item> \<open>OSS_Prelude\<close>: memory, strings, signed characters, the collections of facts.

  \<^item> \<open>ABNF_Core\<close>: the templates of \<^verbatim>\<open>ABNFBaseRule.h\<close>, \<^verbatim>\<open>ABNFParser.h\<close>,
    \<^verbatim>\<open>ABNFAnyOf.h\<close>, \<^verbatim>\<open>ABNFStringLiteral.h\<close>, \<^verbatim>\<open>ABNFLRSequence.h\<close> and
    \<^verbatim>\<open>ABNFLoopUntil.h\<close>, as functions on records of a parse function and two flags. The
    locale \<open>abnf_rule\<close> is the contract of a rule on a C string (the result lies in the
    string and does not depend on what follows the terminator); \<open>abnf_rule_ne\<close> is the
    contract of the rules that may only be run on nonempty text. Every template is shown to keep
    it, and to compute the function on strings that its name says (\<open>refines\<close>).

  \<^item> \<open>ABNF_SIP\<close>: every class and typedef of the SIP grammar, with the contract for each.

  \<^item> \<open>ABNF_Language\<close>: what some classes accept (tokens, IPv4 addresses, quoted strings,
    literals), the safety of the classes, and the locale \<open>token_parser\<close> of the classes with
    \<open>parseTokens\<close>.

  \<^item> \<open>ABNF_Delim\<close>: the locale \<open>delimited\<close> of rules that never take one of a set of
    delimiters, which lets the parts of a header be told apart.

  \<^item> \<open>ABNF_Search\<close>: \<open>findNextIterFromString\<close>, \<open>findLastIterFromString\<close>,
    \<open>findNextIterFromRule\<close>, \<open>ABNFWhileNot\<close>, \<open>ABNFFindMatch\<close>.

  \<^item> \<open>SIP_Parser\<close>, \<open>SIP_CSeq\<close>, \<open>SIP_URI\<close>, \<open>SIP_StartLine\<close>: the classes of the
    same names in \<^verbatim>\<open>src/sipparser\<close>; the last holds \<^verbatim>\<open>SIPStatusLine.cpp\<close> and
    \<^verbatim>\<open>SIPRequestLine.cpp\<close> and the locale \<open>start_line\<close> of lines with three fields.

  \<^item> \<open>SIP_Via\<close>, \<open>SIP_From\<close>: the headers of \<^verbatim>\<open>SIPVia.cpp\<close> and
    \<^verbatim>\<open>SIPFrom.cpp\<close> (also used for \<open>To\<close>), with their lists of values and parameters.

  \<^item> \<open>SIP_Message\<close>: the class \<open>SIPMessage\<close> of \<^verbatim>\<open>SIPMessage.cpp\<close>: a record of
    its members, parsing, the operations on headers, the tests for the kind of a message and its
    identifiers. The locale \<open>header_store\<close> is the interface of the header operations over an
    abstract map from names to lists of values; the well-formedness of the header map is an invariant
    of all operations (\<open>msg_step\<close>).

  \<^item> \<open>SIP_MessageText\<close>: the text of a message; \<open>parse\<close> reads back what \<open>commitData\<close>
    writes.

  \<^item> \<open>SIP_Consume\<close>: the reader for streams (\<open>consumeOne\<close>, \<open>consume\<close>, \<open>read\<close>); a
    message is framed exactly, however the stream is cut into chunks.

  \<^item> \<open>SIP_Identity\<close>: transaction identifiers; \<open>createResponse\<close>, \<open>reformatResponse\<close>,
    \<open>createRequest\<close>.

  \<^item> \<open>SIP_MessageSafe\<close>: what the transactions ask of a message (its kind, identifiers, tags and the class
    of its status code) reads nothing outside its strings, under which conditions on the start line; and
    when \<open>createResponse\<close> makes a response and when it throws (\<open>can_respond\<close>).

  \<^item> \<open>SIP_Fsm\<close>, \<open>SIP_Transaction\<close>: the four transaction state machines of
    \<^verbatim>\<open>src/sipfsm\<close> (\<^verbatim>\<open>SIPIct.cpp\<close>, \<^verbatim>\<open>SIPNict.cpp\<close>, \<^verbatim>\<open>SIPIst.cpp\<close>,
    \<^verbatim>\<open>SIPNist.cpp\<close>) on the timers of \<^verbatim>\<open>SIPFsm.cpp\<close>, and the transaction of
    \<^verbatim>\<open>SIPTransaction.cpp\<close> that drives them. A \<open>trn_set\<close> is a transaction with its branches; an
    armed timer is its deadline in milliseconds, what is written or handed to the user is a list of
    outputs, and \<^const>\<open>None\<close> is an exception. \<open>trn_step\<close> is the processing of one event. The
    responses that the machines make themselves are those of \<open>createResponse\<close>, with its exceptions
    (\<open>create_response\<close>, \<open>make_response\<close>). A message is held by pointers: what a server does to a
    request is seen by all that hold it (\<open>share\<close>).

  \<^item> \<open>SIP_TrnInvariant\<close>, \<open>SIP_TrnMachines\<close>, \<open>SIP_TrnRuns\<close>: the invariant of a
    transaction set (\<open>set_ok\<close>), that every handler keeps it, and the runs (\<open>trn_reach\<close>).

  \<^item> \<open>SIP_TrnProps\<close>: what holds of all runs: no step throws but in the cases of \<open>step_fails\<close>, every
    transaction ends, and how often and when messages are sent again; the ACK of the invite client belongs to its INVITE.

  \<^item> \<open>SIP_TrnClock\<close>: the handlers take no time and only append to the outputs, and an invite server that
    terminates asks for its identifier to be blocked (\<open>follows\<close>).

  \<^item> \<open>SIP_Dispatch\<close>: the pools of transactions and the dispatcher of
    \<^verbatim>\<open>SIPTransactionPool.cpp\<close> and \<^verbatim>\<open>SIPFSMDispatch.cpp\<close>, on the parser of messages and on the
    transactions; \<open>dispatch_step\<close> is the processing of one event by the whole stack above the
    transports, and the invariant \<open>dispatcher_ok\<close> is kept by all of them.

  \<^item> \<open>SIP_DispatchProps\<close>: what holds of all runs of the dispatcher: it handles every message (for a request, under conditions on its headers when there are request
    and throttle handlers), its pools are well typed and empty themselves, and requests, responses, repetitions and ACKs reach the transaction
    they belong to.

  \<^bold>\<open>Bounds.\<close> No definition uses fuel: the loops are structural or have a termination proof by
  the length of the remaining buffer. The bounds in the theorems (1024 characters of a token, a
  quoted string or a reason phrase) are the template arguments of the source.

  \<^bold>\<open>What is not modelled.\<close> Undefined behaviour other than an access outside a buffer; the
  allocator and exceptions of the standard library; locales of the C library (the classic one is
  assumed by \<open>isspace\<close> and \<open>isxdigit\<close>). Of the transactions: the locks, so that the processing of
  an event is not interrupted; addresses and the creation of transports, whose success is an argument;
  events for a transaction that was removed from its pool; the state that a call leaves behind when it
  throws; the kind of a request that \<open>createResponse\<close> caches, which is never used; timer values beyond the
  range of \<open>unsigned long\<close>, except for the product with the Expires header, which wraps. Of the dispatcher: the transport service, which
  is assumed to be there when a request is sent; \<open>SIPTransactionPool::onReceivedMessage\<close>, which locks its
  mutex twice and is not called; the housekeeping timer of the pools, which does nothing; the cache of
  blocked identifiers and the conversion of texts to numbers, which are arguments. Sockets, threads, logging, databases, the
  JavaScript engine and the vendored libraries are input and output or code of others. The headers \<open>Contact\<close>, \<open>Route\<close>, \<open>Replaces\<close> and
  \<open>Authorization\<close>, SDP, the back-to-back user agent, and the address and access control classes of
  \<^verbatim>\<open>src/net\<close> are not modelled.
\<close>

end
